(* ===== verification/Prelude.thy ===== *)
theory Prelude
  imports Main
begin

text \<open>
  Shared vocabulary of the jsonobj development: the Python exceptions the module raises
  or lets escape from the builtins it calls (\<open>py_error\<close>), the result type of a
  fallible operation, CPython's index normalisation and clamping for sequences, the
  list surgery behind \<open>del l[i]\<close> and \<open>l.insert(i, x)\<close>, the insertion-ordered
  association lists that model a Python \<open>dict\<close>, and decimal digits for printing and
  reading integers.  Everything here is generic: no definition mentions jsonobj.
\<close>

named_theorems py_simps "evaluation rules of the Python model, for concrete runs"

section \<open>Exceptions and results\<close>

datatype py_error =
    KeyError
  | IndexError
  | ValueError
  | TypeError
  | AttributeError
  | RecursionError
  | SyntaxError
  | RuntimeError

type_synonym 'a result = "py_error + 'a"

text \<open>Sequencing of fallible steps: the first exception propagates, as a raise does.\<close>

definition rbind :: "'a result \<Rightarrow> ('a \<Rightarrow> 'b result) \<Rightarrow> 'b result" where
  "rbind m f = (case m of Inl e \<Rightarrow> Inl e | Inr x \<Rightarrow> f x)"

lemma rbind_Inl [simp]: "rbind (Inl e) f = Inl e"
  and rbind_Inr [simp]: "rbind (Inr x) f = f x"
  by (simp_all add: rbind_def)

lemma rbind_eq_Inr:
  "rbind m f = Inr y \<longleftrightarrow> (\<exists>x. m = Inr x \<and> f x = Inr y)"
  by (cases m) simp_all

lemma rbind_eq_Inl:
  "rbind m f = Inl e \<longleftrightarrow> m = Inl e \<or> (\<exists>x. m = Inr x \<and> f x = Inl e)"
  by (cases m) simp_all

text \<open>Evaluating a list of fallible steps from left to right; the first raise propagates.\<close>

fun res_list :: "'a result list \<Rightarrow> 'a list result" where
  "res_list [] = Inr []"
| "res_list (r # rs) = rbind r (\<lambda>x. map_sum id (Cons x) (res_list rs))"

lemma res_list_map_Inr:
  "list_all2 (\<lambda>x t. f x = Inr (g t)) xs ts \<Longrightarrow> res_list (map f xs) = Inr (map g ts)"
  by (induction rule: list_all2_induct) simp_all

section \<open>Sequence indices\<close>

text \<open>
  \<open>l[i]\<close>, \<open>l[i] = v\<close>, \<open>del l[i]\<close> and \<open>l.pop(i)\<close>: a negative index counts from the
  end; what is still outside \<open>[0, len)\<close> raises IndexError.
\<close>

definition py_norm_index :: "int \<Rightarrow> nat \<Rightarrow> nat option" where
  "py_norm_index i n =
     (let j = (if i < 0 then i + int n else i)
      in if 0 \<le> j \<and> j < int n then Some (nat j) else None)"

text \<open>
  \<open>l.insert(i, x)\<close> and the \<open>start\<close>/\<open>stop\<close> bounds of \<open>l.index\<close> never raise: a
  negative bound counts from the end and the result is clamped into \<open>[0, len]\<close>.
\<close>

definition py_clamp_index :: "int \<Rightarrow> nat \<Rightarrow> nat" where
  "py_clamp_index i n =
     nat (if i < 0 then max 0 (i + int n) else min i (int n))"

lemma py_norm_index_lt [py_simps]: "py_norm_index i n = Some j \<Longrightarrow> j < n"
  by (auto simp: py_norm_index_def Let_def split: if_splits)

lemma py_norm_index_None:
  "py_norm_index i n = None \<longleftrightarrow> i < - int n \<or> int n \<le> i"
  by (auto simp: py_norm_index_def Let_def)

lemma py_norm_index_nonneg:
  "0 \<le> i \<Longrightarrow> i < int n \<Longrightarrow> py_norm_index i n = Some (nat i)"
  by (simp add: py_norm_index_def)

lemma py_norm_index_neg:
  "i < 0 \<Longrightarrow> - int n \<le> i \<Longrightarrow> py_norm_index i n = Some (nat (i + int n))"
  by (simp add: py_norm_index_def)

lemma py_norm_index_last:
  "0 < n \<Longrightarrow> py_norm_index (-1) n = Some (n - 1)"
  by (simp add: py_norm_index_def of_nat_diff)

lemma py_clamp_index_le: "py_clamp_index i n \<le> n"
  by (auto simp: py_clamp_index_def nat_le_iff)

section \<open>List surgery\<close>

definition remove_nth :: "nat \<Rightarrow> 'a list \<Rightarrow> 'a list" where
  "remove_nth i xs = take i xs @ drop (Suc i) xs"

definition insert_nth :: "nat \<Rightarrow> 'a \<Rightarrow> 'a list \<Rightarrow> 'a list" where
  "insert_nth i x xs = take i xs @ x # drop i xs"

lemma length_remove_nth [simp]:
  "i < length xs \<Longrightarrow> length (remove_nth i xs) = length xs - 1"
  by (simp add: remove_nth_def)

lemma length_insert_nth [simp]:
  "i \<le> length xs \<Longrightarrow> length (insert_nth i x xs) = Suc (length xs)"
  by (simp add: insert_nth_def)

lemma set_remove_nth_subset: "set (remove_nth i xs) \<subseteq> set xs"
  by (auto simp: remove_nth_def dest: in_set_takeD in_set_dropD)

lemma set_insert_nth_subset: "set (insert_nth j x xs) \<subseteq> insert x (set xs)"
  by (auto simp: insert_nth_def dest: in_set_takeD in_set_dropD)

lemma list_all2_remove_nth:
  "list_all2 P xs ys \<Longrightarrow> list_all2 P (remove_nth j xs) (remove_nth j ys)"
  by (simp add: remove_nth_def list_all2_appendI list_all2_takeI list_all2_dropI)

lemma list_all2_insert_nth:
  "list_all2 P xs ys \<Longrightarrow> P x y \<Longrightarrow> list_all2 P (insert_nth j x xs) (insert_nth j y ys)"
  by (simp add: insert_nth_def list_all2_appendI list_all2_takeI list_all2_dropI)

lemma set_insert_nth: "i \<le> length xs \<Longrightarrow> set (insert_nth i x xs) = insert x (set xs)"
proof -
  have "set (take i xs) \<union> set (drop i xs) = set xs"
    by (metis append_take_drop_id set_append)
  then show ?thesis by (auto simp: insert_nth_def)
qed

lemma nth_insert_nth_same: "i \<le> length xs \<Longrightarrow> insert_nth i x xs ! i = x"
  by (simp add: insert_nth_def nth_append)

lemma remove_nth_last:
  "xs \<noteq> [] \<Longrightarrow> remove_nth (length xs - 1) xs = butlast xs"
  by (simp add: remove_nth_def butlast_conv_take)

section \<open>Insertion-ordered dictionaries\<close>

text \<open>
  A Python \<open>dict\<close> remembers insertion order: \<open>d[k] = v\<close> overwrites in place when
  \<open>k\<close> is present and appends otherwise; \<open>del d[k]\<close> drops the entry.  The model is
  an association list with distinct keys.
\<close>

fun alist_set :: "'k \<Rightarrow> 'v \<Rightarrow> ('k \<times> 'v) list \<Rightarrow> ('k \<times> 'v) list" where
  "alist_set k v [] = [(k, v)]"
| "alist_set k v ((a, b) # ps) =
     (if k = a then (k, v) # ps else (a, b) # alist_set k v ps)"

fun alist_del :: "'k \<Rightarrow> ('k \<times> 'v) list \<Rightarrow> ('k \<times> 'v) list" where
  "alist_del k [] = []"
| "alist_del k ((a, b) # ps) = (if k = a then ps else (a, b) # alist_del k ps)"

lemma map_of_alist_set [simp]: "map_of (alist_set k v ps) = (map_of ps)(k \<mapsto> v)"
  by (induction ps) (auto simp: fun_eq_iff)

lemma keys_alist_set:
  "map fst (alist_set k v ps) =
     (if k \<in> set (map fst ps) then map fst ps else map fst ps @ [k])"
  by (induction ps) force+

lemma distinct_alist_set [simp]:
  "distinct (map fst ps) \<Longrightarrow> distinct (map fst (alist_set k v ps))"
  by (simp add: keys_alist_set)

lemma length_alist_set:
  "length (alist_set k v ps) =
     (if k \<in> set (map fst ps) then length ps else Suc (length ps))"
  using keys_alist_set [of k v ps] by (metis length_append_singleton length_map)

lemma keys_alist_del: "distinct (map fst ps) \<Longrightarrow> map fst (alist_del k ps) = removeAll k (map fst ps)"
  by (induction ps) (auto simp: removeAll_id)

lemma map_of_alist_del [simp]:
  "distinct (map fst ps) \<Longrightarrow> map_of (alist_del k ps) = (map_of ps)(k := None)"
proof (induction ps)
  case Nil
  then show ?case by (simp add: fun_eq_iff)
next
  case (Cons p ps)
  obtain a b where p: "p = (a, b)" by fastforce
  show ?case
  proof (cases "k = a")
    case True
    with Cons.prems p have "map_of ps k = None" by (simp add: map_of_eq_None_iff)
    with True p show ?thesis by (simp add: fun_eq_iff)
  next
    case False
    with Cons p show ?thesis by (simp add: fun_eq_iff)
  qed
qed

lemma distinct_alist_del [simp]:
  "distinct (map fst ps) \<Longrightarrow> distinct (map fst (alist_del k ps))"
  by (simp add: keys_alist_del distinct_removeAll)

lemma length_alist_del:
  "distinct (map fst ps) \<Longrightarrow> k \<in> set (map fst ps) \<Longrightarrow> length (alist_del k ps) = length ps - 1"
proof -
  assume d: "distinct (map fst ps)" and k: "k \<in> set (map fst ps)"
  have "length (alist_del k ps) = length (removeAll k (map fst ps))"
    using keys_alist_del [OF d] by (metis length_map)
  also have "\<dots> = length (remove1 k (map fst ps))"
    using d by (simp add: distinct_remove1_removeAll)
  finally show ?thesis using k by (simp add: length_remove1)
qed

lemma length_alist_del_less: "k \<in> set (map fst ps) \<Longrightarrow> length (alist_del k ps) < length ps"
  by (induction ps) (force simp: image_iff)+

lemma key_in_alist_set: "k \<in> fst ` set (alist_set k v ps)"
  by (induction ps) force+

lemma alist_del_alist_set_new:
  "k \<notin> set (map fst ps) \<Longrightarrow> alist_del k (alist_set k v ps) = ps"
  by (induction ps) auto

lemma set_alist_set_subset: "set (alist_set k v ps) \<subseteq> insert (k, v) (set ps)"
  by (induction ps) (auto split: if_splits)

lemma set_alist_del_subset: "set (alist_del k ps) \<subseteq> set ps"
  by (induction ps) (auto split: if_splits)

lemma alist_all_rev:
  assumes dd: "distinct (map fst d)" and de: "distinct (map fst e)"
    and len: "length d = length e"
    and all: "\<forall>(k, v) \<in> set d. \<exists>w. map_of e k = Some w \<and> R v w"
  shows "\<forall>(k, w) \<in> set e. \<exists>v. map_of d k = Some v \<and> R v w"
proof -
  have sub: "set (map fst d) \<subseteq> set (map fst e)"
    using all by (force dest: map_of_SomeD)
  have "card (set (map fst d)) = card (set (map fst e))"
    using dd de len by (metis distinct_card length_map)
  with sub have keys: "set (map fst d) = set (map fst e)"
    by (simp add: card_subset_eq)
  show ?thesis
  proof (intro ballI, clarify)
    fix k w assume kw: "(k, w) \<in> set e"
    then have "k \<in> set (map fst d)" using keys by force
    then obtain v where kv: "(k, v) \<in> set d" by auto
    then have "map_of d k = Some v" using dd by simp
    moreover from all kv obtain w' where "map_of e k = Some w'" and "R v w'" by blast
    moreover have "map_of e k = Some w" using de kw by simp
    ultimately show "\<exists>v. map_of d k = Some v \<and> R v w" by auto
  qed
qed

section \<open>Lists\<close>

lemma those_map_nth:
  "those (map f xs) = Some ys \<Longrightarrow> length ys = length xs \<and> (\<forall>i < length xs. f (xs ! i) = Some (ys ! i))"
proof (induction xs arbitrary: ys)
  case Nil
  then show ?case by simp
next
  case (Cons x xs)
  then show ?case by (auto split: option.splits simp: nth_Cons split: nat.splits)
qed

lemma list_all2_sym_on:
  "(\<And>u v. u \<in> set xs \<Longrightarrow> v \<in> set ys \<Longrightarrow> R u v = R v u) \<Longrightarrow>
   list_all2 R xs ys = list_all2 R ys xs"
proof (induction xs arbitrary: ys)
  case Nil
  then show ?case by (cases ys) auto
next
  case (Cons x xs)
  then show ?case by (cases ys) auto
qed

lemma those_deref_list_all2:
  "those (map f xs) = Some ts \<Longrightarrow> list_all2 (\<lambda>x t. f x = Some t) xs ts"
  by (induction xs arbitrary: ts) (auto split: option.splits)

lemma those_eq_Some_iff: "those (map f xs) = Some ts \<longleftrightarrow> list_all2 (\<lambda>x t. f x = Some t) xs ts"
  by (induction xs arbitrary: ts) (auto split: option.splits simp: list_all2_Cons1)

lemma those_mem:
  "those (map f xs) = Some ts \<Longrightarrow> t \<in> set ts \<Longrightarrow> \<exists>x \<in> set xs. f x = Some t"
proof (induction xs arbitrary: ts)
  case Nil
  then show ?case by simp
next
  case (Cons x xs)
  then show ?case by (auto split: option.splits)
qed

section \<open>Reading a dict's values\<close>

text \<open>
  A dict read out item by item (\<open>f\<close> reads one value) gives the association list of
  the keys with the values read; writing or deleting a key commutes with the read-out.
\<close>

lemma those_map_of:
  "those (map f (map snd kvs)) = Some vs \<Longrightarrow> map_of (zip (map fst kvs) vs) k = Option.bind (map_of kvs k) f"
  by (induction kvs arbitrary: vs) (auto split: option.splits)

lemma those_alist_set:
  "those (map f (map snd kvs)) = Some vs \<Longrightarrow> f u = Some tu \<Longrightarrow>
   \<exists>ws. those (map f (map snd (alist_set k u kvs))) = Some ws \<and>
        zip (map fst (alist_set k u kvs)) ws = alist_set k tu (zip (map fst kvs) vs)"
proof (induction kvs arbitrary: vs)
  case (Cons p kvs)
  obtain a b where p: "p = (a, b)" by fastforce
  from Cons.prems p obtain tb vs' where fb: "f b = Some tb" and th: "those (map f (map snd kvs)) = Some vs'"
    and vs: "vs = tb # vs'" by (auto split: option.splits)
  show ?case
  proof (cases "k = a")
    case True
    with Cons.prems p th vs show ?thesis by auto
  next
    case False
    from Cons.IH [OF th Cons.prems(2)] obtain ws where "those (map f (map snd (alist_set k u kvs))) = Some ws"
      "zip (map fst (alist_set k u kvs)) ws = alist_set k tu (zip (map fst kvs) vs')" by blast
    with False p fb vs show ?thesis by auto
  qed
qed simp

lemma those_alist_del:
  "those (map f (map snd kvs)) = Some vs \<Longrightarrow>
   \<exists>ws. those (map f (map snd (alist_del k kvs))) = Some ws \<and>
        zip (map fst (alist_del k kvs)) ws = alist_del k (zip (map fst kvs) vs)"
proof (induction kvs arbitrary: vs)
  case (Cons p kvs)
  obtain a b where p: "p = (a, b)" by fastforce
  from Cons.prems p obtain tb vs' where fb: "f b = Some tb" and th: "those (map f (map snd kvs)) = Some vs'"
    and vs: "vs = tb # vs'" by (auto split: option.splits)
  from Cons.IH [OF th] p fb vs th show ?case by auto
qed simp

section \<open>Decimal integers\<close>

definition digit_char :: "nat \<Rightarrow> char" where
  "digit_char d = char_of (48 + d)"

definition is_digit :: "char \<Rightarrow> bool" where
  "is_digit c = ((48::nat) \<le> of_char c \<and> of_char c \<le> (57::nat))"

definition digit_val :: "char \<Rightarrow> nat" where
  "digit_val c = of_char c - 48"

fun dec_digits :: "nat \<Rightarrow> string" where
  "dec_digits n = (if n < 10 then [digit_char n] else dec_digits (n div 10) @ [digit_char (n mod 10)])"

declare dec_digits.simps [simp del]

definition digits_value :: "string \<Rightarrow> nat" where
  "digits_value ds = foldl (\<lambda>a c. 10 * a + digit_val c) 0 ds"

lemma digit_char_ok: "d < 10 \<Longrightarrow> is_digit (digit_char d) \<and> digit_val (digit_char d) = d"
  by (simp add: digit_char_def is_digit_def digit_val_def of_char_of)

lemma dec_digits_ok: "dec_digits n \<noteq> [] \<and> (\<forall>c \<in> set (dec_digits n). is_digit c) \<and> digits_value (dec_digits n) = n"
proof (induction n rule: dec_digits.induct)
  case (1 n)
  show ?case
  proof (cases "n < 10")
    case True
    then have "dec_digits n = [digit_char n]" by (subst dec_digits.simps) simp
    with True show ?thesis using digit_char_ok [of n] by (simp add: digits_value_def)
  next
    case False
    with "1.IH" have ih: "dec_digits (n div 10) \<noteq> []" "\<forall>c \<in> set (dec_digits (n div 10)). is_digit c"
      "digits_value (dec_digits (n div 10)) = n div 10" by simp_all
    from False have "dec_digits n = dec_digits (n div 10) @ [digit_char (n mod 10)]"
      by (subst dec_digits.simps) simp
    with ih show ?thesis using digit_char_ok [of "n mod 10"] by (simp add: digits_value_def)
  qed
qed

text \<open>\<open>int.__repr__\<close>: an optional minus sign and the decimal digits.\<close>

definition int_repr :: "int \<Rightarrow> string" where
  "int_repr i = (if i < 0 then CHR ''-'' # dec_digits (nat (- i)) else dec_digits (nat i))"

text \<open>Reading an integer literal: the longest run of digits, after an optional minus.\<close>

text \<open>A decimal literal with a leading zero is a SyntaxError unless it is all zeros.\<close>

definition parse_nat :: "string \<Rightarrow> (nat \<times> string) option" where
  "parse_nat s = (let ds = takeWhile is_digit s
                  in if ds = [] \<or> (hd ds = CHR ''0'' \<and> (\<exists>c \<in> set ds. c \<noteq> CHR ''0'')) then None
                     else Some (digits_value ds, dropWhile is_digit s))"

definition parse_int :: "string \<Rightarrow> (int \<times> string) option" where
  "parse_int s =
     (case s of
        c # s' \<Rightarrow> if c = CHR ''-'' then map_option (\<lambda>(n, r). (- int n, r)) (parse_nat s')
                  else map_option (\<lambda>(n, r). (int n, r)) (parse_nat s)
      | [] \<Rightarrow> None)"

definition no_digit_start :: "string \<Rightarrow> bool" where
  "no_digit_start s = (s = [] \<or> \<not> is_digit (hd s))"

lemma takeWhile_digits:
  "\<forall>c \<in> set ds. is_digit c \<Longrightarrow> no_digit_start r \<Longrightarrow>
   takeWhile is_digit (ds @ r) = ds \<and> dropWhile is_digit (ds @ r) = r"
  by (cases r) (auto simp: no_digit_start_def takeWhile_append2 dropWhile_append2)

lemma digit_char_zero: "digit_char d = CHR ''0'' \<Longrightarrow> d < 10 \<Longrightarrow> d = 0"
  by (simp add: digit_char_def char_of_eq_iff take_bit_eq_mod)

lemma dec_digits_lead: "hd (dec_digits n) = CHR ''0'' \<Longrightarrow> n = 0"
proof (induction n rule: dec_digits.induct)
  case (1 n)
  show ?case
  proof (cases "n < 10")
    case True
    then have "dec_digits n = [digit_char n]" by (subst dec_digits.simps) simp
    with 1 True show ?thesis by (simp add: digit_char_zero)
  next
    case False
    then have "dec_digits n = dec_digits (n div 10) @ [digit_char (n mod 10)]"
      by (subst dec_digits.simps) simp
    with "1.prems" dec_digits_ok [of "n div 10"] have "hd (dec_digits (n div 10)) = CHR ''0''" by simp
    with "1.IH" False have "n div 10 = 0" by simp
    with False show ?thesis by simp
  qed
qed

lemma dec_digits_zero: "dec_digits 0 = ''0''"
  by (simp add: dec_digits.simps digit_char_def char_of_eq_iff)

lemma dec_digits_canonical:
  "\<not> (hd (dec_digits n) = CHR ''0'' \<and> (\<exists>c \<in> set (dec_digits n). c \<noteq> CHR ''0''))"
  using dec_digits_lead [of n] by (auto simp: dec_digits_zero)

lemma parse_nat_dec_digits:
  "no_digit_start r \<Longrightarrow> parse_nat (dec_digits n @ r) = Some (n, r)"
  using dec_digits_ok [of n] takeWhile_digits [of "dec_digits n" r] dec_digits_canonical [of n]
  by (simp add: parse_nat_def Let_def)

lemma minus_not_digit: "\<not> is_digit CHR ''-''"
  by (simp add: is_digit_def)

lemma parse_int_repr:
  "no_digit_start r \<Longrightarrow> parse_int (int_repr i @ r) = Some (i, r)"
proof (cases "i < 0")
  case True
  moreover assume "no_digit_start r"
  ultimately show ?thesis by (simp add: int_repr_def parse_int_def parse_nat_dec_digits)
next
  case False
  assume r: "no_digit_start r"
  obtain c cs where dc: "dec_digits (nat i) = c # cs" using dec_digits_ok [of "nat i"] by (cases "dec_digits (nat i)") auto
  have "is_digit c" using dec_digits_ok [of "nat i"] dc by simp
  then have "c \<noteq> CHR ''-''" using minus_not_digit by auto
  with False r dc parse_nat_dec_digits [OF r, of "nat i"] show ?thesis
    by (simp add: int_repr_def parse_int_def)
qed

end
