(* ===== verification/PyValue.thy ===== *)
theory PyValue
  imports Prelude
begin

text \<open>
  Python values read as trees, and Python's \<open>==\<close> on them.  A \<open>pyval\<close> is what a
  reference denotes once the heap is read out (theory Heap): None, booleans, ints,
  strings, lists, tuples, dicts with string keys, and the two wrapper classes of
  src/jsonobj.py, whose instances hold one value (the \<open>dict\<close> slot of \<open>JSONobj\<close>,
  the \<open>seq\<close> slot of \<open>JSONarray\<close>).  The equality of Python is a protocol: \<open>a == b\<close>
  calls \<open>a.__eq__(b)\<close> and, when that returns \<open>NotImplemented\<close>, the reflected
  \<open>b.__eq__(a)\<close>; when both decline, identity decides.  \<open>eq_method\<close> is one
  \<open>__eq__\<close> (\<open>None\<close> for \<open>NotImplemented\<close>), \<open>py_eq\<close> is the operator.  The
  wrappers' \<open>__eq__\<close> (jsonobj.py lines 120-121 and 232-233) delegate to the wrapped
  value's own \<open>__eq__\<close> against \<open>unwrap(other)\<close>.
\<close>

datatype pyval =
    PNone
  | PBool bool
  | PInt int
  | PStr string
  | PList "pyval list"
  | PTuple "pyval list"
  | PDict "(string \<times> pyval) list"
  | PJSONobj pyval
  | PJSONarray pyval

section \<open>Wrapping on trees\<close>

text \<open>\<open>wrap\<close> and \<open>unwrap\<close> (lines 33-68) as they act on the values the references denote.\<close>

definition pv_wrap :: "pyval \<Rightarrow> pyval" where
  "pv_wrap v = (case v of
       PDict _ \<Rightarrow> PJSONobj v
     | PList _ \<Rightarrow> PJSONarray v
     | PTuple _ \<Rightarrow> PJSONarray v
     | _ \<Rightarrow> v)"

definition pv_unwrap :: "pyval \<Rightarrow> pyval" where
  "pv_unwrap v = (case v of PJSONobj d \<Rightarrow> d | PJSONarray s \<Rightarrow> s | _ \<Rightarrow> v)"

fun is_wrapper :: "pyval \<Rightarrow> bool" where
  "is_wrapper (PJSONobj _) = True"
| "is_wrapper (PJSONarray _) = True"
| "is_wrapper _ = False"

text \<open>The number of wrapper layers on top of a value, and the value beneath them.\<close>

fun wdepth :: "pyval \<Rightarrow> nat" where
  "wdepth (PJSONobj d) = Suc (wdepth d)"
| "wdepth (PJSONarray s) = Suc (wdepth s)"
| "wdepth _ = 0"

fun strip :: "pyval \<Rightarrow> pyval" where
  "strip (PJSONobj d) = strip d"
| "strip (PJSONarray s) = strip s"
| "strip v = v"

text \<open>Well-formed values: every dict has distinct keys, as a Python dict does.\<close>

fun wf_pv :: "pyval \<Rightarrow> bool" where
  "wf_pv (PList xs) = (\<forall>x \<in> set xs. wf_pv x)"
| "wf_pv (PTuple xs) = (\<forall>x \<in> set xs. wf_pv x)"
| "wf_pv (PDict d) = (distinct (map fst d) \<and> (\<forall>p \<in> set d. wf_pv (snd p)))"
| "wf_pv (PJSONobj d) = wf_pv d"
| "wf_pv (PJSONarray s) = wf_pv s"
| "wf_pv _ = True"

text \<open>Native values: no wrapper anywhere inside, the boundary invariant of the spec.\<close>

fun native :: "pyval \<Rightarrow> bool" where
  "native (PList xs) = (\<forall>x \<in> set xs. native x)"
| "native (PTuple xs) = (\<forall>x \<in> set xs. native x)"
| "native (PDict d) = (\<forall>p \<in> set d. native (snd p))"
| "native (PJSONobj _) = False"
| "native (PJSONarray _) = False"
| "native _ = True"

text \<open>
  Hashable values (keys a dict lookup accepts): lists, dicts and the wrappers are not,
  the wrappers because they define \<open>__eq__\<close> without \<open>__hash__\<close>; a tuple is
  hashable when its items are.
\<close>

fun hashable :: "pyval \<Rightarrow> bool" where
  "hashable (PList _) = False"
| "hashable (PDict _) = False"
| "hashable (PJSONobj _) = False"
| "hashable (PJSONarray _) = False"
| "hashable (PTuple xs) = (\<forall>x \<in> set xs. hashable x)"
| "hashable _ = True"

section \<open>Equality\<close>

text \<open>
  \<open>int.__eq__\<close> accepts ints and bools (\<open>bool\<close> is a subclass of \<open>int\<close>, so
  \<open>True == 1\<close>); \<open>NoneType\<close> inherits \<open>object.__eq__\<close>, identity, and None is a
  singleton.  A dict compares equal when the lengths agree and every key of the left
  one is in the right one with an equal value.
\<close>

fun int_eq :: "int \<Rightarrow> pyval \<Rightarrow> bool option" where
  "int_eq i (PInt j) = Some (i = j)"
| "int_eq i (PBool c) = Some (i = of_bool c)"
| "int_eq i _ = None"

lemma size_mem_list: "x \<in> set xs \<Longrightarrow> size x \<le> size_list size xs"
  by (induction xs) auto

lemma size_mem_alist:
  "(k, v) \<in> set d \<Longrightarrow> size v \<le> size_list (size_prod (\<lambda>_. 0) size) d"
  by (induction d) auto

function (sequential) eq_method :: "pyval \<Rightarrow> pyval \<Rightarrow> bool option"
  and py_eq :: "pyval \<Rightarrow> pyval \<Rightarrow> bool" where
  "eq_method PNone PNone = Some True"
| "eq_method (PBool b) y = int_eq (of_bool b) y"
| "eq_method (PInt i) y = int_eq i y"
| "eq_method (PStr s) (PStr t) = Some (s = t)"
| "eq_method (PList xs) (PList ys) = Some (list_all2 py_eq xs ys)"
| "eq_method (PTuple xs) (PTuple ys) = Some (list_all2 py_eq xs ys)"
| "eq_method (PDict d) (PDict e) = Some (length d = length e \<and>
     list_all (\<lambda>(k, v). case map_of e k of None \<Rightarrow> False | Some w \<Rightarrow> py_eq v w) d)"
| "eq_method (PJSONobj d) y = eq_method d (pv_unwrap y)"
| "eq_method (PJSONarray s) y = eq_method s (pv_unwrap y)"
| "eq_method _ _ = None"
| "py_eq x y = (case eq_method x y of
       Some r \<Rightarrow> r
     | None \<Rightarrow> (case eq_method y x of Some r \<Rightarrow> r | None \<Rightarrow> False))"
  by pat_completeness auto
termination
  by (relation "measure (\<lambda>p. case p of
        Inl (x, y) \<Rightarrow> 2 * (size x + size y)
      | Inr (x, y) \<Rightarrow> 2 * (size x + size y) + 1)")
     (auto simp: pv_unwrap_def split: pyval.splits
           dest!: size_mem_list size_mem_alist map_of_SomeD)

declare py_eq.simps [simp del]
lemmas [py_simps] = py_eq.simps

section \<open>Equality sees through wrappers\<close>

text \<open>
  Only the outermost wrapper layers matter to \<open>__eq__\<close>: \<open>eq_method\<close> peels as
  many layers off its right operand as its left operand has, so it is defined exactly
  when the right operand is wrapped no deeper than the left one, and then it compares
  the values beneath.  With the reflected call of \<open>==\<close> this makes \<open>==\<close> symmetric
  and blind to wrappers, on values whose dicts have distinct keys.
\<close>

lemma eq_method_nonwrapper_wrapper:
  "\<not> is_wrapper x \<Longrightarrow> is_wrapper y \<Longrightarrow> eq_method x y = None"
  by (cases x; cases y) simp_all

lemma eq_method_nonwrapper_defined_sym:
  "\<not> is_wrapper x \<Longrightarrow> \<not> is_wrapper y \<Longrightarrow> (eq_method x y = None) = (eq_method y x = None)"
  by (cases x; cases y) simp_all

lemma int_eq_wrapper: "is_wrapper y \<Longrightarrow> int_eq i y = None"
  by (cases y) simp_all

lemma is_wrapper_strip [simp]: "\<not> is_wrapper (strip x)"
  by (induction x rule: strip.induct) simp_all

lemma strip_pv_unwrap [simp]: "strip (pv_unwrap y) = strip y"
  by (cases y) (simp_all add: pv_unwrap_def)

lemma wdepth_pv_unwrap: "wdepth (pv_unwrap y) = wdepth y - 1"
  by (cases y) (simp_all add: pv_unwrap_def)

lemma wdepth_zero_iff: "(wdepth y = 0) = (\<not> is_wrapper y)"
  by (cases y) simp_all

lemma strip_nonwrapper [simp]: "\<not> is_wrapper y \<Longrightarrow> strip y = y"
  by (cases y) simp_all

lemma eq_method_strip:
  "eq_method x y =
     (if wdepth y \<le> wdepth x then eq_method (strip x) (strip y) else None)"
proof (induction x arbitrary: y)
  case (PJSONobj d)
  have "eq_method (PJSONobj d) y = eq_method d (pv_unwrap y)" by simp
  also have "\<dots> = (if wdepth (pv_unwrap y) \<le> wdepth d
                   then eq_method (strip d) (strip (pv_unwrap y)) else None)"
    by (rule PJSONobj.IH)
  finally show ?case by (simp add: wdepth_pv_unwrap le_diff_conv)
next
  case (PJSONarray s)
  have "eq_method (PJSONarray s) y = eq_method s (pv_unwrap y)" by simp
  also have "\<dots> = (if wdepth (pv_unwrap y) \<le> wdepth s
                   then eq_method (strip s) (strip (pv_unwrap y)) else None)"
    by (rule PJSONarray.IH)
  finally show ?case by (simp add: wdepth_pv_unwrap le_diff_conv)
qed (auto simp: wdepth_zero_iff int_eq_wrapper eq_method_nonwrapper_wrapper)

lemma dict_cmp_iff:
  "list_all (\<lambda>(k, v). case map_of e k of None \<Rightarrow> False | Some w \<Rightarrow> R v w) d \<longleftrightarrow>
   (\<forall>(k, v) \<in> set d. \<exists>w. map_of e k = Some w \<and> R v w)"
  by (auto simp: list_all_iff split: option.splits)

lemma dict_cmp_sym:
  assumes "distinct (map fst d)" "distinct (map fst e)"
    and sym: "\<And>u v. u \<in> snd ` set d \<Longrightarrow> v \<in> snd ` set e \<Longrightarrow> R u v = R v u"
  shows "(length d = length e \<and> (\<forall>(k, v) \<in> set d. \<exists>w. map_of e k = Some w \<and> R v w)) =
         (length e = length d \<and> (\<forall>(k, v) \<in> set e. \<exists>w. map_of d k = Some w \<and> R v w))"
proof -
  have sym': "\<And>k v k' w. (k, v) \<in> set d \<Longrightarrow> map_of e k' = Some w \<Longrightarrow> R v w = R w v"
    using sym by (force dest: map_of_SomeD)
  have sym'': "\<And>k v k' w. (k, v) \<in> set e \<Longrightarrow> map_of d k' = Some w \<Longrightarrow> R w v = R v w"
    using sym by (force dest: map_of_SomeD)
  show ?thesis
  proof
    assume l: "length d = length e \<and> (\<forall>(k, v) \<in> set d. \<exists>w. map_of e k = Some w \<and> R v w)"
    then have "\<forall>(k, v) \<in> set d. \<exists>w. map_of e k = Some w \<and> R w v" using sym' by fastforce
    then have "\<forall>(k, w) \<in> set e. \<exists>v. map_of d k = Some v \<and> R w v"
      using alist_all_rev [of d e "\<lambda>a b. R b a"] assms(1,2) l by (auto simp: case_prod_beta)
    with l show "length e = length d \<and> (\<forall>(k, v) \<in> set e. \<exists>w. map_of d k = Some w \<and> R v w)"
      by simp
  next
    assume r: "length e = length d \<and> (\<forall>(k, v) \<in> set e. \<exists>w. map_of d k = Some w \<and> R v w)"
    then have "\<forall>(k, v) \<in> set e. \<exists>w. map_of d k = Some w \<and> R w v" using sym'' by fastforce
    then have "\<forall>(k, w) \<in> set d. \<exists>v. map_of e k = Some v \<and> R w v"
      using alist_all_rev [of e d "\<lambda>a b. R b a"] assms(1,2) r by (auto simp: case_prod_beta)
    with r show "length d = length e \<and> (\<forall>(k, v) \<in> set d. \<exists>w. map_of e k = Some w \<and> R v w)"
      by simp
  qed
qed

text \<open>Once the two underlying \<open>__eq__\<close> agree, \<open>==\<close> is symmetric and sees through wrappers.\<close>

lemma py_eq_via_strip:
  assumes "eq_method (strip x) (strip y) = eq_method (strip y) (strip x)"
  shows "py_eq x y = py_eq y x" and "py_eq x y = py_eq (strip x) (strip y)"
  using assms
  by (auto simp: py_eq.simps eq_method_strip [of x y] eq_method_strip [of y x]
           split: option.splits)

lemma size_strip: "size (strip x) \<le> size x"
  by (induction x rule: strip.induct) simp_all

lemma wf_pv_strip: "wf_pv x \<Longrightarrow> wf_pv (strip x)"
  by (induction x rule: strip.induct) simp_all

lemma eq_method_strip_sym:
  "wf_pv x \<Longrightarrow> wf_pv y \<Longrightarrow> eq_method (strip x) (strip y) = eq_method (strip y) (strip x)"
proof (induction "size x + size y" arbitrary: x y rule: less_induct)
  case less
  have IH: "\<And>u v. size u + size v < size x + size y \<Longrightarrow> wf_pv u \<Longrightarrow> wf_pv v \<Longrightarrow>
              py_eq u v = py_eq v u"
    using less.hyps py_eq_via_strip(1) by blast
  have sx: "size (strip x) \<le> size x" and sy: "size (strip y) \<le> size y"
    by (rule size_strip)+
  have wx: "wf_pv (strip x)" and wy: "wf_pv (strip y)"
    using less.prems by (simp_all add: wf_pv_strip)
  show ?case
  proof (cases "strip x"; cases "strip y")
    fix xs ys assume xs: "strip x = PList xs" and ys: "strip y = PList ys"
    have "list_all2 py_eq xs ys = list_all2 py_eq ys xs"
    proof (rule list_all2_sym_on)
      fix u v assume u: "u \<in> set xs" and v: "v \<in> set ys"
      have "size u + size v < size x + size y"
        using size_mem_list [OF u] size_mem_list [OF v] xs ys sx sy by simp
      with u v xs ys wx wy show "py_eq u v = py_eq v u"
        by (intro IH) auto
    qed
    with xs ys show ?thesis by simp
  next
    fix xs ys assume xs: "strip x = PTuple xs" and ys: "strip y = PTuple ys"
    have "list_all2 py_eq xs ys = list_all2 py_eq ys xs"
    proof (rule list_all2_sym_on)
      fix u v assume u: "u \<in> set xs" and v: "v \<in> set ys"
      have "size u + size v < size x + size y"
        using size_mem_list [OF u] size_mem_list [OF v] xs ys sx sy by simp
      with u v xs ys wx wy show "py_eq u v = py_eq v u"
        by (intro IH) auto
    qed
    with xs ys show ?thesis by simp
  next
    fix d e assume d: "strip x = PDict d" and e: "strip y = PDict e"
    have "(length d = length e \<and> (\<forall>(k, v) \<in> set d. \<exists>w. map_of e k = Some w \<and> py_eq v w)) =
          (length e = length d \<and> (\<forall>(k, v) \<in> set e. \<exists>w. map_of d k = Some w \<and> py_eq v w))"
    proof (rule dict_cmp_sym)
      show "distinct (map fst d)" using wx d by simp
      show "distinct (map fst e)" using wy e by simp
    next
      fix u v assume "u \<in> snd ` set d" and "v \<in> snd ` set e"
      then obtain k k' where u: "(k, u) \<in> set d" and v: "(k', v) \<in> set e" by force
      have "size u + size v < size x + size y"
        using size_mem_alist [OF u] size_mem_alist [OF v] d e sx sy by simp
      with u v d e wx wy show "py_eq u v = py_eq v u"
        by (intro IH) auto
    qed
    with d e show ?thesis by (simp add: dict_cmp_iff)
  qed (use is_wrapper_strip [of x] is_wrapper_strip [of y] in auto)
qed

text \<open>
  \<open>==\<close> is symmetric on well-formed values, wrappers included: \<open>obj == d\<close> and
  \<open>d == obj\<close> agree, through the reflected call of the protocol.
\<close>

lemma py_eq_sym: "wf_pv x \<Longrightarrow> wf_pv y \<Longrightarrow> py_eq x y = py_eq y x"
  by (rule py_eq_via_strip(1) [OF eq_method_strip_sym])

theorem py_eq_strip: "wf_pv x \<Longrightarrow> wf_pv y \<Longrightarrow> py_eq x y = py_eq (strip x) (strip y)"
  by (rule py_eq_via_strip(2) [OF eq_method_strip_sym])

text \<open>\<open>==\<close> is reflexive on well-formed values (no identity shortcut needed).\<close>

lemma eq_method_refl: "wf_pv x \<Longrightarrow> eq_method x x = Some True"
proof (induction x)
  case (PList xs)
  then have "list_all2 py_eq xs xs" by (auto intro!: list.rel_refl_strong simp: py_eq.simps)
  then show ?case by simp
next
  case (PTuple xs)
  then have "list_all2 py_eq xs xs" by (auto intro!: list.rel_refl_strong simp: py_eq.simps)
  then show ?case by simp
next
  case (PDict d)
  have "\<forall>(k, v) \<in> set d. map_of d k = Some v \<and> py_eq v v"
    using PDict by (fastforce simp: py_eq.simps snds.simps intro: map_of_is_SomeI)
  then show ?case by (auto simp: list_all_iff)
qed (simp_all add: pv_unwrap_def)

lemma py_eq_refl: "wf_pv x \<Longrightarrow> py_eq x x"
  by (simp add: py_eq.simps eq_method_refl)

lemma wf_pv_pv_wrap: "wf_pv x \<Longrightarrow> wf_pv (pv_wrap x)"
  by (cases x) (simp_all add: pv_wrap_def)

lemma wf_pv_pv_unwrap: "wf_pv x \<Longrightarrow> wf_pv (pv_unwrap x)"
  by (cases x) (simp_all add: pv_unwrap_def)

lemma strip_pv_wrap [simp]: "strip (pv_wrap x) = strip x"
  by (cases x) (simp_all add: pv_wrap_def)

text \<open>
  C10: equality does not see wrappers.  Comparing against \<open>unwrap(other)\<close> (what the
  wrappers' \<open>__eq__\<close> does) or against \<open>other\<close>, and comparing \<open>wrap(x)\<close> or
  \<open>x\<close>, gives the same answer: a wrapper equals the plain container it wraps.
\<close>

theorem py_eq_wrap_unwrap_invariant:
  assumes "wf_pv x" and "wf_pv y"
  shows "py_eq x (pv_unwrap y) = py_eq x y \<and> py_eq (pv_wrap x) y = py_eq x y"
  using assms wf_pv_pv_wrap [of x] wf_pv_pv_unwrap [of y]
  by (simp add: py_eq_strip [of x] py_eq_strip [of "pv_wrap x"])

theorem py_eq_wrap_unwrap_invariant_witness:
  "wf_pv (PDict [(''foo'', PStr ''bar'')]) \<and> wf_pv (PJSONobj (PDict [(''foo'', PStr ''bar'')])) \<and>
   py_eq (PDict [(''foo'', PStr ''bar'')]) (PJSONobj (PDict [(''foo'', PStr ''bar'')]))"
proof -
  have "py_eq (PDict [(''foo'', PStr ''bar'')]) (pv_unwrap (PJSONobj (PDict [(''foo'', PStr ''bar'')])))"
    by (simp add: py_simps pv_unwrap_def)
  with py_eq_wrap_unwrap_invariant [of "PDict [(''foo'', PStr ''bar'')]"
                                      "PJSONobj (PDict [(''foo'', PStr ''bar'')])"]
  show ?thesis by simp
qed

end
