(* ===== verification/Heap.thy ===== *)
theory Heap
  imports PyValue
begin

text \<open>
  Python's object store.  Containers and wrapper instances live on a heap and are shared
  by reference: a \<open>JSONobj\<close> holds a reference to the caller's dict, not a copy
  (jsonobj.py lines 97-98 and 154-155), and mutation through either is seen by both.
  A value \<open>val\<close> is an immediate (None, bool, int, str, all immutable) or a reference;
  an object \<open>obj\<close> is a dict (insertion-ordered association list), a list, a tuple,
  or one of the two wrapper instances with its single slot.  \<open>alloc\<close> returns a fresh
  address; \<open>val_type\<close> is \<open>type(v)\<close>; \<open>deref\<close> reads a reference out as a \<open>pyval\<close> tree, which is how the
  development states what a structure holds and how Python's \<open>==\<close> (which recurses
  through containers) is computed on the heap.  Python bounds that recursion
  (RecursionError beyond the interpreter's recursion limit); \<open>deref\<close> runs with the
  default limit as its depth, so cyclic structures read as RecursionError.
\<close>

type_synonym addr = nat

datatype val = VNone | VBool bool | VInt int | VStr string | VRef addr

datatype obj =
    ODict "(string \<times> val) list"
  | OList "val list"
  | OTuple "val list"
  | OJSONobj val
  | OJSONarray val

record heap =
  objs :: "addr \<Rightarrow> obj option"
  next_addr :: addr

definition empty_heap :: heap where
  "empty_heap = \<lparr>objs = Map.empty, next_addr = 0\<rparr>"

definition alloc :: "obj \<Rightarrow> heap \<Rightarrow> addr \<times> heap" where
  "alloc ob h =
     (next_addr h, h\<lparr>objs := (objs h)(next_addr h \<mapsto> ob), next_addr := Suc (next_addr h)\<rparr>)"

definition set_obj :: "addr \<Rightarrow> obj \<Rightarrow> heap \<Rightarrow> heap" where
  "set_obj a ob h = h\<lparr>objs := (objs h)(a \<mapsto> ob)\<rparr>"

text \<open>Every address at or beyond \<open>next_addr\<close> is free: allocation is fresh.\<close>

definition heap_ok :: "heap \<Rightarrow> bool" where
  "heap_ok h \<longleftrightarrow> (\<forall>a. next_addr h \<le> a \<longrightarrow> objs h a = None)"

text \<open>The values an object holds directly.\<close>

fun obj_vals :: "obj \<Rightarrow> val list" where
  "obj_vals (ODict kvs) = map snd kvs"
| "obj_vals (OList xs) = xs"
| "obj_vals (OTuple xs) = xs"
| "obj_vals (OJSONobj v) = [v]"
| "obj_vals (OJSONarray v) = [v]"

lemma set_obj_same [simp]: "objs h a = Some ob \<Longrightarrow> set_obj a ob h = h"
  by (simp add: set_obj_def map_upd_triv)

lemma set_obj_set_obj [simp]: "set_obj a ob (set_obj a ob' h) = set_obj a ob h"
  by (simp add: set_obj_def)

section \<open>Types\<close>

text \<open>\<open>type(v)\<close> of a value of the heap; a dangling reference has none.\<close>

datatype py_type =
    NoneType | BoolType | IntType | StrType | DictType | ListType | TupleType
  | JSONobjType | JSONarrayType

fun obj_type :: "obj \<Rightarrow> py_type" where
  "obj_type (ODict _) = DictType"
| "obj_type (OList _) = ListType"
| "obj_type (OTuple _) = TupleType"
| "obj_type (OJSONobj _) = JSONobjType"
| "obj_type (OJSONarray _) = JSONarrayType"

fun val_type :: "heap \<Rightarrow> val \<Rightarrow> py_type option" where
  "val_type h VNone = Some NoneType"
| "val_type h (VBool _) = Some BoolType"
| "val_type h (VInt _) = Some IntType"
| "val_type h (VStr _) = Some StrType"
| "val_type h (VRef a) = map_option obj_type (objs h a)"

section \<open>Reading the heap as trees\<close>

fun deref_n :: "nat \<Rightarrow> heap \<Rightarrow> val \<Rightarrow> pyval option" where
  "deref_n n h VNone = Some PNone"
| "deref_n n h (VBool b) = Some (PBool b)"
| "deref_n n h (VInt i) = Some (PInt i)"
| "deref_n n h (VStr s) = Some (PStr s)"
| "deref_n 0 h (VRef a) = None"
| "deref_n (Suc n) h (VRef a) =
     (case objs h a of
        None \<Rightarrow> None
      | Some (ODict kvs) \<Rightarrow>
          map_option (\<lambda>vs. PDict (zip (map fst kvs) vs)) (those (map (deref_n n h) (map snd kvs)))
      | Some (OList xs) \<Rightarrow> map_option PList (those (map (deref_n n h) xs))
      | Some (OTuple xs) \<Rightarrow> map_option PTuple (those (map (deref_n n h) xs))
      | Some (OJSONobj v) \<Rightarrow> map_option PJSONobj (deref_n n h v)
      | Some (OJSONarray v) \<Rightarrow> map_option PJSONarray (deref_n n h v))"

definition recursion_limit :: nat where
  "recursion_limit = 1000"

definition deref :: "heap \<Rightarrow> val \<Rightarrow> pyval option" where
  "deref h v = deref_n recursion_limit h v"

text \<open>The addresses a read-out of depth \<open>n\<close> visits.\<close>

fun reach_n :: "nat \<Rightarrow> heap \<Rightarrow> val \<Rightarrow> addr set" where
  "reach_n (Suc n) h (VRef a) =
     insert a (case objs h a of
                 None \<Rightarrow> {}
               | Some ob \<Rightarrow> \<Union>x \<in> set (obj_vals ob). reach_n n h x)"
| "reach_n _ h _ = {}"

text \<open>Python's \<open>==\<close> on two values of the heap.\<close>

definition heap_eq :: "heap \<Rightarrow> val \<Rightarrow> val \<Rightarrow> bool result" where
  "heap_eq h a b =
     (case (deref h a, deref h b) of
        (Some x, Some y) \<Rightarrow> Inr (py_eq x y)
      | _ \<Rightarrow> Inl RecursionError)"

lemmas [py_simps] = deref_def recursion_limit_def numeral_eq_Suc alloc_def set_obj_def
  heap_eq_def empty_heap_def

section \<open>Store lemmas\<close>

lemma objs_alloc:
  "objs (snd (alloc ob h)) = (objs h)(next_addr h \<mapsto> ob)"
  by (simp add: alloc_def)

lemma fst_alloc: "fst (alloc ob h) = next_addr h"
  by (simp add: alloc_def)

lemma alloc_fresh: "heap_ok h \<Longrightarrow> objs h (next_addr h) = None"
  by (simp add: heap_ok_def)

lemma heap_ok_empty: "heap_ok empty_heap"
  by (simp add: heap_ok_def empty_heap_def)

lemma heap_ok_alloc: "heap_ok h \<Longrightarrow> heap_ok (snd (alloc ob h))"
  by (simp add: heap_ok_def alloc_def)

lemma heap_ok_set_obj: "heap_ok h \<Longrightarrow> objs h a \<noteq> None \<Longrightarrow> heap_ok (set_obj a ob h)"
  by (auto simp: heap_ok_def set_obj_def)

lemma objs_set_obj: "objs (set_obj a ob h) = (objs h)(a \<mapsto> ob)"
  by (simp add: set_obj_def)

lemma next_addr_set_obj [simp]: "next_addr (set_obj a ob h) = next_addr h"
  by (simp add: set_obj_def)

text \<open>Heap extension: every object of the old heap is still there, unchanged.\<close>

definition hext :: "heap \<Rightarrow> heap \<Rightarrow> bool" where
  "hext h h' \<longleftrightarrow> (\<forall>a ob. objs h a = Some ob \<longrightarrow> objs h' a = Some ob)"

lemma hext_refl [simp]: "hext h h"
  by (simp add: hext_def)

lemma hext_trans: "hext h1 h2 \<Longrightarrow> hext h2 h3 \<Longrightarrow> hext h1 h3"
  by (simp add: hext_def)

lemma hext_alloc: "heap_ok h \<Longrightarrow> hext h (snd (alloc ob h))"
  by (auto simp: hext_def alloc_def heap_ok_def)

lemma val_type_hext: "hext h h' \<Longrightarrow> \<forall>x U. val_type h x = Some U \<longrightarrow> val_type h' x = Some U"
proof (intro allI impI)
  fix x U assume x: "hext h h'" "val_type h x = Some U"
  then show "val_type h' x = Some U" by (cases x) (auto simp: hext_def)
qed

lemma those_map_mono:
  "(\<And>x y. x \<in> set xs \<Longrightarrow> f x = Some y \<Longrightarrow> g x = Some y) \<Longrightarrow>
   those (map f xs) = Some ys \<Longrightarrow> those (map g xs) = Some ys"
proof (induction xs arbitrary: ys)
  case Nil
  then show ?case by simp
next
  case (Cons x xs)
  then show ?case by (auto split: option.splits)
qed

lemma deref_n_hext:
  assumes hx: "hext h h'"
  shows "deref_n n h v = Some t \<Longrightarrow> deref_n n h' v = Some t"
proof (induction n arbitrary: v t)
  case 0
  then show ?case by (cases v) simp_all
next
  case (Suc n)
  have IH: "\<And>x y. deref_n n h x = Some y \<Longrightarrow> deref_n n h' x = Some y"
    by (rule Suc.IH)
  show ?case
  proof (cases v)
    case (VRef a)
    with Suc.prems obtain ob where ob: "objs h a = Some ob"
      by (auto split: option.splits)
    with hx have ob': "objs h' a = Some ob" by (simp add: hext_def)
    have lst: "\<And>xs ys. those (map (deref_n n h) xs) = Some ys \<Longrightarrow>
                         those (map (deref_n n h') xs) = Some ys"
      by (rule those_map_mono) (rule IH)
    show ?thesis
      using Suc.prems VRef ob ob' by (cases ob) (auto dest: lst IH simp del: map_map)
  qed (use Suc.prems in simp_all)
qed

lemma deref_n_Suc_mono: "deref_n n h v = Some t \<Longrightarrow> deref_n (Suc n) h v = Some t"
proof (induction n arbitrary: v t)
  case 0
  then show ?case by (cases v) simp_all
next
  case (Suc n)
  have lst: "\<And>xs ys. those (map (deref_n n h) xs) = Some ys \<Longrightarrow>
                       those (map (deref_n (Suc n) h) xs) = Some ys"
    by (rule those_map_mono) (rule Suc.IH)
  show ?case
  proof (cases v)
    case (VRef a)
    with Suc.prems obtain ob where ob: "objs h a = Some ob"
      by (auto split: option.splits)
    show ?thesis
      using Suc.prems VRef ob by (cases ob) (auto dest: lst Suc.IH simp del: map_map)
  qed (use Suc.prems in simp_all)
qed

lemma deref_hext: "hext h h' \<Longrightarrow> deref h v = Some t \<Longrightarrow> deref h' v = Some t"
  by (simp add: deref_def deref_n_hext)

section \<open>Sharing: reads that a write does not disturb\<close>

text \<open>
  Containers are shared, so a write to one address changes the tree of every value
  that reaches it.  A value whose read-out never visits the address keeps its tree;
  and a container that reads out is not reachable from its own items, since its tree
  would then contain itself.
\<close>

lemma deref_n_le: "m \<le> k \<Longrightarrow> deref_n m h v = Some t \<Longrightarrow> deref_n k h v = Some t"
  by (induction k rule: dec_induct) (simp_all add: deref_n_Suc_mono)

lemma deref_n_det: "deref_n m h v = Some t1 \<Longrightarrow> deref_n k h v = Some t2 \<Longrightarrow> t1 = t2"
  using deref_n_le [of m "max m k" h v t1] deref_n_le [of k "max m k" h v t2] by simp

lemma those_mem_Some: "those (map f xs) = Some ys \<Longrightarrow> x \<in> set xs \<Longrightarrow> \<exists>y \<in> set ys. f x = Some y"
  using those_map_nth [of f xs ys] by (metis in_set_conv_nth)

text \<open>Each item of a container reads out one level lower, as a strictly smaller tree.\<close>

lemma deref_n_child:
  assumes d: "deref_n (Suc m) h (VRef b) = Some t" and o: "objs h b = Some ob"
    and x: "x \<in> set (obj_vals ob)"
  shows "\<exists>tx. deref_n m h x = Some tx \<and> size tx < size t"
proof (cases ob)
  case (ODict kvs)
  with d o obtain vs where th: "those (map (deref_n m h) (map snd kvs)) = Some vs"
    and t: "t = PDict (zip (map fst kvs) vs)" by auto
  from x ODict obtain i where i: "i < length kvs" and xi: "x = snd (kvs ! i)"
    by (auto simp: in_set_conv_nth)
  have len: "length vs = length kvs" and nth: "deref_n m h x = Some (vs ! i)"
    using those_map_nth [OF th] i xi by auto
  have "(fst (kvs ! i), vs ! i) \<in> set (zip (map fst kvs) vs)"
    using i len by (auto simp: set_zip intro!: exI [of _ i])
  then have "size (vs ! i) < size t" using t by (auto dest!: size_mem_alist)
  with nth show ?thesis by blast
next
  case (OList xs)
  with d o obtain ts where th: "those (map (deref_n m h) xs) = Some ts" and t: "t = PList ts" by auto
  from those_mem_Some [OF th] x OList obtain tx where "tx \<in> set ts" "deref_n m h x = Some tx" by auto
  with t show ?thesis by (auto dest!: size_mem_list)
next
  case (OTuple xs)
  with d o obtain ts where th: "those (map (deref_n m h) xs) = Some ts" and t: "t = PTuple ts" by auto
  from those_mem_Some [OF th] x OTuple obtain tx where "tx \<in> set ts" "deref_n m h x = Some tx" by auto
  with t show ?thesis by (auto dest!: size_mem_list)
qed (use d o x in auto)

lemma reach_n_deref_sub:
  "deref_n n h v = Some t \<Longrightarrow> a \<in> reach_n n h v \<Longrightarrow>
   \<exists>m t'. deref_n m h (VRef a) = Some t' \<and> size t' \<le> size t"
proof (induction n arbitrary: v t)
  case (Suc n)
  then obtain b where v: "v = VRef b" by (cases v) auto
  show ?case
  proof (cases "a = b")
    case True
    with Suc.prems v show ?thesis by blast
  next
    case False
    with Suc.prems v obtain ob x where o: "objs h b = Some ob" and x: "x \<in> set (obj_vals ob)"
      and ax: "a \<in> reach_n n h x" by (auto split: option.splits)
    from deref_n_child [OF Suc.prems(1) [unfolded v] o x] obtain tx
      where dx: "deref_n n h x = Some tx" and s: "size tx < size t" by blast
    from Suc.IH [OF dx ax] s show ?thesis by (meson less_imp_le order_trans)
  qed
qed simp

lemma deref_n_not_self_reach:
  assumes d: "deref_n (Suc m) h (VRef a) = Some t" and o: "objs h a = Some ob"
    and x: "x \<in> set (obj_vals ob)"
  shows "a \<notin> reach_n m h x"
proof
  assume ax: "a \<in> reach_n m h x"
  from deref_n_child [OF d o x] obtain tx where dx: "deref_n m h x = Some tx" and s: "size tx < size t"
    by blast
  from reach_n_deref_sub [OF dx ax] obtain k t' where d': "deref_n k h (VRef a) = Some t'"
    and s': "size t' \<le> size tx" by blast
  have "t = t'" by (rule deref_n_det [OF d d'])
  with s s' show False by simp
qed

lemma deref_n_set_obj_unreached:
  "a \<notin> reach_n n h v \<Longrightarrow> deref_n n (set_obj a ob h) v = deref_n n h v"
proof (induction n arbitrary: v)
  case 0
  then show ?case by (cases v) simp_all
next
  case (Suc n)
  show ?case
  proof (cases v)
    case (VRef b)
    show ?thesis
    proof (cases "objs h b")
      case (Some obb)
      with Suc.prems VRef have ab: "a \<noteq> b" and r: "\<forall>x \<in> set (obj_vals obb). a \<notin> reach_n n h x"
        by auto
      have eq: "map (deref_n n (set_obj a ob h)) (obj_vals obb) = map (deref_n n h) (obj_vals obb)"
        using Suc.IH r by (simp add: map_eq_conv)
      have o: "objs (set_obj a ob h) b = Some obb" using Some ab by (simp add: objs_set_obj)
      show ?thesis
      proof (cases obb)
        case (ODict kvs)
        with eq have "map (deref_n n (set_obj a ob h)) (map snd kvs) = map (deref_n n h) (map snd kvs)"
          by simp
        then show ?thesis using VRef Some o ODict by (simp only: deref_n.simps option.case obj.case)
      qed (use VRef Some o eq in \<open>simp_all del: map_eq_conv\<close>)
    qed (use Suc.prems VRef in \<open>simp add: objs_set_obj\<close>)
  qed simp_all
qed

section \<open>A heap for examples\<close>

text \<open>
  The fixtures of src/test_jsonobj.py on one heap: the array \<open>['value1', {'foo': 'bar'}]\<close>
  (list at 1, its wrapper at 2, a second wrapper over the same list at 6), the object
  \<open>{'key1': 'value1', 'key2': {'foo': 'bar'}}\<close> (dict at 4, its wrapper at 5), and the
  default arguments of the two constructors (an empty dict at 7, an empty list at 8),
  a wrapper over the inner dict \<open>{'foo': 'bar'}\<close> at 9, and the tuple-backed array
  \<open>JSONarray(('foo', 'bar'))\<close> of the docstring of \<open>wrap\<close> (tuple at 10, wrapper at 11).
\<close>

definition test_heap :: heap where
  "test_heap =
     \<lparr>objs = [0 \<mapsto> ODict [(''foo'', VStr ''bar'')],
              1 \<mapsto> OList [VStr ''value1'', VRef 0],
              2 \<mapsto> OJSONarray (VRef 1),
              3 \<mapsto> ODict [(''foo'', VStr ''bar'')],
              4 \<mapsto> ODict [(''key1'', VStr ''value1''), (''key2'', VRef 3)],
              5 \<mapsto> OJSONobj (VRef 4),
              6 \<mapsto> OJSONarray (VRef 1),
              7 \<mapsto> ODict [],
              8 \<mapsto> OList [],
              9 \<mapsto> OJSONobj (VRef 0),
              10 \<mapsto> OTuple [VStr ''foo'', VStr ''bar''],
              11 \<mapsto> OJSONarray (VRef 10)],
      next_addr = 12\<rparr>"

lemma test_heap_ok: "heap_ok test_heap"
  by (simp add: heap_ok_def test_heap_def)

end
