(* ===== verification/Convert.thy ===== *)
theory Convert
  imports Heap
begin

text \<open>
  The conversion layer of src/jsonobj.py: \<open>wrap\<close> (lines 33-49) puts a fresh wrapper
  instance around a dict (\<open>JSONobj\<close>) or a list or tuple (\<open>JSONarray\<close>), by reference,
  and returns anything else unchanged; \<open>unwrap\<close> (lines 52-68) returns the slot of a
  wrapper instance and anything else unchanged.  Neither copies nor recurses.  The
  lemmas show the round trips of the spec with reference identity, the type of
  \<open>wrap\<close>'s result, and that on the values the references denote the two functions
  are \<open>pv_wrap\<close> and \<open>pv_unwrap\<close>.
\<close>

definition wrap :: "heap \<Rightarrow> val \<Rightarrow> val \<times> heap" where
  "wrap h v =
     (case v of
        VRef a \<Rightarrow>
          (case objs h a of
             Some (ODict _) \<Rightarrow> let (w, h') = alloc (OJSONobj v) h in (VRef w, h')
           | Some (OList _) \<Rightarrow> let (w, h') = alloc (OJSONarray v) h in (VRef w, h')
           | Some (OTuple _) \<Rightarrow> let (w, h') = alloc (OJSONarray v) h in (VRef w, h')
           | _ \<Rightarrow> (v, h))
      | _ \<Rightarrow> (v, h))"

definition unwrap :: "heap \<Rightarrow> val \<Rightarrow> val" where
  "unwrap h v =
     (case v of
        VRef a \<Rightarrow>
          (case objs h a of
             Some (OJSONobj d) \<Rightarrow> d
           | Some (OJSONarray s) \<Rightarrow> s
           | _ \<Rightarrow> v)
      | _ \<Rightarrow> v)"

text \<open>A reference to a wrapper instance.\<close>

definition is_wrapper_ref :: "heap \<Rightarrow> val \<Rightarrow> bool" where
  "is_wrapper_ref h v =
     (case v of
        VRef a \<Rightarrow> (case objs h a of Some (OJSONobj _) \<Rightarrow> True | Some (OJSONarray _) \<Rightarrow> True | _ \<Rightarrow> False)
      | _ \<Rightarrow> False)"

lemmas [py_simps] = wrap_def unwrap_def is_wrapper_ref_def

section \<open>Basic facts\<close>

lemma unwrap_nonwrapper [simp]: "\<not> is_wrapper_ref h v \<Longrightarrow> unwrap h v = v"
  by (auto simp: unwrap_def is_wrapper_ref_def split: val.splits option.splits obj.splits)

lemma wrap_cases:
  "wrap h v = (v, h) \<or>
   (\<exists>ob. wrap h v = (VRef (next_addr h), snd (alloc ob h)) \<and>
         (ob = OJSONobj v \<or> ob = OJSONarray v))"
  by (auto simp: wrap_def alloc_def split: val.splits option.splits obj.splits)

lemma heap_ok_wrap: "heap_ok h \<Longrightarrow> heap_ok (snd (wrap h v))"
  using wrap_cases [of h v] by (auto simp: heap_ok_alloc)

lemma hext_wrap: "heap_ok h \<Longrightarrow> hext h (snd (wrap h v))"
  using wrap_cases [of h v] by (auto simp: hext_alloc)

lemma next_addr_wrap_mono: "next_addr h \<le> next_addr (snd (wrap h v))"
  using wrap_cases [of h v] by (auto simp: alloc_def)

text \<open>A wrapper instance whose slot holds a container of its kind, as \<open>wrap\<close> builds it.\<close>

definition wf_wrapper :: "heap \<Rightarrow> addr \<Rightarrow> bool" where
  "wf_wrapper h w =
     (case objs h w of
        Some (OJSONobj (VRef d)) \<Rightarrow> (case objs h d of Some (ODict _) \<Rightarrow> True | _ \<Rightarrow> False)
      | Some (OJSONarray (VRef s)) \<Rightarrow>
          (case objs h s of Some (OList _) \<Rightarrow> True | Some (OTuple _) \<Rightarrow> True | _ \<Rightarrow> False)
      | _ \<Rightarrow> False)"

section \<open>Round trips\<close>

text \<open>C1: for anything that is not already a wrapper, \<open>unwrap(wrap(c))\<close> is \<open>c\<close> itself.\<close>

theorem unwrap_wrap_identity:
  assumes "\<not> is_wrapper_ref h v"
  shows "unwrap (snd (wrap h v)) (fst (wrap h v)) = v"
proof (cases "wrap h v = (v, h)")
  case True
  with assms show ?thesis by simp
next
  case False
  with wrap_cases [of h v] obtain ob
    where w: "wrap h v = (VRef (next_addr h), snd (alloc ob h))"
      and ob: "ob = OJSONobj v \<or> ob = OJSONarray v" by blast
  then show ?thesis by (auto simp: unwrap_def objs_alloc)
qed

text \<open>
  C2: \<open>wrap(unwrap(w))\<close> of a wrapper \<open>w\<close> is a new wrapper instance, at the next free
  address, holding exactly what \<open>w\<close> holds: same kind, same underlying container.
\<close>

theorem wrap_unwrap_same_container:
  assumes "objs h w = Some ob" and "wf_wrapper h w"
  shows "wrap h (unwrap h (VRef w)) = (VRef (next_addr h), snd (alloc ob h))"
  using assms
  by (auto simp: wf_wrapper_def wrap_def unwrap_def alloc_def
           split: obj.splits val.splits option.splits)

theorem unwrap_wrap_identity_witness:
  "\<not> is_wrapper_ref test_heap (VRef 0) \<and>
   unwrap (snd (wrap test_heap (VRef 0))) (fst (wrap test_heap (VRef 0))) = VRef 0"
  using unwrap_wrap_identity [of test_heap "VRef 0"]
  by (simp add: test_heap_def is_wrapper_ref_def)

theorem wrap_unwrap_same_container_witness:
  "objs test_heap 2 = Some (OJSONarray (VRef 1)) \<and> wf_wrapper test_heap 2 \<and>
   wrap test_heap (unwrap test_heap (VRef 2)) = (VRef 12, snd (alloc (OJSONarray (VRef 1)) test_heap))"
proof -
  have o: "objs test_heap 2 = Some (OJSONarray (VRef 1))" by (simp add: test_heap_def)
  have w: "wf_wrapper test_heap 2" by (simp add: test_heap_def wf_wrapper_def)
  have "next_addr test_heap = 12" by (simp add: test_heap_def)
  with wrap_unwrap_same_container [OF o w] o w show ?thesis by simp
qed

text \<open>
  \<open>wrap\<close> is idempotent on what it returns: wrapping its result again changes
  neither the value nor the heap, since a wrapper is not a dict, list or tuple.
\<close>

lemma wrap_idempotent: "wrap (snd (wrap h v)) (fst (wrap h v)) = wrap h v"
  by (auto simp: wrap_def alloc_def split: val.splits option.splits obj.splits)

section \<open>Types\<close>

text \<open>
  The type of \<open>wrap\<close>'s result as the spec states it: a mapping becomes an object
  wrapper, a list or tuple an array wrapper, anything else keeps its type.
\<close>

definition wrap_type :: "py_type \<Rightarrow> py_type" where
  "wrap_type T = (case T of
       DictType \<Rightarrow> JSONobjType
     | ListType \<Rightarrow> JSONarrayType
     | TupleType \<Rightarrow> JSONarrayType
     | _ \<Rightarrow> T)"

text \<open>
  C14: \<open>type(wrap(v))\<close> is \<open>JSONobj\<close> for a dict, \<open>JSONarray\<close> for a list or a tuple, and
  \<open>type(v)\<close> otherwise; the type of every value already on the heap is unchanged.
\<close>

theorem wrap_result_type:
  assumes "heap_ok h" and "val_type h v = Some T"
  shows "val_type (snd (wrap h v)) (fst (wrap h v)) = Some (wrap_type T) \<and>
         (\<forall>x U. val_type h x = Some U \<longrightarrow> val_type (snd (wrap h v)) x = Some U)"
proof -
  have "hext h (snd (wrap h v))" using assms(1) by (rule hext_wrap)
  then have keep: "\<forall>x U. val_type h x = Some U \<longrightarrow> val_type (snd (wrap h v)) x = Some U"
    by (rule val_type_hext)
  have "val_type (snd (wrap h v)) (fst (wrap h v)) = Some (wrap_type T)"
    using assms by (auto simp: wrap_def wrap_type_def alloc_def heap_ok_def
                         split: val.splits option.splits obj.splits)
  with keep show ?thesis by blast
qed

theorem wrap_result_type_witness:
  "val_type (snd (wrap test_heap (VRef 10))) (fst (wrap test_heap (VRef 10))) = Some JSONarrayType \<and>
   val_type (snd (wrap test_heap (VRef 4))) (fst (wrap test_heap (VRef 4))) = Some JSONobjType \<and>
   val_type (snd (wrap test_heap (VStr ''x''))) (fst (wrap test_heap (VStr ''x''))) = Some StrType"
proof -
  have "val_type test_heap (VRef 10) = Some TupleType" "val_type test_heap (VRef 4) = Some DictType"
    "val_type test_heap (VStr ''x'') = Some StrType" by (simp_all add: test_heap_def)
  then show ?thesis
    using wrap_result_type [OF test_heap_ok, of "VRef 10" TupleType]
          wrap_result_type [OF test_heap_ok, of "VRef 4" DictType]
          wrap_result_type [OF test_heap_ok, of "VStr ''x''" StrType]
    by (simp add: wrap_type_def)
qed

section \<open>Refinement: the values the references denote\<close>

lemma deref_n_wrap:
  assumes ok: "heap_ok h" and d: "deref_n n h v = Some t"
  shows "deref_n (Suc n) (snd (wrap h v)) (fst (wrap h v)) = Some (pv_wrap t)"
proof (cases "\<exists>a ob. v = VRef a \<and> objs h a = Some ob \<and>
                     (ob \<in> range ODict \<union> range OList \<union> range OTuple)")
  case True
  then obtain a ob where v: "v = VRef a" and ob: "objs h a = Some ob"
    and kind: "ob \<in> range ODict \<union> range OList \<union> range OTuple" by blast
  from d v obtain m where n: "n = Suc m" by (cases n) auto
  define w where "w = (case ob of ODict _ \<Rightarrow> OJSONobj v | _ \<Rightarrow> OJSONarray v)"
  have wr: "wrap h v = (VRef (next_addr h), snd (alloc w h))"
    using v ob kind by (auto simp: wrap_def w_def alloc_def)
  have d': "deref_n n (snd (alloc w h)) v = Some t"
    using d hext_alloc [OF ok] by (rule deref_n_hext [rotated])
  have new: "objs (snd (alloc w h)) (next_addr h) = Some w" by (simp add: objs_alloc)
  have shape: "pv_wrap t = (case ob of ODict _ \<Rightarrow> PJSONobj t | _ \<Rightarrow> PJSONarray t)"
    using d v ob kind n by (auto simp: pv_wrap_def simp del: map_map)
  have "deref_n (Suc n) (snd (alloc w h)) (VRef (next_addr h)) =
        Some (case ob of ODict _ \<Rightarrow> PJSONobj t | _ \<Rightarrow> PJSONarray t)"
    using new d' by (cases ob) (simp_all add: w_def)
  with wr shape show ?thesis by simp
next
  case False
  then have "wrap h v = (v, h)"
    by (auto simp: wrap_def split: val.splits option.splits obj.splits)
  moreover have "pv_wrap t = t"
    using False d by (cases v; cases n) (auto simp: pv_wrap_def split: option.splits obj.splits)
  ultimately show ?thesis using d by (simp add: deref_n_Suc_mono)
qed

lemma deref_n_unwrap:
  assumes d: "deref_n (Suc n) h v = Some t"
  shows "deref_n (Suc n) h (unwrap h v) = Some (pv_unwrap t)"
  using d
  by (cases v) (auto simp: unwrap_def pv_unwrap_def deref_n_Suc_mono
                   split: option.splits obj.splits simp del: map_map)

end
