(* ===== verification/Iter.thy ===== *)
theory Iter
  imports Convert
begin

text \<open>
  CPython's iterators, as far as jsonobj uses them: \<open>for\<close> loops over a wrapper or a
  container (\<open>JSONarray.extend\<close>, lines 216-220), the \<open>Iterator\<close> class that
  \<open>JSONarray.__iter__\<close> and \<open>__reversed__\<close> return (lines 172-196), and
  \<open>JSONobj.__iter__\<close> (lines 106-107).  An iterator is a state; \<open>iter_next\<close> is one
  call of \<open>__next__\<close>, \<open>None\<close> for StopIteration.  List and tuple iterators keep an
  index and read the live sequence at every step, so a list that grows while it is
  iterated is iterated further.  A dict's key iterator also keeps the dict's size at
  its creation and raises RuntimeError (\<open>dictionary changed size during iteration\<close>)
  at the first step that finds another size.  The wrapping iterator calls \<open>wrap\<close> on each item,
  which allocates.  \<open>iter_all\<close> drives an iterator to its end, as \<open>list(it)\<close> does,
  with fuel; the lemmas show what the key iterator and the wrapping iterator yield.
\<close>

datatype py_iter =
    SeqIter addr nat
  | KeyIter addr nat nat
  | StrIter string nat
  | RevIter addr int
  | WrapIter py_iter

fun iter_next :: "heap \<Rightarrow> py_iter \<Rightarrow> ((val \<times> py_iter) option \<times> heap) result" where
  "iter_next h (SeqIter a i) =
     (case objs h a of
        Some (OList xs) \<Rightarrow> Inr (if i < length xs then Some (xs ! i, SeqIter a (Suc i)) else None, h)
      | Some (OTuple xs) \<Rightarrow> Inr (if i < length xs then Some (xs ! i, SeqIter a (Suc i)) else None, h)
      | _ \<Rightarrow> Inl TypeError)"
| "iter_next h (KeyIter a i n) =
     (case objs h a of
        Some (ODict kvs) \<Rightarrow>
          if length kvs \<noteq> n then Inl RuntimeError
          else Inr (if i < length kvs then Some (VStr (fst (kvs ! i)), KeyIter a (Suc i) n) else None, h)
      | _ \<Rightarrow> Inl TypeError)"
| "iter_next h (StrIter s i) =
     Inr (if i < length s then Some (VStr [s ! i], StrIter s (Suc i)) else None, h)"
| "iter_next h (RevIter a i) =
     (case objs h a of
        Some (OList xs) \<Rightarrow>
          Inr (if 0 \<le> i \<and> i < int (length xs) then Some (xs ! nat i, RevIter a (i - 1)) else None, h)
      | _ \<Rightarrow> Inl TypeError)"
| "iter_next h (WrapIter it) =
     rbind (iter_next h it)
       (\<lambda>(r, h'). case r of
           None \<Rightarrow> Inr (None, h')
         | Some (v, it') \<Rightarrow> (let (w, h'') = wrap h' v in Inr (Some (w, WrapIter it'), h'')))"

text \<open>\<open>x.__iter__()\<close> of a builtin: strings, lists, tuples and dicts (over their keys).\<close>

definition builtin_iter :: "heap \<Rightarrow> val \<Rightarrow> py_iter result" where
  "builtin_iter h v =
     (case v of
        VStr s \<Rightarrow> Inr (StrIter s 0)
      | VRef a \<Rightarrow>
          (case objs h a of
             Some (OList _) \<Rightarrow> Inr (SeqIter a 0)
           | Some (OTuple _) \<Rightarrow> Inr (SeqIter a 0)
           | Some (ODict kvs) \<Rightarrow> Inr (KeyIter a 0 (length kvs))
           | _ \<Rightarrow> Inl TypeError)
      | _ \<Rightarrow> Inl TypeError)"

lemmas [py_simps] = builtin_iter_def

text \<open>
  \<open>list(it)\<close>, or a \<open>for\<close> loop that collects: \<open>__next__\<close> until StopIteration, one
  step per unit of fuel.
\<close>

fun iter_all :: "nat \<Rightarrow> heap \<Rightarrow> py_iter \<Rightarrow> (val list \<times> heap) result option" where
  "iter_all 0 h it = None"
| "iter_all (Suc n) h it =
     (case iter_next h it of
        Inl e \<Rightarrow> Some (Inl e)
      | Inr (None, h') \<Rightarrow> Some (Inr ([], h'))
      | Inr (Some (v, it'), h') \<Rightarrow>
          map_option (map_sum id (\<lambda>(vs, h''). (v # vs, h''))) (iter_all n h' it'))"

lemmas iter_all_simps [py_simps] = iter_all.simps

section \<open>Iterating to the end\<close>

text \<open>A dict's key iterator yields the keys in insertion order and allocates nothing.\<close>

lemma iter_all_keys:
  assumes "objs h a = Some (ODict kvs)" and "length kvs - i = k"
  shows "iter_all (Suc k) h (KeyIter a i (length kvs)) = Some (Inr (map (VStr \<circ> fst) (drop i kvs), h))"
  using assms
proof (induction k arbitrary: i)
  case 0
  then show ?case by simp
next
  case (Suc k)
  then have i: "i < length kvs" by simp
  have "iter_all (Suc k) h (KeyIter a (Suc i) (length kvs)) = Some (Inr (map (VStr \<circ> fst) (drop (Suc i) kvs), h))"
    using Suc by simp
  with Suc.prems i show ?case by (simp add: Cons_nth_drop_Suc [symmetric])
qed

text \<open>
  The wrapping iterator over a list yields, in order, each item passed through
  \<open>wrap\<close>: read out as trees, the items with a wrapper around each dict and list.
\<close>

lemma iter_all_wrapped:
  assumes "heap_ok h" and "objs h a = Some (OList xs)" and "those (map (deref_n n h) xs) = Some ts"
    and "length xs - i = k"
  shows "\<exists>ws h'. iter_all (Suc k) h (WrapIter (SeqIter a i)) = Some (Inr (ws, h')) \<and> hext h h' \<and>
                 list_all2 (\<lambda>w t. deref_n (Suc n) h' w = Some (pv_wrap t)) ws (drop i ts)"
  using assms
proof (induction k arbitrary: i h)
  case 0
  then have "length ts = length xs" by (simp add: those_map_nth)
  with 0 show ?case by simp
next
  case (Suc k)
  have lt: "length ts = length xs" and nth: "\<forall>j < length xs. deref_n n h (xs ! j) = Some (ts ! j)"
    using those_map_nth [OF Suc.prems(3)] by simp_all
  from Suc.prems(4) have i: "i < length xs" by simp
  obtain w h1 where wr: "wrap h (xs ! i) = (w, h1)" by fastforce
  have ok1: "heap_ok h1" using heap_ok_wrap [OF Suc.prems(1), of "xs ! i"] wr by simp
  have x1: "hext h h1" using hext_wrap [OF Suc.prems(1), of "xs ! i"] wr by simp
  have dw: "deref_n (Suc n) h1 w = Some (pv_wrap (ts ! i))"
    using deref_n_wrap [OF Suc.prems(1) nth [rule_format, OF i]] wr by simp
  have o1: "objs h1 a = Some (OList xs)" using x1 Suc.prems(2) by (simp add: hext_def)
  have t1: "those (map (deref_n n h1) xs) = Some ts"
    by (rule those_map_mono [OF _ Suc.prems(3)]) (rule deref_n_hext [OF x1])
  have "length xs - Suc i = k" using Suc.prems(4) by simp
  from Suc.IH [OF ok1 o1 t1 this] obtain ws h'
    where r: "iter_all (Suc k) h1 (WrapIter (SeqIter a (Suc i))) = Some (Inr (ws, h'))"
    and x2: "hext h1 h'"
    and l: "list_all2 (\<lambda>w t. deref_n (Suc n) h' w = Some (pv_wrap t)) ws (drop (Suc i) ts)"
    by blast
  have step: "iter_all (Suc (Suc k)) h (WrapIter (SeqIter a i)) = Some (Inr (w # ws, h'))"
    using Suc.prems(2) i wr r by simp
  have "deref_n (Suc n) h' w = Some (pv_wrap (ts ! i))" using dw x2 by (rule deref_n_hext [rotated])
  moreover have "drop i ts = ts ! i # drop (Suc i) ts" using lt i by (simp add: Cons_nth_drop_Suc)
  ultimately have "list_all2 (\<lambda>w t. deref_n (Suc n) h' w = Some (pv_wrap t)) (w # ws) (drop i ts)"
    using l by simp
  with step x1 x2 show ?case by (blast intro: hext_trans)
qed


text \<open>The same for \<open>reversed()\<close>: the items from the last to the first.\<close>

lemma iter_all_wrapped_rev:
  assumes "heap_ok h" and "objs h a = Some (OList xs)" and "those (map (deref_n n h) xs) = Some ts"
    and "i \<le> length xs"
  shows "\<exists>ws h'. iter_all (Suc i) h (WrapIter (RevIter a (int i - 1))) = Some (Inr (ws, h')) \<and>
                 hext h h' \<and> list_all2 (\<lambda>w t. deref_n (Suc n) h' w = Some (pv_wrap t)) ws (rev (take i ts))"
  using assms
proof (induction i arbitrary: h)
  case 0
  then show ?case by simp
next
  case (Suc m)
  have lt: "length ts = length xs" and nth: "\<forall>j < length xs. deref_n n h (xs ! j) = Some (ts ! j)"
    using those_map_nth [OF Suc.prems(3)] by simp_all
  from Suc.prems(4) have m: "m < length xs" by simp
  obtain w h1 where wr: "wrap h (xs ! m) = (w, h1)" by fastforce
  have ok1: "heap_ok h1" using heap_ok_wrap [OF Suc.prems(1), of "xs ! m"] wr by simp
  have x1: "hext h h1" using hext_wrap [OF Suc.prems(1), of "xs ! m"] wr by simp
  have dw: "deref_n (Suc n) h1 w = Some (pv_wrap (ts ! m))"
    using deref_n_wrap [OF Suc.prems(1) nth [rule_format, OF m]] wr by simp
  have o1: "objs h1 a = Some (OList xs)" using x1 Suc.prems(2) by (simp add: hext_def)
  have t1: "those (map (deref_n n h1) xs) = Some ts"
    by (rule those_map_mono [OF _ Suc.prems(3)]) (rule deref_n_hext [OF x1])
  from Suc.IH [OF ok1 o1 t1] m obtain ws h'
    where r: "iter_all (Suc m) h1 (WrapIter (RevIter a (int m - 1))) = Some (Inr (ws, h'))"
    and x2: "hext h1 h'" and l: "list_all2 (\<lambda>w t. deref_n (Suc n) h' w = Some (pv_wrap t)) ws (rev (take m ts))"
    by auto
  have step: "iter_all (Suc (Suc m)) h (WrapIter (RevIter a (int (Suc m) - 1))) = Some (Inr (w # ws, h'))"
    using Suc.prems(2) m wr r by simp
  have "deref_n (Suc n) h' w = Some (pv_wrap (ts ! m))" using dw x2 by (rule deref_n_hext [rotated])
  moreover have "rev (take (Suc m) ts) = ts ! m # rev (take m ts)" using lt m by (simp add: take_Suc_conv_app_nth)
  ultimately have "list_all2 (\<lambda>w t. deref_n (Suc n) h' w = Some (pv_wrap t)) (w # ws) (rev (take (Suc m) ts))"
    using l by simp
  with step x1 x2 show ?case by (blast intro: hext_trans)
qed

end
