(* ===== verification/JSONObj.thy ===== *)
theory JSONObj
  imports Iter
begin

text \<open>
  The class \<open>JSONobj\<close> of src/jsonobj.py (lines 71-127).  An instance is a heap object
  \<open>OJSONobj d\<close> whose slot \<open>dict\<close> references a dict.  Property read, write and
  delete are \<open>__getattr__\<close>, \<open>__setattr__\<close> and \<open>__delattr__\<close>, which go to the dict's
  \<open>__getitem__\<close>, \<open>__setitem__\<close> and \<open>__delitem__\<close>; the dict keeps insertion order
  (theory Prelude).  Python calls \<open>__getattr__\<close> only when ordinary lookup fails, so a
  read of a name the class itself defines (the slot \<open>dict\<close>, the methods, the
  attributes every object has) never reaches the mapping; \<open>obj_attr_read\<close> models
  \<open>obj.name\<close> with that rule, while every write and delete goes to the mapping.  A
  wrapper whose slot holds anything but a dict is outside what \<open>wrap\<close> builds; its
  methods are modelled as TypeError.
\<close>

definition obj_dict :: "heap \<Rightarrow> addr \<Rightarrow> val result" where
  "obj_dict h self = (case objs h self of Some (OJSONobj d) \<Rightarrow> Inr d | _ \<Rightarrow> Inl TypeError)"

definition dict_items :: "heap \<Rightarrow> val \<Rightarrow> (addr \<times> (string \<times> val) list) result" where
  "dict_items h d =
     (case d of
        VRef a \<Rightarrow> (case objs h a of Some (ODict kvs) \<Rightarrow> Inr (a, kvs) | _ \<Rightarrow> Inl TypeError)
      | _ \<Rightarrow> Inl TypeError)"

definition obj_items :: "heap \<Rightarrow> addr \<Rightarrow> (addr \<times> (string \<times> val) list) result" where
  "obj_items h self = rbind (obj_dict h self) (dict_items h)"

text \<open>\<open>__init__(self, jsondict={})\<close>: the default dict is one object, made once.\<close>

definition obj_init :: "addr \<Rightarrow> heap \<Rightarrow> val option \<Rightarrow> addr \<times> heap" where
  "obj_init default_dict h jsondict =
     alloc (OJSONobj (case jsondict of None \<Rightarrow> VRef default_dict | Some d \<Rightarrow> d)) h"

definition obj_len :: "heap \<Rightarrow> addr \<Rightarrow> nat result" where
  "obj_len h self = rbind (obj_items h self) (\<lambda>(a, kvs). Inr (length kvs))"

text \<open>
  \<open>item in dict\<close> hashes \<open>item\<close> first: an unhashable item (a list, a dict, a wrapper)
  raises TypeError; a hashable one is a key only if it is one of the string keys.
\<close>

definition obj_contains :: "heap \<Rightarrow> addr \<Rightarrow> val \<Rightarrow> bool result" where
  "obj_contains h self item =
     rbind (obj_items h self)
       (\<lambda>(a, kvs). case deref h item of
           None \<Rightarrow> Inl RecursionError
         | Some t \<Rightarrow>
             if \<not> hashable t then Inl TypeError
             else Inr (case item of VStr k \<Rightarrow> k \<in> set (map fst kvs) | _ \<Rightarrow> False))"

definition obj_iter :: "heap \<Rightarrow> addr \<Rightarrow> py_iter result" where
  "obj_iter h self = rbind (obj_dict h self) (builtin_iter h)"

definition obj_getattr :: "heap \<Rightarrow> addr \<Rightarrow> string \<Rightarrow> (val \<times> heap) result" where
  "obj_getattr h self name =
     rbind (obj_items h self)
       (\<lambda>(a, kvs). case map_of kvs name of None \<Rightarrow> Inl KeyError | Some v \<Rightarrow> Inr (wrap h v))"

definition obj_setattr :: "heap \<Rightarrow> addr \<Rightarrow> string \<Rightarrow> val \<Rightarrow> heap result" where
  "obj_setattr h self name v =
     rbind (obj_items h self)
       (\<lambda>(a, kvs). Inr (set_obj a (ODict (alist_set name (unwrap h v) kvs)) h))"

definition obj_delattr :: "heap \<Rightarrow> addr \<Rightarrow> string \<Rightarrow> heap result" where
  "obj_delattr h self name =
     rbind (obj_items h self)
       (\<lambda>(a, kvs). if name \<in> set (map fst kvs)
                   then Inr (set_obj a (ODict (alist_del name kvs)) h)
                   else Inl KeyError)"

definition obj_eq :: "heap \<Rightarrow> addr \<Rightarrow> val \<Rightarrow> bool option result" where
  "obj_eq h self other =
     rbind (obj_dict h self)
       (\<lambda>d. case (deref h d, deref h (unwrap h other)) of
              (Some x, Some y) \<Rightarrow> Inr (eq_method x y)
            | _ \<Rightarrow> Inl RecursionError)"

section \<open>Attribute lookup\<close>

text \<open>
  The names ordinary attribute lookup finds on an instance of \<open>JSONobj\<close>: those of the
  class body (lines 71-127, with \<open>__hash__\<close> set to None because \<open>__eq__\<close> is
  defined) and those every object inherits (CPython 3.11 and later).
\<close>

definition jsonobj_class_attrs :: "string list" where
  "jsonobj_class_attrs =
     [''__module__'', ''__qualname__'', ''__doc__'', ''__slots__'', ''dict'', ''__init__'',
      ''__len__'', ''__contains__'', ''__iter__'', ''__getattr__'', ''__setattr__'',
      ''__delattr__'', ''__eq__'', ''__repr__'', ''__str__'', ''__hash__'',
      ''__class__'', ''__new__'', ''__ne__'', ''__lt__'', ''__le__'', ''__gt__'', ''__ge__'',
      ''__format__'', ''__reduce__'', ''__reduce_ex__'', ''__sizeof__'', ''__dir__'',
      ''__getattribute__'', ''__init_subclass__'', ''__subclasshook__'', ''__getstate__'']"

datatype attr_read = SlotValue val | ClassAttribute string | Property val

definition obj_attr_read :: "heap \<Rightarrow> addr \<Rightarrow> string \<Rightarrow> (attr_read \<times> heap) result" where
  "obj_attr_read h self name =
     (if name = ''dict'' then rbind (obj_dict h self) (\<lambda>d. Inr (SlotValue d, h))
      else if name \<in> set jsonobj_class_attrs then Inr (ClassAttribute name, h)
      else map_sum id (\<lambda>(v, h'). (Property v, h')) (obj_getattr h self name))"

lemmas obj_defs [py_simps] = obj_dict_def dict_items_def obj_items_def obj_init_def obj_len_def
  obj_contains_def obj_iter_def obj_getattr_def obj_setattr_def obj_delattr_def obj_eq_def
  jsonobj_class_attrs_def obj_attr_read_def

section \<open>Properties\<close>

lemma obj_items_Inr: "obj_items h self = Inr (a, kvs) \<Longrightarrow> objs h a = Some (ODict kvs)"
  by (auto simp: obj_items_def obj_dict_def dict_items_def rbind_eq_Inr
           split: option.splits obj.splits val.splits)

lemma obj_items_dict:
  "objs h self = Some (OJSONobj (VRef a)) \<Longrightarrow> objs h a = Some (ODict kvs) \<Longrightarrow>
   obj_items h self = Inr (a, kvs)"
  by (simp add: obj_items_def obj_dict_def dict_items_def)

text \<open>
  C6: a property read of an absent name raises KeyError (the dict's lookup error, not
  AttributeError), and only then.
\<close>

theorem obj_getattr_KeyError:
  assumes "obj_items h self = Inr (a, kvs)"
  shows "obj_getattr h self name = Inl KeyError \<longleftrightarrow> name \<notin> set (map fst kvs)"
  using assms by (force simp: obj_getattr_def map_of_eq_None_iff dest: map_of_SomeD
                        split: option.splits)

theorem obj_getattr_KeyError_witness:
  "obj_items test_heap 5 = Inr (4, [(''key1'', VStr ''value1''), (''key2'', VRef 3)]) \<and>
   obj_getattr test_heap 5 ''key3'' = Inl KeyError"
proof -
  have i: "obj_items test_heap 5 = Inr (4, [(''key1'', VStr ''value1''), (''key2'', VRef 3)])"
    by (simp add: test_heap_def obj_items_dict)
  from obj_getattr_KeyError [OF i, of "''key3''"] i show ?thesis by simp
qed

text \<open>
  C5: a property write stores the unwrapped value under the name, overwriting in place
  or appending to the key order, and a read of the name then returns it wrapped.
\<close>

theorem obj_setattr_getattr:
  assumes "objs h self = Some (OJSONobj (VRef a))" and "objs h a = Some (ODict kvs)"
  shows "\<exists>h'. obj_setattr h self name v = Inr h' \<and>
              obj_items h' self = Inr (a, alist_set name (unwrap h v) kvs) \<and>
              obj_getattr h' self name = Inr (wrap h' (unwrap h v))"
proof -
  have sa: "self \<noteq> a" using assms by auto
  let ?h' = "set_obj a (ODict (alist_set name (unwrap h v) kvs)) h"
  have "obj_items ?h' self = Inr (a, alist_set name (unwrap h v) kvs)"
    using assms sa by (simp add: obj_items_dict objs_set_obj)
  moreover have "obj_setattr h self name v = Inr ?h'"
    using assms by (simp add: obj_setattr_def obj_items_dict)
  ultimately show ?thesis by (simp add: obj_getattr_def)
qed

theorem obj_setattr_getattr_witness:
  "\<exists>h'. obj_setattr test_heap 5 ''key3'' (VRef 9) = Inr h' \<and>
        obj_items h' 5 = Inr (4, [(''key1'', VStr ''value1''), (''key2'', VRef 3), (''key3'', VRef 0)]) \<and>
        obj_getattr h' 5 ''key3'' = Inr (wrap h' (VRef 0))"
  using obj_setattr_getattr [of test_heap 5 4 "[(''key1'', VStr ''value1''), (''key2'', VRef 3)]"
                              "''key3''" "VRef 9"]
  by (simp add: test_heap_def unwrap_def)

text \<open>
  Writing a new property and deleting it again restores the heap exactly: the key
  appended by \<open>__setattr__\<close> is the one \<open>__delattr__\<close> removes.
\<close>

lemma obj_setattr_delattr_roundtrip:
  assumes i: "obj_items h self = Inr (a, kvs)" and n: "name \<notin> set (map fst kvs)"
  shows "\<exists>h'. obj_setattr h self name v = Inr h' \<and> obj_delattr h' self name = Inr h"
proof -
  let ?h = "set_obj a (ODict (alist_set name (unwrap h v) kvs)) h"
  have o: "objs h a = Some (ODict kvs)" using i by (rule obj_items_Inr)
  have "obj_items ?h self = Inr (a, alist_set name (unwrap h v) kvs)"
    using i o by (auto simp: obj_items_def obj_dict_def dict_items_def objs_set_obj rbind_eq_Inr
                        split: option.splits obj.splits val.splits)
  with i n o show ?thesis
    by (simp add: obj_setattr_def obj_delattr_def key_in_alist_set alist_del_alist_set_new)
qed

text \<open>
  C11: deleting an absent property raises KeyError, and writing it and deleting it again
  restores the heap exactly; deleting a present one removes exactly that key: the size
  drops by one and the name is no longer a member.
\<close>

theorem obj_delattr_spec:
  assumes "objs h self = Some (OJSONobj (VRef a))" and "objs h a = Some (ODict kvs)"
    and "distinct (map fst kvs)"
  shows "(name \<notin> set (map fst kvs) \<longrightarrow>
            obj_delattr h self name = Inl KeyError \<and>
            (\<exists>h'. obj_setattr h self name v = Inr h' \<and> obj_delattr h' self name = Inr h)) \<and>
         (name \<in> set (map fst kvs) \<longrightarrow>
            (\<exists>h'. obj_delattr h self name = Inr h' \<and>
                  obj_len h' self = Inr (length kvs - 1) \<and>
                  obj_contains h' self (VStr name) = Inr False))"
proof -
  have sa: "self \<noteq> a" using assms by auto
  have it: "obj_items h self = Inr (a, kvs)" using assms by (simp add: obj_items_dict)
  let ?h' = "set_obj a (ODict (alist_del name kvs)) h"
  have items: "obj_items ?h' self = Inr (a, alist_del name kvs)"
    using assms sa by (simp add: obj_items_dict objs_set_obj)
  have "name \<notin> set (map fst (alist_del name kvs))"
    using assms(3) by (simp add: keys_alist_del)
  with items assms obj_setattr_delattr_roundtrip [OF it, of name v] show ?thesis
    by (auto simp: obj_delattr_def obj_items_dict obj_len_def obj_contains_def deref_def
                   length_alist_del)
qed

theorem obj_delattr_spec_witness:
  "obj_delattr test_heap 5 ''key3'' = Inl KeyError \<and>
   (\<exists>h'. obj_setattr test_heap 5 ''key3'' (VRef 9) = Inr h' \<and> obj_delattr h' 5 ''key3'' = Inr test_heap) \<and>
   (\<exists>h'. obj_delattr test_heap 5 ''key1'' = Inr h' \<and> obj_len h' 5 = Inr 1 \<and>
         obj_contains h' 5 (VStr ''key1'') = Inr False)"
  using obj_delattr_spec [of test_heap 5 4 "[(''key1'', VStr ''value1''), (''key2'', VRef 3)]" "''key3''" "VRef 9"]
        obj_delattr_spec [of test_heap 5 4 "[(''key1'', VStr ''value1''), (''key2'', VRef 3)]" "''key1''"]
  by (simp add: test_heap_def)

text \<open>
  C16: \<open>obj.dict\<close> reads the instance's slot, not the mapping: after \<open>obj.dict = v\<close>
  the mapping holds a key \<open>dict\<close>, but reading \<open>obj.dict\<close> returns the raw mapping.
\<close>

theorem obj_dict_attr_shadowed:
  assumes "objs h self = Some (OJSONobj (VRef a))" and "objs h a = Some (ODict kvs)"
  shows "\<exists>h'. obj_setattr h self ''dict'' v = Inr h' \<and>
              obj_items h' self = Inr (a, alist_set ''dict'' (unwrap h v) kvs) \<and>
              obj_attr_read h' self ''dict'' = Inr (SlotValue (VRef a), h')"
proof -
  have sa: "self \<noteq> a" using assms by auto
  let ?h' = "set_obj a (ODict (alist_set ''dict'' (unwrap h v) kvs)) h"
  have "obj_setattr h self ''dict'' v = Inr ?h'"
    using assms by (simp add: obj_setattr_def obj_items_dict)
  moreover have "obj_items ?h' self = Inr (a, alist_set ''dict'' (unwrap h v) kvs)"
    using assms sa by (simp add: obj_items_dict objs_set_obj)
  moreover have "obj_attr_read ?h' self ''dict'' = Inr (SlotValue (VRef a), ?h')"
    using assms sa by (simp add: obj_attr_read_def obj_dict_def objs_set_obj)
  ultimately show ?thesis by blast
qed

theorem obj_dict_attr_shadowed_witness:
  "\<exists>h'. obj_setattr test_heap 5 ''dict'' (VInt 5) = Inr h' \<and>
        obj_items h' 5 = Inr (4, [(''key1'', VStr ''value1''), (''key2'', VRef 3), (''dict'', VInt 5)]) \<and>
        obj_attr_read h' 5 ''dict'' = Inr (SlotValue (VRef 4), h')"
  using obj_dict_attr_shadowed [of test_heap 5 4 "[(''key1'', VStr ''value1''), (''key2'', VRef 3)]"
                                 "VInt 5"]
  by (simp add: test_heap_def unwrap_def)

text \<open>
  C17: the default argument \<open>jsondict={}\<close> is evaluated once: two instances built
  without an argument share one dict, so a property written through the first is read
  through the second.
\<close>

theorem obj_init_default_shared:
  assumes ok: "heap_ok h" and d: "objs h dflt = Some (ODict kvs)"
    and i1: "obj_init dflt h None = (o1, h1)"
    and s: "obj_setattr h1 o1 k v = Inr h2"
    and i2: "obj_init dflt h2 None = (o2, h3)"
  shows "o2 \<noteq> o1 \<and> obj_getattr h3 o2 k = Inr (wrap h3 (unwrap h1 v))"
proof -
  have o1: "o1 = next_addr h" and h1: "h1 = snd (alloc (OJSONobj (VRef dflt)) h)"
    using i1 by (auto simp: obj_init_def alloc_def)
  have fresh: "objs h o1 = None" using ok o1 by (simp add: alloc_fresh)
  have ob1: "objs h1 o1 = Some (OJSONobj (VRef dflt))" and d1: "objs h1 dflt = Some (ODict kvs)"
    using h1 o1 d fresh by (auto simp: objs_alloc)
  have h2: "h2 = set_obj dflt (ODict (alist_set k (unwrap h1 v) kvs)) h1"
    using s ob1 d1 by (simp add: obj_setattr_def obj_items_dict)
  have o2: "o2 = next_addr h2" and h3: "h3 = snd (alloc (OJSONobj (VRef dflt)) h2)"
    using i2 by (auto simp: obj_init_def alloc_def)
  have "next_addr h2 = Suc (next_addr h)" using h2 h1 by (simp add: alloc_def)
  then have ne: "o2 \<noteq> o1" using o1 o2 by simp
  have ok2: "heap_ok h2"
    using h2 h1 ok d1 by (simp add: heap_ok_set_obj heap_ok_alloc)
  have "objs h2 dflt \<noteq> None" using h2 by (simp add: objs_set_obj)
  then have dn: "dflt \<noteq> next_addr h2" using ok2 by (auto simp: heap_ok_def)
  have d3: "objs h3 dflt = Some (ODict (alist_set k (unwrap h1 v) kvs))"
    using h3 h2 dn by (simp add: objs_alloc objs_set_obj)
  have ob2: "objs h3 o2 = Some (OJSONobj (VRef dflt))" using h3 o2 by (simp add: objs_alloc)
  from ne ob2 d3 show ?thesis by (simp add: obj_getattr_def obj_items_dict)
qed

theorem obj_init_default_shared_witness:
  "\<exists>o1 h1 h2 o2 h3. obj_init 7 test_heap None = (o1, h1) \<and>
     obj_setattr h1 o1 ''k'' (VInt 1) = Inr h2 \<and> obj_init 7 h2 None = (o2, h3) \<and>
     o2 \<noteq> o1 \<and> obj_getattr h3 o2 ''k'' = Inr (VInt 1, h3)"
proof -
  obtain o1 h1 where i1: "obj_init 7 test_heap None = (o1, h1)" by fastforce
  then have o1: "o1 = 12" and h1: "h1 = snd (alloc (OJSONobj (VRef 7)) test_heap)"
    by (auto simp: obj_init_def test_heap_def alloc_def)
  define h2 where "h2 = set_obj 7 (ODict [(''k'', VInt 1)]) h1"
  have s: "obj_setattr h1 o1 ''k'' (VInt 1) = Inr h2"
    by (simp add: o1 h1 h2_def test_heap_def alloc_def obj_setattr_def obj_items_dict unwrap_def)
  obtain o2 h3 where i2: "obj_init 7 h2 None = (o2, h3)" by fastforce
  have d: "objs test_heap 7 = Some (ODict [])" by (simp add: test_heap_def)
  from obj_init_default_shared [OF test_heap_ok d i1 s i2]
  have "o2 \<noteq> o1 \<and> obj_getattr h3 o2 ''k'' = Inr (VInt 1, h3)"
    by (simp add: unwrap_def wrap_def)
  with i1 s i2 show ?thesis by blast
qed

text \<open>
  C25: iterating a \<open>JSONobj\<close> to the end yields the keys of its dict in insertion order,
  as strings, and allocates nothing.  A property deleted, or a new one written, after
  the iterator is made makes its next step raise RuntimeError (the dict changed size);
  overwriting a present property leaves the keys the iteration yields unchanged.
\<close>

theorem obj_iter_keys:
  assumes i: "obj_items h self = Inr (a, kvs)"
  shows "\<exists>it. obj_iter h self = Inr it \<and>
              iter_all (Suc (length kvs)) h it = Some (Inr (map (VStr \<circ> fst) kvs, h)) \<and>
              (\<forall>name h'. obj_delattr h self name = Inr h' \<longrightarrow> iter_next h' it = Inl RuntimeError) \<and>
              (\<forall>name v h'. obj_setattr h self name v = Inr h' \<longrightarrow>
                 (if name \<in> set (map fst kvs)
                  then iter_all (Suc (length kvs)) h' it = Some (Inr (map (VStr \<circ> fst) kvs, h'))
                  else iter_next h' it = Inl RuntimeError))"
proof -
  have o: "objs h a = Some (ODict kvs)" using i by (rule obj_items_Inr)
  from i obtain d where "obj_dict h self = Inr d" and "dict_items h d = Inr (a, kvs)"
    by (auto simp: obj_items_def rbind_eq_Inr)
  then have "obj_dict h self = Inr (VRef a)"
    by (auto simp: dict_items_def split: val.splits option.splits obj.splits)
  with o have it: "obj_iter h self = Inr (KeyIter a 0 (length kvs))"
    by (simp add: obj_iter_def builtin_iter_def)
  have del: "iter_next h' (KeyIter a 0 (length kvs)) = Inl RuntimeError"
    if "obj_delattr h self name = Inr h'" for name h'
  proof -
    have "name \<in> set (map fst kvs)" and "h' = set_obj a (ODict (alist_del name kvs)) h"
      using that i by (auto simp: obj_delattr_def split: if_splits)
    then show ?thesis using length_alist_del_less [of name kvs] by (simp add: objs_set_obj)
  qed
  have set: "if name \<in> set (map fst kvs)
             then iter_all (Suc (length kvs)) h' (KeyIter a 0 (length kvs)) = Some (Inr (map (VStr \<circ> fst) kvs, h'))
             else iter_next h' (KeyIter a 0 (length kvs)) = Inl RuntimeError"
    if "obj_setattr h self name v = Inr h'" for name v h'
  proof -
    let ?kvs = "alist_set name (unwrap h v) kvs"
    have h': "objs h' a = Some (ODict ?kvs)" using that i by (auto simp: obj_setattr_def objs_set_obj)
    show ?thesis
    proof (cases "name \<in> set (map fst kvs)")
      case True
      then have l: "length ?kvs = length kvs" and k: "map fst ?kvs = map fst kvs"
        by (simp_all add: length_alist_set keys_alist_set)
      from k have "map (VStr \<circ> fst) ?kvs = map (VStr \<circ> fst) kvs" by (metis map_map)
      with iter_all_keys [OF h', of 0 "length kvs"] l True show ?thesis by simp
    next
      case False
      then show ?thesis using h' by (simp add: length_alist_set)
    qed
  qed
  have all: "iter_all (Suc (length kvs)) h (KeyIter a 0 (length kvs)) = Some (Inr (map (VStr \<circ> fst) kvs, h))"
    using iter_all_keys [OF o, of 0] by simp
  show ?thesis using it all del set by blast
qed

theorem obj_iter_keys_witness:
  "\<exists>it. obj_iter test_heap 5 = Inr it \<and>
        iter_all 3 test_heap it = Some (Inr ([VStr ''key1'', VStr ''key2''], test_heap)) \<and>
        (\<exists>h'. obj_delattr test_heap 5 ''key1'' = Inr h' \<and> iter_next h' it = Inl RuntimeError) \<and>
        (\<exists>h'. obj_setattr test_heap 5 ''key3'' (VInt 1) = Inr h' \<and> iter_next h' it = Inl RuntimeError)"
proof -
  have i: "obj_items test_heap 5 = Inr (4, [(''key1'', VStr ''value1''), (''key2'', VRef 3)])"
    by (simp add: test_heap_def obj_items_dict)
  obtain hd where d: "obj_delattr test_heap 5 ''key1'' = Inr hd"
    using i by (simp add: obj_delattr_def)
  obtain hs where s: "obj_setattr test_heap 5 ''key3'' (VInt 1) = Inr hs"
    using i by (simp add: obj_setattr_def)
  from obj_iter_keys [OF i] show ?thesis
  proof (elim exE conjE)
    fix it
    assume it: "obj_iter test_heap 5 = Inr it"
      and all: "iter_all (Suc (length [(''key1'', VStr ''value1''), (''key2'', VRef 3)])) test_heap it =
                Some (Inr (map (VStr \<circ> fst) [(''key1'', VStr ''value1''), (''key2'', VRef 3)], test_heap))"
      and dl: "\<forall>name h'. obj_delattr test_heap 5 name = Inr h' \<longrightarrow> iter_next h' it = Inl RuntimeError"
      and st: "\<forall>name v h'. obj_setattr test_heap 5 name v = Inr h' \<longrightarrow>
                 (if name \<in> set (map fst [(''key1'', VStr ''value1''), (''key2'', VRef 3)])
                  then iter_all (Suc (length [(''key1'', VStr ''value1''), (''key2'', VRef 3)])) h' it =
                       Some (Inr (map (VStr \<circ> fst) [(''key1'', VStr ''value1''), (''key2'', VRef 3)], h'))
                  else iter_next h' it = Inl RuntimeError)"
    have "iter_next hd it = Inl RuntimeError" using dl d by blast
    moreover have "iter_next hs it = Inl RuntimeError" using st s by fastforce
    moreover have "iter_all 3 test_heap it = Some (Inr ([VStr ''key1'', VStr ''key2''], test_heap))"
      using all by (simp add: numeral_3_eq_3)
    ultimately show ?thesis using it d s by blast
  qed
qed

text \<open>
  C29: \<open>name in obj\<close> for a string is membership among the keys; for a wrapper it raises
  TypeError, since the wrappers define \<open>__eq__\<close> without \<open>__hash__\<close>.
\<close>

theorem obj_contains_spec:
  assumes i: "obj_items h self = Inr (a, kvs)"
  shows "obj_contains h self (VStr k) = Inr (k \<in> set (map fst kvs)) \<and>
         (is_wrapper_ref h item \<longrightarrow> deref h item \<noteq> None \<longrightarrow> obj_contains h self item = Inl TypeError)"
proof (intro conjI impI)
  show "obj_contains h self (VStr k) = Inr (k \<in> set (map fst kvs))"
    using i by (simp add: obj_contains_def deref_def)
  assume w: "is_wrapper_ref h item" and d: "deref h item \<noteq> None"
  then obtain t where t: "deref h item = Some t" by blast
  from w obtain b ob where ib: "item = VRef b" and ob: "objs h b = Some ob"
    and k: "ob \<in> range OJSONobj \<union> range OJSONarray"
    by (auto simp: is_wrapper_ref_def split: val.splits option.splits obj.splits)
  have "\<not> hashable t"
    using t ib ob k by (auto simp: deref_def recursion_limit_def numeral_eq_Suc)
  with i t show "obj_contains h self item = Inl TypeError" by (simp add: obj_contains_def)
qed

theorem obj_contains_spec_witness:
  "obj_contains test_heap 5 (VStr ''key1'') = Inr True \<and> obj_contains test_heap 5 (VRef 9) = Inl TypeError"
proof -
  have i: "obj_items test_heap 5 = Inr (4, [(''key1'', VStr ''value1''), (''key2'', VRef 3)])"
    by (simp add: test_heap_def obj_items_dict)
  have "is_wrapper_ref test_heap (VRef 9) \<and> deref test_heap (VRef 9) \<noteq> None"
    by (simp add: test_heap_def is_wrapper_ref_def py_simps)
  with obj_contains_spec [OF i, of "''key1''" "VRef 9"] show ?thesis by simp
qed

end
