(* ===== verification/JSONArray.thy ===== *)
theory JSONArray
  imports JSONObj
begin

text \<open>
  The class \<open>JSONarray\<close> of src/jsonobj.py (lines 130-239).  An instance is a heap
  object \<open>OJSONarray s\<close> whose slot \<open>seq\<close> references a list or a tuple; each method
  takes the heap and the instance's address and returns its result and the new heap, or
  the exception it raises.  The list builtins the methods call are modelled with
  CPython's semantics: index normalisation, clamping of \<open>insert\<close> and of the bounds of
  \<open>index\<close>, \<open>==\<close> for membership and search.  Tuples have no mutating methods and no
  \<open>__reversed__\<close>, so calling those through the wrapper raises AttributeError.  A wrapper
  whose slot holds anything but a list or tuple is outside what \<open>wrap\<close> builds; its
  methods are modelled as TypeError.  Iteration is a step function on iterator states
  that re-read the live sequence at every step, as CPython's iterators do; \<open>extend\<close>
  runs its \<open>for\<close> loop with fuel, and \<open>None\<close> is a loop that does not stop.
\<close>

section \<open>The instance and its sequence\<close>

datatype seqkind = SList | STuple

definition arr_seq :: "heap \<Rightarrow> addr \<Rightarrow> val result" where
  "arr_seq h self = (case objs h self of Some (OJSONarray s) \<Rightarrow> Inr s | _ \<Rightarrow> Inl TypeError)"

definition seq_items :: "heap \<Rightarrow> val \<Rightarrow> (addr \<times> seqkind \<times> val list) result" where
  "seq_items h s =
     (case s of
        VRef a \<Rightarrow>
          (case objs h a of
             Some (OList xs) \<Rightarrow> Inr (a, SList, xs)
           | Some (OTuple xs) \<Rightarrow> Inr (a, STuple, xs)
           | _ \<Rightarrow> Inl TypeError)
      | _ \<Rightarrow> Inl TypeError)"

definition arr_items :: "heap \<Rightarrow> addr \<Rightarrow> (addr \<times> seqkind \<times> val list) result" where
  "arr_items h self = rbind (arr_seq h self) (seq_items h)"

text \<open>The receiver of a mutating list method: a tuple has no such attribute.\<close>

definition arr_list :: "heap \<Rightarrow> addr \<Rightarrow> (addr \<times> val list) result" where
  "arr_list h self =
     rbind (arr_items h self)
       (\<lambda>(a, k, xs). if k = SList then Inr (a, xs) else Inl AttributeError)"

section \<open>Searching with Python's \<open>==\<close>\<close>

text \<open>The first position whose item equals \<open>y\<close>, scanning left to right.\<close>

fun seq_find :: "heap \<Rightarrow> val \<Rightarrow> val list \<Rightarrow> nat option result" where
  "seq_find h y [] = Inr None"
| "seq_find h y (x # xs) =
     rbind (heap_eq h x y)
       (\<lambda>b. if b then Inr (Some 0) else map_sum id (map_option Suc) (seq_find h y xs))"

fun seq_count :: "heap \<Rightarrow> val \<Rightarrow> val list \<Rightarrow> nat result" where
  "seq_count h y [] = Inr 0"
| "seq_count h y (x # xs) =
     rbind (heap_eq h x y) (\<lambda>b. map_sum id (\<lambda>c. if b then Suc c else c) (seq_count h y xs))"

section \<open>Methods\<close>

text \<open>\<open>__init__(self, jsonseq=[])\<close>: the default list is one object, made once.\<close>

definition arr_init :: "addr \<Rightarrow> heap \<Rightarrow> val option \<Rightarrow> addr \<times> heap" where
  "arr_init default_seq h jsonseq =
     alloc (OJSONarray (case jsonseq of None \<Rightarrow> VRef default_seq | Some s \<Rightarrow> s)) h"

definition arr_len :: "heap \<Rightarrow> addr \<Rightarrow> nat result" where
  "arr_len h self = rbind (arr_items h self) (\<lambda>(a, k, xs). Inr (length xs))"

definition arr_contains :: "heap \<Rightarrow> addr \<Rightarrow> val \<Rightarrow> bool result" where
  "arr_contains h self item =
     rbind (arr_items h self)
       (\<lambda>(a, k, xs). map_sum id (\<lambda>r. r \<noteq> None) (seq_find h (unwrap h item) xs))"

definition arr_getitem :: "heap \<Rightarrow> addr \<Rightarrow> int \<Rightarrow> (val \<times> heap) result" where
  "arr_getitem h self i =
     rbind (arr_items h self)
       (\<lambda>(a, k, xs). case py_norm_index i (length xs) of
           None \<Rightarrow> Inl IndexError
         | Some j \<Rightarrow> Inr (wrap h (xs ! j)))"

definition arr_setitem :: "heap \<Rightarrow> addr \<Rightarrow> int \<Rightarrow> val \<Rightarrow> heap result" where
  "arr_setitem h self i v =
     rbind (arr_list h self)
       (\<lambda>(a, xs). case py_norm_index i (length xs) of
           None \<Rightarrow> Inl IndexError
         | Some j \<Rightarrow> Inr (set_obj a (OList (xs[j := unwrap h v])) h))"

definition arr_delitem :: "heap \<Rightarrow> addr \<Rightarrow> int \<Rightarrow> heap result" where
  "arr_delitem h self i =
     rbind (arr_list h self)
       (\<lambda>(a, xs). case py_norm_index i (length xs) of
           None \<Rightarrow> Inl IndexError
         | Some j \<Rightarrow> Inr (set_obj a (OList (remove_nth j xs)) h))"

text \<open>
  \<open>index(self, value, start=0, stop=-1)\<close>: the list builtin clamps both bounds and
  scans \<open>[start, stop)\<close>.  The method's default \<open>stop=-1\<close> is passed on as is.
\<close>

definition arr_index :: "heap \<Rightarrow> addr \<Rightarrow> val \<Rightarrow> int \<Rightarrow> int \<Rightarrow> nat result" where
  "arr_index h self v start stop =
     rbind (arr_items h self)
       (\<lambda>(a, k, xs).
          let n = length xs; lo = py_clamp_index start n; hi = py_clamp_index stop n
          in rbind (seq_find h (unwrap h v) (take (hi - lo) (drop lo xs)))
               (\<lambda>r. case r of None \<Rightarrow> Inl ValueError | Some j \<Rightarrow> Inr (lo + j)))"

definition arr_count :: "heap \<Rightarrow> addr \<Rightarrow> val \<Rightarrow> nat result" where
  "arr_count h self v = rbind (arr_items h self) (\<lambda>(a, k, xs). seq_count h (unwrap h v) xs)"

text \<open>\<open>insert(self, index, value)\<close> stores \<open>value\<close> as given: it does not unwrap.\<close>

definition arr_insert :: "heap \<Rightarrow> addr \<Rightarrow> int \<Rightarrow> val \<Rightarrow> heap result" where
  "arr_insert h self i v =
     rbind (arr_list h self)
       (\<lambda>(a, xs). Inr (set_obj a (OList (insert_nth (py_clamp_index i (length xs)) v xs)) h))"

definition arr_append :: "heap \<Rightarrow> addr \<Rightarrow> val \<Rightarrow> heap result" where
  "arr_append h self v =
     rbind (arr_list h self) (\<lambda>(a, xs). Inr (set_obj a (OList (xs @ [unwrap h v])) h))"

definition arr_clear :: "heap \<Rightarrow> addr \<Rightarrow> heap result" where
  "arr_clear h self = rbind (arr_list h self) (\<lambda>(a, xs). Inr (set_obj a (OList []) h))"

definition arr_reverse :: "heap \<Rightarrow> addr \<Rightarrow> heap result" where
  "arr_reverse h self = rbind (arr_list h self) (\<lambda>(a, xs). Inr (set_obj a (OList (rev xs)) h))"

text \<open>\<open>pop(self, index=-1)\<close>: remove the item, then wrap it for the caller.\<close>

definition arr_pop :: "heap \<Rightarrow> addr \<Rightarrow> int \<Rightarrow> (val \<times> heap) result" where
  "arr_pop h self i =
     rbind (arr_list h self)
       (\<lambda>(a, xs). case py_norm_index i (length xs) of
           None \<Rightarrow> Inl IndexError
         | Some j \<Rightarrow> Inr (wrap (set_obj a (OList (remove_nth j xs)) h) (xs ! j)))"

text \<open>\<open>remove(self, value)\<close> searches for \<open>value\<close> as given: it does not unwrap.\<close>

definition arr_remove :: "heap \<Rightarrow> addr \<Rightarrow> val \<Rightarrow> heap result" where
  "arr_remove h self v =
     rbind (arr_list h self)
       (\<lambda>(a, xs). rbind (seq_find h v xs)
          (\<lambda>r. case r of
                 None \<Rightarrow> Inl ValueError
               | Some j \<Rightarrow> Inr (set_obj a (OList (remove_nth j xs)) h)))"

text \<open>
  \<open>__eq__(self, other)\<close> is \<open>self.seq.__eq__(unwrap(other))\<close>: one \<open>__eq__\<close>, which
  may decline (\<open>None\<close>, Python's \<open>NotImplemented\<close>).
\<close>

definition arr_eq :: "heap \<Rightarrow> addr \<Rightarrow> val \<Rightarrow> bool option result" where
  "arr_eq h self other =
     rbind (arr_seq h self)
       (\<lambda>s. case (deref h s, deref h (unwrap h other)) of
              (Some x, Some y) \<Rightarrow> Inr (eq_method x y)
            | _ \<Rightarrow> Inl RecursionError)"

section \<open>Iteration and \<open>extend\<close>\<close>

text \<open>\<open>__iter__\<close> and \<open>__reversed__\<close> return the \<open>Iterator\<close> class that wraps each item.\<close>

definition arr_iter :: "heap \<Rightarrow> addr \<Rightarrow> py_iter result" where
  "arr_iter h self = rbind (arr_seq h self) (\<lambda>s. map_sum id WrapIter (builtin_iter h s))"

definition arr_reversed :: "heap \<Rightarrow> addr \<Rightarrow> py_iter result" where
  "arr_reversed h self =
     rbind (arr_items h self)
       (\<lambda>(a, k, xs). if k = SList then Inr (WrapIter (RevIter a (int (length xs) - 1)))
                    else Inl AttributeError)"

text \<open>\<open>iter(values)\<close> at the head of a \<open>for\<close> loop: a wrapper's own \<open>__iter__\<close>, else the builtin's.\<close>

definition py_iter_of :: "heap \<Rightarrow> val \<Rightarrow> py_iter result" where
  "py_iter_of h v =
     (case v of
        VRef a \<Rightarrow>
          (case objs h a of
             Some (OJSONarray _) \<Rightarrow> arr_iter h a
           | Some (OJSONobj _) \<Rightarrow> obj_iter h a
           | _ \<Rightarrow> builtin_iter h v)
      | _ \<Rightarrow> builtin_iter h v)"

text \<open>
  The loop \<open>for v in values: self.append(unwrap(v))\<close>, one step per unit of fuel;
  \<open>None\<close> when the fuel runs out before the iterator is exhausted.
\<close>

fun extend_loop :: "nat \<Rightarrow> heap \<Rightarrow> addr \<Rightarrow> py_iter \<Rightarrow> heap result option" where
  "extend_loop 0 h self it = None"
| "extend_loop (Suc n) h self it =
     (case iter_next h it of
        Inl e \<Rightarrow> Some (Inl e)
      | Inr (None, h') \<Rightarrow> Some (Inr h')
      | Inr (Some (v, it'), h') \<Rightarrow>
          (case arr_append h' self (unwrap h' v) of
             Inl e \<Rightarrow> Some (Inl e)
           | Inr h'' \<Rightarrow> extend_loop n h'' self it'))"

text \<open>
  \<open>extend(self, values)\<close>: when \<open>values is self\<close> the loop runs over a fresh list copied
  from \<open>self.seq\<close>; otherwise over \<open>values\<close> itself.
\<close>

definition arr_extend :: "nat \<Rightarrow> heap \<Rightarrow> addr \<Rightarrow> val \<Rightarrow> heap result option" where
  "arr_extend fuel h self values =
     (let src =
        (if values = VRef self
         then rbind (arr_items h self)
                (\<lambda>(a, k, xs). let (c, h1) = alloc (OList xs) h
                             in map_sum id (\<lambda>it. (it, h1)) (builtin_iter h1 (VRef c)))
         else map_sum id (\<lambda>it. (it, h)) (py_iter_of h values))
      in case src of
           Inl e \<Rightarrow> Some (Inl e)
         | Inr (it, h1) \<Rightarrow> extend_loop fuel h1 self it)"

text \<open>\<open>self += values\<close>: \<open>extend\<close>, then the same instance is the result.\<close>

definition arr_iadd :: "nat \<Rightarrow> heap \<Rightarrow> addr \<Rightarrow> val \<Rightarrow> (val \<times> heap) result option" where
  "arr_iadd fuel h self values =
     map_option (map_sum id (\<lambda>h'. (VRef self, h'))) (arr_extend fuel h self values)"

lemmas arr_iter_defs [py_simps] = arr_iter_def arr_reversed_def py_iter_of_def arr_extend_def
  arr_iadd_def

lemmas arr_defs [py_simps] = arr_seq_def seq_items_def arr_items_def arr_list_def
  arr_init_def arr_len_def arr_contains_def arr_getitem_def arr_setitem_def arr_delitem_def
  arr_index_def arr_count_def arr_insert_def arr_append_def arr_clear_def arr_reverse_def
  arr_pop_def arr_remove_def arr_eq_def

section \<open>Properties\<close>

lemma arr_list_Inr: "arr_list h self = Inr (a, xs) \<Longrightarrow> objs h a = Some (OList xs)"
  by (auto simp: arr_list_def arr_items_def arr_seq_def seq_items_def rbind_eq_Inr
           split: option.splits obj.splits val.splits if_splits)

lemma arr_items_Inr:
  "arr_items h self = Inr (a, k, xs) \<Longrightarrow>
   objs h a = Some (OList xs) \<or> objs h a = Some (OTuple xs)"
  by (auto simp: arr_items_def arr_seq_def seq_items_def rbind_eq_Inr
           split: option.splits obj.splits val.splits)

lemma arr_items_list:
  "objs h self = Some (OJSONarray (VRef a)) \<Longrightarrow> objs h a = Some (OList xs) \<Longrightarrow>
   arr_items h self = Inr (a, SList, xs)"
  by (simp add: arr_items_def arr_seq_def seq_items_def)

lemma arr_list_list:
  "objs h self = Some (OJSONarray (VRef a)) \<Longrightarrow> objs h a = Some (OList xs) \<Longrightarrow>
   arr_list h self = Inr (a, xs)"
  by (simp add: arr_list_def arr_items_list)

lemma arr_list_tuple:
  "objs h self = Some (OJSONarray (VRef a)) \<Longrightarrow> objs h a = Some (OTuple xs) \<Longrightarrow>
   arr_list h self = Inl AttributeError"
  by (simp add: arr_list_def arr_items_def arr_seq_def seq_items_def)

text \<open>
  C7: \<open>arr[i]\<close>, \<open>arr[i] = v\<close> and \<open>del arr[i]\<close> raise IndexError exactly when the index is outside \<open>[-len, len)\<close>; negative indices count from the end, and assignment never grows the list.
\<close>

theorem arr_item_IndexError:
  assumes "arr_list h self = Inr (a, xs)"
  shows "(arr_getitem h self i = Inl IndexError \<longleftrightarrow> i < - int (length xs) \<or> int (length xs) \<le> i) \<and>
         (arr_setitem h self i v = Inl IndexError \<longleftrightarrow> i < - int (length xs) \<or> int (length xs) \<le> i) \<and>
         (arr_delitem h self i = Inl IndexError \<longleftrightarrow> i < - int (length xs) \<or> int (length xs) \<le> i)"
proof -
  have "arr_items h self = Inr (a, SList, xs)"
    using assms by (auto simp: arr_list_def rbind_eq_Inr split: if_splits)
  then show ?thesis using assms py_norm_index_None [of i "length xs"]
    by (auto simp: arr_getitem_def arr_setitem_def arr_delitem_def split: option.splits)
qed

theorem arr_item_IndexError_witness:
  "arr_getitem test_heap 2 2 = Inl IndexError \<and> arr_getitem test_heap 2 (-2) \<noteq> Inl IndexError \<and>
   arr_setitem test_heap 2 2 (VStr ''x'') = Inl IndexError \<and>
   arr_setitem test_heap 2 (-2) (VStr ''x'') \<noteq> Inl IndexError \<and>
   arr_delitem test_heap 2 (-3) = Inl IndexError \<and> arr_delitem test_heap 2 1 \<noteq> Inl IndexError"
proof -
  have l: "arr_list test_heap 2 = Inr (1, [VStr ''value1'', VRef 0])"
    by (simp add: test_heap_def arr_list_list)
  show ?thesis
    using arr_item_IndexError [OF l, of 2 "VStr ''x''"] arr_item_IndexError [OF l, of "-2" "VStr ''x''"]
          arr_item_IndexError [OF l, of "-3" "VStr ''x''"] arr_item_IndexError [OF l, of 1 "VStr ''x''"]
    by simp
qed

text \<open>
  C8: \<open>arr[i]\<close> returns the element at the normalised index converted by \<open>wrap\<close>: read out as a tree, the result is the element with a wrapper around it when it is a dict or list.
\<close>

theorem arr_getitem_wraps:
  assumes "arr_items h self = Inr (a, k, xs)" and "heap_ok h"
    and "py_norm_index i (length xs) = Some j" and "deref_n n h (xs ! j) = Some t"
  shows "\<exists>w h'. arr_getitem h self i = Inr (w, h') \<and> deref_n (Suc n) h' w = Some (pv_wrap t)"
  using assms deref_n_wrap [of h n "xs ! j" t]
  by (simp add: arr_getitem_def) (metis prod.collapse)

theorem arr_getitem_wraps_witness:
  "\<exists>w h'. arr_getitem test_heap 2 (-1) = Inr (w, h') \<and>
          deref_n 2 h' w = Some (PJSONobj (PDict [(''foo'', PStr ''bar'')]))"
proof -
  have i: "arr_items test_heap 2 = Inr (1, SList, [VStr ''value1'', VRef 0])"
    by (simp add: test_heap_def arr_items_list)
  have j: "py_norm_index (-1) (length [VStr ''value1'', VRef 0]) = Some 1"
    by (simp add: py_norm_index_def)
  have d: "deref_n 1 test_heap ([VStr ''value1'', VRef 0] ! 1) = Some (PDict [(''foo'', PStr ''bar'')])"
    by (simp add: test_heap_def)
  show ?thesis
    using arr_getitem_wraps [OF i test_heap_ok j d] by (simp add: pv_wrap_def numeral_2_eq_2)
qed

text \<open>
  C9: \<open>arr.append(v)\<close> appends the unwrapped value to the end of the shared list and changes nothing else of it.
\<close>

theorem arr_append_appends:
  assumes "objs h self = Some (OJSONarray (VRef a))" and "objs h a = Some (OList xs)"
    and "a \<noteq> self"
  shows "\<exists>h'. arr_append h self v = Inr h' \<and> arr_items h' self = Inr (a, SList, xs @ [unwrap h v])"
  using assms by (simp add: arr_append_def arr_list_list arr_items_list objs_set_obj)

theorem arr_append_appends_witness:
  "\<exists>h'. arr_append test_heap 2 (VRef 9) = Inr h' \<and>
        arr_items h' 2 = Inr (1, SList, [VStr ''value1'', VRef 0, VRef 0])"
  using arr_append_appends [of test_heap 2 1 "[VStr ''value1'', VRef 0]" "VRef 9"]
  by (simp add: test_heap_def unwrap_def)

text \<open>
  C12: \<open>arr.pop()\<close> removes the last element and returns it wrapped; on an empty list it raises IndexError.
\<close>

theorem arr_pop_default:
  assumes "objs h self = Some (OJSONarray (VRef a))" and "objs h a = Some (OList xs)"
  shows "arr_pop h self (-1) =
           (if xs = [] then Inl IndexError
            else Inr (wrap (set_obj a (OList (butlast xs)) h) (last xs)))"
proof (cases "xs = []")
  case True
  with assms show ?thesis by (simp add: arr_pop_def arr_list_list py_norm_index_def)
next
  case False
  with assms remove_nth_last [OF False] show ?thesis
    by (simp add: arr_pop_def arr_list_list py_norm_index_last last_conv_nth)
qed

theorem arr_pop_default_witness:
  "arr_pop test_heap 2 (-1) = Inr (wrap (set_obj 1 (OList [VStr ''value1'']) test_heap) (VRef 0)) \<and>
   arr_pop test_heap 6 (-1) \<noteq> Inl IndexError"
  using arr_pop_default [of test_heap 2 1 "[VStr ''value1'', VRef 0]"] arr_pop_default [of test_heap 6 1 "[VStr ''value1'', VRef 0]"]
  by (simp add: test_heap_def)

text \<open>
  C13: \<open>arr.index(v)\<close> with its default \<open>stop=-1\<close> searches only up to the last element, excluding it: a value present only in the last position raises ValueError.
\<close>

theorem arr_index_default_skips_last:
  assumes "arr_items h self = Inr (a, k, xs)"
    and "seq_find h (unwrap h v) (butlast xs) = Inr None"
  shows "arr_index h self v 0 (-1) = Inl ValueError"
proof -
  have "py_clamp_index (-1) (length xs) = length xs - 1"
    by (cases xs) (simp_all add: py_clamp_index_def)
  moreover have "py_clamp_index 0 (length xs) = 0" by (simp add: py_clamp_index_def)
  ultimately show ?thesis
    using assms by (simp add: arr_index_def Let_def butlast_conv_take)
qed

theorem arr_index_default_skips_last_witness:
  "arr_index test_heap 2 (VRef 9) 0 (-1) = Inl ValueError"
  using arr_index_default_skips_last [of test_heap 2 1 SList "[VStr ''value1'', VRef 0]" "VRef 9"]
  by (simp add: test_heap_def arr_items_list unwrap_def py_simps)

text \<open>
  \<open>arr.insert(i, v)\<close> stores \<open>v\<close> as given: a wrapper inserted into the array stays a wrapper inside the raw list, the one mutator that does not unwrap.
\<close>

lemma arr_insert_keeps_wrapper:
  assumes "objs h self = Some (OJSONarray (VRef a))" and "objs h a = Some (OList xs)"
    and "is_wrapper_ref h v" and "a \<noteq> self"
    and "\<And>b. v = VRef b \<Longrightarrow> b \<noteq> a"
  shows "\<exists>h' ys. arr_insert h self i v = Inr h' \<and> arr_items h' self = Inr (a, SList, ys) \<and>
                 v \<in> set ys \<and> is_wrapper_ref h' v"
  using assms
  by (auto simp: arr_insert_def arr_list_list arr_items_list objs_set_obj set_insert_nth
                 py_clamp_index_le is_wrapper_ref_def split: val.splits)

lemma is_wrapper_ref_set_list:
  "objs h a = Some (OList zs) \<Longrightarrow> is_wrapper_ref (set_obj a (OList ys) h) v = is_wrapper_ref h v"
  by (auto simp: is_wrapper_ref_def objs_set_obj split: val.splits option.splits obj.splits)

lemma is_wrapper_ref_alloc_list:
  "heap_ok h \<Longrightarrow> is_wrapper_ref (snd (alloc (OList ys) h)) v = is_wrapper_ref h v"
  by (auto simp: is_wrapper_ref_def objs_alloc heap_ok_def split: val.splits option.splits obj.splits)

text \<open>The loop over a snapshot \<open>c\<close> of the list appends the rest of the snapshot.\<close>

lemma extend_loop_snapshot:
  assumes "objs h self = Some (OJSONarray (VRef l))" and "objs h l = Some (OList zs)"
    and "objs h c = Some (OList ys)" and "c \<noteq> l"
    and "\<forall>x \<in> set ys. \<not> is_wrapper_ref h x" and "length ys - i = k" and "i \<le> length ys"
  shows "\<exists>h'. extend_loop (Suc k) h self (SeqIter c i) = Some (Inr h') \<and>
              objs h' self = objs h self \<and> objs h' l = Some (OList (zs @ drop i ys))"
  using assms
proof (induction k arbitrary: i h zs)
  case 0
  then show ?case by simp
next
  case (Suc k)
  then have i: "i < length ys" by simp
  have sl: "self \<noteq> l" using Suc.prems(1,2) by auto
  have nw: "\<not> is_wrapper_ref h (ys ! i)" using Suc.prems(5) i by simp
  define h2 where "h2 = set_obj l (OList (zs @ [ys ! i])) h"
  have step: "extend_loop (Suc (Suc k)) h self (SeqIter c i) = extend_loop (Suc k) h2 self (SeqIter c (Suc i))"
    using Suc.prems(1-3) i nw by (simp add: h2_def arr_append_def arr_list_list)
  have "\<exists>h'. extend_loop (Suc k) h2 self (SeqIter c (Suc i)) = Some (Inr h') \<and>
              objs h' self = objs h2 self \<and> objs h' l = Some (OList ((zs @ [ys ! i]) @ drop (Suc i) ys))"
    using Suc.prems Suc.IH [of h2 "zs @ [ys ! i]" "Suc i"] i sl
    by (simp add: h2_def objs_set_obj is_wrapper_ref_set_list)
  then show ?case
    using step sl i by (simp add: h2_def objs_set_obj Cons_nth_drop_Suc)
qed

text \<open>
  C3: \<open>arr.extend(arr)\<close> stops: the self-guard copies the list first, so with enough fuel (one step per element plus one) the loop ends and the list is doubled.
\<close>

theorem arr_extend_self_doubles:
  assumes ok: "heap_ok h" and self: "objs h self = Some (OJSONarray (VRef l))"
    and l: "objs h l = Some (OList xs)" and nw: "\<forall>x \<in> set xs. \<not> is_wrapper_ref h x"
  shows "\<exists>h'. arr_extend (Suc (length xs)) h self (VRef self) = Some (Inr h') \<and>
              arr_items h' self = Inr (l, SList, xs @ xs)"
proof -
  define c where "c = next_addr h"
  define h1 where "h1 = snd (alloc (OList xs) h)"
  have fresh: "objs h c = None" using ok by (simp add: c_def alloc_fresh)
  have h1: "objs h1 self = objs h self" "objs h1 l = objs h l" "objs h1 c = Some (OList xs)"
    using self l fresh by (auto simp: h1_def objs_alloc c_def)
  have cl: "c \<noteq> l" using fresh l by auto
  have nw1: "\<forall>x \<in> set xs. \<not> is_wrapper_ref h1 x"
    using nw ok by (simp add: h1_def is_wrapper_ref_alloc_list)
  have ext: "arr_extend (Suc (length xs)) h self (VRef self) =
             extend_loop (Suc (length xs)) h1 self (SeqIter c 0)"
    using self l by (simp add: arr_extend_def arr_items_list alloc_def builtin_iter_def h1_def c_def)
  obtain h' where "extend_loop (Suc (length xs)) h1 self (SeqIter c 0) = Some (Inr h')"
    and "objs h' self = objs h1 self" and "objs h' l = Some (OList (xs @ drop 0 xs))"
    using extend_loop_snapshot [of h1 self l xs c xs 0 "length xs"] h1 self l cl nw1 by auto
  with ext h1 self show ?thesis by (auto simp: arr_items_list)
qed

theorem arr_extend_self_doubles_witness:
  "\<exists>h'. arr_extend 3 test_heap 2 (VRef 2) = Some (Inr h') \<and>
        arr_items h' 2 = Inr (1, SList, [VStr ''value1'', VRef 0, VStr ''value1'', VRef 0])"
proof -
  have "\<exists>h'. arr_extend (Suc (length [VStr ''value1'', VRef 0])) test_heap 2 (VRef 2) = Some (Inr h') \<and>
             arr_items h' 2 = Inr (1, SList, [VStr ''value1'', VRef 0] @ [VStr ''value1'', VRef 0])"
    by (rule arr_extend_self_doubles [OF test_heap_ok])
       (simp_all add: test_heap_def is_wrapper_ref_def)
  then show ?thesis by (simp add: numeral_3_eq_3)
qed

text \<open>The loop over a wrapper whose list is the one being extended never reaches its end.\<close>

lemma extend_loop_alias:
  assumes "heap_ok h" and "objs h self = Some (OJSONarray (VRef l))"
    and "objs h l = Some (OList ys)" and "i < length ys"
  shows "extend_loop n h self (WrapIter (SeqIter l i)) = None"
  using assms
proof (induction n arbitrary: h ys i)
  case 0
  then show ?case by simp
next
  case (Suc n)
  have sl: "self \<noteq> l" using Suc.prems(2,3) by auto
  obtain w h1 where wr: "wrap h (ys ! i) = (w, h1)" by fastforce
  have ok1: "heap_ok h1" using heap_ok_wrap [OF Suc.prems(1), of "ys ! i"] wr by simp
  have hx: "hext h h1" using hext_wrap [OF Suc.prems(1), of "ys ! i"] wr by simp
  then have s1: "objs h1 self = Some (OJSONarray (VRef l))" and l1: "objs h1 l = Some (OList ys)"
    using Suc.prems(2,3) by (auto simp: hext_def)
  define h2 where "h2 = set_obj l (OList (ys @ [unwrap h1 (unwrap h1 w)])) h1"
  have step: "extend_loop (Suc n) h self (WrapIter (SeqIter l i)) =
              extend_loop n h2 self (WrapIter (SeqIter l (Suc i)))"
    using Suc.prems(3,4) wr s1 l1 by (simp add: h2_def arr_append_def arr_list_list)
  have "extend_loop n h2 self (WrapIter (SeqIter l (Suc i))) = None"
    using Suc.IH [of h2 "ys @ [unwrap h1 (unwrap h1 w)]" "Suc i"] ok1 s1 l1 sl Suc.prems(4)
    by (simp add: h2_def objs_set_obj heap_ok_set_obj)
  with step show ?case by simp
qed

text \<open>
  C4: \<open>arr.extend(other)\<close> where \<open>other\<close> is a second wrapper over the same non-empty
  list never stops: the guard compares wrapper identity, the loop appends to the list it
  iterates, and no amount of fuel reaches the end.
\<close>

theorem arr_extend_alias_diverges:
  assumes "heap_ok h" and "objs h self = Some (OJSONarray (VRef l))"
    and "objs h other = Some (OJSONarray (VRef l))" and "other \<noteq> self"
    and "objs h l = Some (OList xs)" and "xs \<noteq> []"
  shows "arr_extend fuel h self (VRef other) = None"
  using assms extend_loop_alias [of h self l xs 0 fuel]
  by (simp add: arr_extend_def py_iter_of_def arr_iter_def arr_seq_def builtin_iter_def)

theorem arr_extend_alias_diverges_witness:
  "arr_extend 1000 test_heap 2 (VRef 6) = None"
  using arr_extend_alias_diverges [of test_heap 2 1 6 "[VStr ''value1'', VRef 0]" 1000] test_heap_ok
  by (simp add: test_heap_def)

text \<open>Comparing against a wrapper or against its contents gives the same answer.\<close>

lemma heap_eq_unwrap_right:
  assumes "deref h v = Some tv" and "wf_pv tv"
    and "\<forall>t. deref h x = Some t \<longrightarrow> wf_pv t"
  shows "heap_eq h x v = heap_eq h x (unwrap h v)"
proof -
  have u: "deref h (unwrap h v) = Some (pv_unwrap tv)"
    using assms(1) deref_n_unwrap [of 999 h v tv] by (simp add: deref_def recursion_limit_def)
  have wu: "wf_pv (pv_unwrap tv)" using assms(2) by (cases tv) (simp_all add: pv_unwrap_def)
  show ?thesis
  proof (cases "deref h x")
    case None
    then show ?thesis by (simp add: heap_eq_def)
  next
    case (Some tx)
    with assms(3) have "wf_pv tx" by simp
    then have "py_eq tx tv = py_eq tx (pv_unwrap tv)"
      using assms(2) wu by (simp add: py_eq_strip [of tx])
    with Some assms(1) u show ?thesis by (simp add: heap_eq_def)
  qed
qed

lemma seq_find_unwrap:
  assumes "deref h v = Some tv" and "wf_pv tv"
    and "\<forall>x \<in> set xs. \<forall>t. deref h x = Some t \<longrightarrow> wf_pv t"
  shows "seq_find h v xs = seq_find h (unwrap h v) xs"
  using assms(3)
proof (induction xs)
  case Nil
  then show ?case by simp
next
  case (Cons x xs)
  then have IH: "seq_find h v xs = seq_find h (unwrap h v) xs" by simp
  from Cons.prems have "heap_eq h x v = heap_eq h x (unwrap h v)"
    by (simp add: heap_eq_unwrap_right [OF assms(1,2)])
  then show ?case by (simp only: seq_find.simps IH)
qed

text \<open>
  C15: \<open>arr.remove(v)\<close> passes \<open>v\<close> on without unwrapping, yet removes the same element
  as a call with the unwrapped value: the reflected \<open>__eq__\<close> of the wrapper makes
  the list's comparison see through it.
\<close>

theorem arr_remove_unwrap_equiv:
  assumes "deref h v = Some tv" and "wf_pv tv"
    and "arr_list h self = Inr (a, xs)"
    and "\<forall>x \<in> set xs. \<forall>t. deref h x = Some t \<longrightarrow> wf_pv t"
  shows "arr_remove h self v = arr_remove h self (unwrap h v)"
  using assms by (simp add: arr_remove_def seq_find_unwrap [OF assms(1,2,4)])

theorem arr_remove_unwrap_equiv_witness:
  "arr_remove test_heap 2 (VRef 9) = arr_remove test_heap 2 (VRef 0) \<and>
   arr_remove test_heap 2 (VRef 0) = Inr (set_obj 1 (OList [VStr ''value1'']) test_heap)"
proof -
  have d: "deref test_heap (VRef 9) = Some (PJSONobj (PDict [(''foo'', PStr ''bar'')]))"
    by (simp add: test_heap_def py_simps)
  have l: "arr_list test_heap 2 = Inr (1, [VStr ''value1'', VRef 0])"
    by (simp add: test_heap_def arr_list_list)
  have wf: "\<forall>x \<in> set [VStr ''value1'', VRef 0]. \<forall>t. deref test_heap x = Some t \<longrightarrow> wf_pv t"
    by (simp add: test_heap_def py_simps)
  have "arr_remove test_heap 2 (VRef 9) = arr_remove test_heap 2 (VRef 0)"
    using arr_remove_unwrap_equiv [OF d _ l wf] by (simp add: test_heap_def unwrap_def)
  moreover have "arr_remove test_heap 2 (VRef 0) = Inr (set_obj 1 (OList [VStr ''value1'']) test_heap)"
    by (simp add: arr_remove_def l test_heap_def py_simps remove_nth_def)
  ultimately show ?thesis by simp
qed

text \<open>
  C21: \<open>arr.append(v)\<close> followed by \<open>arr.pop()\<close> returns \<open>wrap(unwrap(v))\<close> and restores the heap exactly.
\<close>

theorem arr_append_pop_roundtrip:
  assumes "objs h self = Some (OJSONarray (VRef a))" and "objs h a = Some (OList xs)"
    and "a \<noteq> self"
  shows "\<exists>h'. arr_append h self v = Inr h' \<and> arr_pop h' self (-1) = Inr (wrap h (unwrap h v))"
proof -
  let ?h = "set_obj a (OList (xs @ [unwrap h v])) h"
  have "arr_pop ?h self (-1) = Inr (wrap (set_obj a (OList xs) ?h) (unwrap h v))"
    using assms arr_pop_default [of ?h self a "xs @ [unwrap h v]"] by (simp add: objs_set_obj)
  with assms show ?thesis by (simp add: arr_append_def arr_list_list)
qed

theorem arr_append_pop_roundtrip_witness:
  "\<exists>h'. arr_append test_heap 2 (VRef 9) = Inr h' \<and> arr_pop h' 2 (-1) = Inr (wrap test_heap (VRef 0))"
  using arr_append_pop_roundtrip [of test_heap 2 1 "[VStr ''value1'', VRef 0]" "VRef 9"]
  by (simp add: test_heap_def unwrap_def)

text \<open>
  \<open>arr[i] = v\<close> at an index in range stores \<open>unwrap(v)\<close> there: reading \<open>arr[i]\<close> back gives it wrapped, and the length is unchanged.
\<close>

lemma arr_setitem_getitem:
  assumes "objs h self = Some (OJSONarray (VRef a))" and "objs h a = Some (OList xs)"
    and "a \<noteq> self" and j: "py_norm_index i (length xs) = Some j"
  shows "\<exists>h'. arr_setitem h self i v = Inr h' \<and>
              arr_getitem h' self i = Inr (wrap h' (unwrap h v)) \<and> arr_len h' self = Inr (length xs)"
  using assms py_norm_index_lt [OF j]
  by (simp add: arr_setitem_def arr_getitem_def arr_len_def arr_list_list arr_items_list objs_set_obj)

text \<open>
  C23: \<open>del arr[i]\<close> at an index in range removes exactly that element: the length drops by one, the elements before it keep their index and those after it move one to the left.
\<close>

theorem arr_delitem_shifts:
  assumes "objs h self = Some (OJSONarray (VRef a))" and "objs h a = Some (OList xs)"
    and "a \<noteq> self" and j: "py_norm_index i (length xs) = Some j"
  shows "\<exists>h' ys. arr_delitem h self i = Inr h' \<and> arr_items h' self = Inr (a, SList, ys) \<and>
                 length ys = length xs - 1 \<and>
                 (\<forall>k < length ys. ys ! k = (if k < j then xs ! k else xs ! Suc k))"
  using assms py_norm_index_lt [OF j]
  by (auto simp: arr_delitem_def arr_list_list arr_items_list objs_set_obj remove_nth_def nth_append
                 min_def)

theorem arr_delitem_shifts_witness:
  "\<exists>h' ys. arr_delitem test_heap 2 0 = Inr h' \<and> arr_items h' 2 = Inr (1, SList, ys) \<and>
           ys = [VRef 0]"
proof -
  have j: "py_norm_index 0 (length [VStr ''value1'', VRef 0]) = Some 0" by (simp add: py_norm_index_def)
  obtain h' ys where d: "arr_delitem test_heap 2 0 = Inr h'" and i: "arr_items h' 2 = Inr (1, SList, ys)"
    and l: "length ys = length [VStr ''value1'', VRef 0] - 1"
    and e: "\<forall>k < length ys. ys ! k = (if k < 0 then [VStr ''value1'', VRef 0] ! k
                                      else [VStr ''value1'', VRef 0] ! Suc k)"
    using arr_delitem_shifts [of test_heap 2 1 "[VStr ''value1'', VRef 0]" 0 0, OF _ _ _ j] by (auto simp: test_heap_def)
  from l e have "ys = [VRef 0]" by (cases ys) auto
  with d i show ?thesis by blast
qed

text \<open>
  C24: a \<open>JSONarray\<close> over a tuple, which \<open>wrap\<close> builds, has none of the list methods it calls: every mutating method and \<open>reversed()\<close> raise AttributeError.
\<close>

theorem arr_tuple_AttributeError:
  assumes "arr_items h self = Inr (a, STuple, xs)"
  shows "arr_setitem h self i v = Inl AttributeError \<and> arr_delitem h self i = Inl AttributeError \<and>
         arr_insert h self i v = Inl AttributeError \<and> arr_append h self v = Inl AttributeError \<and>
         arr_clear h self = Inl AttributeError \<and> arr_reverse h self = Inl AttributeError \<and>
         arr_pop h self i = Inl AttributeError \<and> arr_remove h self v = Inl AttributeError \<and>
         arr_reversed h self = Inl AttributeError"
proof -
  have "arr_list h self = Inl AttributeError" using assms by (simp add: arr_list_def)
  with assms show ?thesis
    by (simp add: arr_setitem_def arr_delitem_def arr_insert_def arr_append_def arr_clear_def
                  arr_reverse_def arr_pop_def arr_remove_def arr_reversed_def)
qed

theorem arr_tuple_AttributeError_witness:
  "arr_items test_heap 11 = Inr (10, STuple, [VStr ''foo'', VStr ''bar'']) \<and>
   arr_append test_heap 11 VNone = Inl AttributeError \<and> arr_pop test_heap 11 (-1) = Inl AttributeError \<and>
   arr_reversed test_heap 11 = Inl AttributeError"
proof -
  have i: "arr_items test_heap 11 = Inr (10, STuple, [VStr ''foo'', VStr ''bar''])"
    by (simp add: test_heap_def arr_items_def arr_seq_def seq_items_def)
  from arr_tuple_AttributeError [OF i, of "-1" VNone] i show ?thesis by simp
qed

text \<open>Iterating a \<open>JSONarray\<close> over a list to the end yields \<open>wrap\<close> of each element in order.\<close>

lemma arr_iter_forward:
  assumes "heap_ok h" and "objs h self = Some (OJSONarray (VRef a))"
    and "objs h a = Some (OList xs)" and "those (map (deref_n n h) xs) = Some ts"
  shows "\<exists>it ws h'. arr_iter h self = Inr it \<and>
                    iter_all (Suc (length xs)) h it = Some (Inr (ws, h')) \<and>
                    list_all2 (\<lambda>w t. deref_n (Suc n) h' w = Some (pv_wrap t)) ws ts"
proof -
  have "arr_iter h self = Inr (WrapIter (SeqIter a 0))"
    using assms by (simp add: arr_iter_def arr_seq_def builtin_iter_def)
  with iter_all_wrapped [OF assms(1,3,4), of 0] show ?thesis by auto
qed

lemma seq_find_count_refine:
  assumes "list_all2 (\<lambda>x t. deref h x = Some t) (xs :: val list) ts" and y: "deref h y = Some u"
  shows "\<exists>r. seq_find h y xs = Inr r \<and> (r \<noteq> None \<longleftrightarrow> (\<exists>t \<in> set ts. py_eq t u)) \<and>
             seq_count h y xs = Inr (length (filter (\<lambda>t. py_eq t u) ts))"
  using assms(1)
proof (induction rule: list_all2_induct)
  case Nil
  then show ?case by simp
next
  case (Cons x xs t ts)
  then obtain r where r: "seq_find h y xs = Inr r" and rr: "(r \<noteq> None) = (\<exists>t\<in>set ts. py_eq t u)"
    and c: "seq_count h y xs = Inr (length (filter (\<lambda>t. py_eq t u) ts))" by blast
  have e: "heap_eq h x y = Inr (py_eq t u)" using Cons.hyps y by (simp add: heap_eq_def)
  show ?case using r rr c e by auto
qed

text \<open>
  C27: \<open>v in arr\<close> and \<open>arr.count(v)\<close> compare \<open>unwrap(v)\<close> with each element by Python's \<open>==\<close>: on the trees the heap denotes they are membership and the number of equal elements.
\<close>

theorem arr_contains_count_refine:
  assumes "arr_items h self = Inr (a, k, xs)" and "those (map (deref h) xs) = Some ts"
    and "deref h item = Some t" and "wf_pv t"
  shows "arr_contains h self item = Inr (\<exists>u \<in> set ts. py_eq u (pv_unwrap t)) \<and>
         arr_count h self item = Inr (length (filter (\<lambda>u. py_eq u (pv_unwrap t)) ts))"
proof -
  have "deref h (unwrap h item) = Some (pv_unwrap t)"
    using assms(3) deref_n_unwrap [of 999 h item t] by (simp add: deref_def recursion_limit_def)
  moreover have "list_all2 (\<lambda>x t. deref h x = Some t) xs ts"
    using assms(2) by (induction xs arbitrary: ts) (auto split: option.splits)
  ultimately obtain r where "seq_find h (unwrap h item) xs = Inr r"
    and "(r \<noteq> None) = (\<exists>u\<in>set ts. py_eq u (pv_unwrap t))"
    and "seq_count h (unwrap h item) xs = Inr (length (filter (\<lambda>u. py_eq u (pv_unwrap t)) ts))"
    using seq_find_count_refine by blast
  with assms(1) show ?thesis by (simp add: arr_contains_def arr_count_def)
qed

theorem arr_contains_count_refine_witness:
  "arr_contains test_heap 2 (VRef 9) = Inr True \<and> arr_count test_heap 2 (VRef 9) = Inr 1"
proof -
  have i: "arr_items test_heap 2 = Inr (1, SList, [VStr ''value1'', VRef 0])"
    by (simp add: test_heap_def arr_items_list)
  have t: "those (map (deref test_heap) [VStr ''value1'', VRef 0]) =
             Some [PStr ''value1'', PDict [(''foo'', PStr ''bar'')]]"
    by (simp add: test_heap_def py_simps)
  have d: "deref test_heap (VRef 9) = Some (PJSONobj (PDict [(''foo'', PStr ''bar'')]))"
    by (simp add: test_heap_def py_simps)
  from arr_contains_count_refine [OF i t d] show ?thesis by (simp add: py_simps pv_unwrap_def)
qed

text \<open>\<open>==\<close>-search on the heap against the trees it denotes: the first equal element.\<close>

lemma seq_find_first:
  assumes "list_all2 (\<lambda>x t. deref h x = Some t) xs ts" and y: "deref h y = Some u"
  shows "(seq_find h y xs = Inr None \<and> (\<forall>t \<in> set ts. \<not> py_eq t u)) \<or>
         (\<exists>j. seq_find h y xs = Inr (Some j) \<and> j < length ts \<and> py_eq (ts ! j) u \<and>
              (\<forall>i < j. \<not> py_eq (ts ! i) u))"
  using assms(1)
proof (induction rule: list_all2_induct)
  case Nil
  then show ?case by simp
next
  case (Cons x xs t ts)
  have e: "heap_eq h x y = Inr (py_eq t u)" using Cons.hyps(1) y by (simp add: heap_eq_def)
  show ?case
  proof (cases "py_eq t u")
    case True
    with e show ?thesis by simp
  next
    case False
    from Cons.IH show ?thesis
    proof
      assume "seq_find h y xs = Inr None \<and> (\<forall>t \<in> set ts. \<not> py_eq t u)"
      with e False show ?thesis by simp
    next
      assume "\<exists>j. seq_find h y xs = Inr (Some j) \<and> j < length ts \<and> py_eq (ts ! j) u \<and>
                  (\<forall>i < j. \<not> py_eq (ts ! i) u)"
      then obtain j where j: "seq_find h y xs = Inr (Some j)" "j < length ts" "py_eq (ts ! j) u"
        and b: "\<forall>i < j. \<not> py_eq (ts ! i) u" by blast
      have "\<forall>i < Suc j. \<not> py_eq ((t # ts) ! i) u" using b False by (auto simp: less_Suc_eq_0_disj)
      with e False j show ?thesis by auto
    qed
  qed
qed

text \<open>
  C30: \<open>arr.index(v, start, stop)\<close> returns the first position in the clamped range \<open>[start, stop)\<close> whose element equals \<open>unwrap(v)\<close> under Python's \<open>==\<close>, and raises ValueError when there is none.
\<close>

theorem arr_index_first:
  assumes it: "arr_items h self = Inr (a, k, xs)" and t: "those (map (deref h) xs) = Some ts"
    and v: "deref h (unwrap h v) = Some u"
    and lo: "lo = py_clamp_index start (length xs)" and hi: "hi = py_clamp_index stop (length xs)"
  shows "(arr_index h self v start stop = Inl ValueError \<and>
            (\<forall>i. lo \<le> i \<longrightarrow> i < hi \<longrightarrow> \<not> py_eq (ts ! i) u)) \<or>
         (\<exists>i. arr_index h self v start stop = Inr i \<and> lo \<le> i \<and> i < hi \<and> py_eq (ts ! i) u \<and>
              (\<forall>j. lo \<le> j \<longrightarrow> j < i \<longrightarrow> \<not> py_eq (ts ! j) u))"
proof -
  have la: "list_all2 (\<lambda>x t. deref h x = Some t) xs ts" using t by (rule those_deref_list_all2)
  have len: "length ts = length xs" using la by (simp add: list_all2_lengthD)
  have hl: "hi \<le> length xs" using hi by (simp add: py_clamp_index_le)
  let ?xs = "take (hi - lo) (drop lo xs)" and ?ts = "take (hi - lo) (drop lo ts)"
  have la': "list_all2 (\<lambda>x t. deref h x = Some t) ?xs ?ts"
    using la by (intro list_all2_takeI list_all2_dropI)
  have nth: "\<And>j. j < length ?ts \<Longrightarrow> ?ts ! j = ts ! (lo + j)" by (auto simp: nth_drop)
  have lt: "length ?ts = (if lo \<le> hi then hi - lo else 0)" using len hl by auto
  have r: "arr_index h self v start stop =
             rbind (seq_find h (unwrap h v) ?xs)
               (\<lambda>r. case r of None \<Rightarrow> Inl ValueError | Some j \<Rightarrow> Inr (lo + j))"
    unfolding lo hi using it by (simp add: arr_index_def Let_def)
  from seq_find_first [OF la' v] show ?thesis
  proof
    assume n: "seq_find h (unwrap h v) ?xs = Inr None \<and> (\<forall>t \<in> set ?ts. \<not> py_eq t u)"
    have "\<forall>i. lo \<le> i \<longrightarrow> i < hi \<longrightarrow> \<not> py_eq (ts ! i) u"
    proof (intro allI impI)
      fix i assume "lo \<le> i" "i < hi"
      then have "i - lo < length ?ts" and "?ts ! (i - lo) = ts ! i" using lt nth by auto
      then show "\<not> py_eq (ts ! i) u" using n by (metis nth_mem)
    qed
    with n r show ?thesis by simp
  next
    assume "\<exists>j. seq_find h (unwrap h v) ?xs = Inr (Some j) \<and> j < length ?ts \<and> py_eq (?ts ! j) u \<and>
                (\<forall>i < j. \<not> py_eq (?ts ! i) u)"
    then obtain j where s: "seq_find h (unwrap h v) ?xs = Inr (Some j)" and jl: "j < length ?ts"
      and e: "py_eq (?ts ! j) u" and b: "\<forall>i < j. \<not> py_eq (?ts ! i) u" by blast
    have "\<forall>i. lo \<le> i \<longrightarrow> i < lo + j \<longrightarrow> \<not> py_eq (ts ! i) u"
    proof (intro allI impI)
      fix i assume "lo \<le> i" "i < lo + j"
      then have "i - lo < j" and "?ts ! (i - lo) = ts ! i" using jl nth by auto
      then show "\<not> py_eq (ts ! i) u" using b by metis
    qed
    moreover have "lo + j < hi" using jl lt by (auto split: if_splits)
    ultimately show ?thesis using s r e nth [OF jl] by auto
  qed
qed

theorem arr_index_first_witness:
  "arr_index test_heap 2 (VRef 9) 0 2 = Inr 1"
proof -
  have i: "arr_items test_heap 2 = Inr (1, SList, [VStr ''value1'', VRef 0])"
    by (simp add: test_heap_def arr_items_list)
  have t: "those (map (deref test_heap) [VStr ''value1'', VRef 0]) = Some [PStr ''value1'', PDict [(''foo'', PStr ''bar'')]]"
    by (simp add: test_heap_def py_simps)
  have d: "deref test_heap (unwrap test_heap (VRef 9)) = Some (PDict [(''foo'', PStr ''bar'')])"
    by (simp add: test_heap_def py_simps)
  have e0: "\<not> py_eq (PStr ''value1'') (PDict [(''foo'', PStr ''bar'')])"
    and e1: "py_eq (PDict [(''foo'', PStr ''bar'')]) (PDict [(''foo'', PStr ''bar'')])"
    by (simp_all add: py_eq.simps)
  from arr_index_first [where start = 0 and stop = 2, OF i t d refl refl] e0 e1 show ?thesis
    unfolding py_clamp_index_def by (auto simp: less_Suc_eq numeral_2_eq_2)
qed

lemma seq_find_bound: "seq_find h y xs = Inr (Some j) \<Longrightarrow> j < length xs"
proof (induction xs arbitrary: j)
  case (Cons x xs)
  then show ?case by (cases "heap_eq h x y"; cases "seq_find h y xs") (auto split: if_splits option.splits)
qed simp

text \<open>
  C20: whatever \<open>arr.index(v, start, stop)\<close> returns lies in the clamped window \<open>[start, stop)\<close>, hence in \<open>[0, len)\<close>; with the default \<open>stop=-1\<close> it is below \<open>len - 1\<close>.
\<close>

theorem arr_index_bounds:
  assumes it: "arr_items h self = Inr (a, k, xs)" and r: "arr_index h self v start stop = Inr i"
  shows "py_clamp_index start (length xs) \<le> i \<and> i < py_clamp_index stop (length xs) \<and>
         i < length xs \<and> (stop = -1 \<longrightarrow> Suc i < length xs)"
proof -
  let ?lo = "py_clamp_index start (length xs)" and ?hi = "py_clamp_index stop (length xs)"
  from it r obtain j where f: "seq_find h (unwrap h v) (take (?hi - ?lo) (drop ?lo xs)) = Inr (Some j)"
    and i: "i = ?lo + j"
    by (auto simp: arr_index_def Let_def rbind_eq_Inr split: option.splits)
  have "j < ?hi - ?lo" using seq_find_bound [OF f] by simp
  with i have lt: "?lo \<le> i \<and> i < ?hi" by simp
  moreover have "?hi \<le> length xs" by (rule py_clamp_index_le)
  moreover have "stop = -1 \<Longrightarrow> ?hi = length xs - 1"
    by (cases xs) (simp_all add: py_clamp_index_def)
  ultimately show ?thesis by auto
qed

theorem arr_index_bounds_witness:
  "arr_index test_heap 2 (VStr ''value1'') 0 (-1) = Inr 0 \<and> 0 \<le> (0::nat) \<and> 0 < (1::nat) \<and>
   (0::nat) < 2 \<and> Suc 0 < 2"
proof -
  have it: "arr_items test_heap 2 = Inr (1, SList, [VStr ''value1'', VRef 0])"
    by (simp add: test_heap_def arr_items_list)
  have r: "arr_index test_heap 2 (VStr ''value1'') 0 (-1) = Inr 0"
    by (simp add: arr_index_def test_heap_def arr_items_list py_clamp_index_def py_simps)
  from arr_index_bounds [OF it r] r show ?thesis by (simp add: py_clamp_index_def)
qed

text \<open>
  C31: \<open>arr.remove(v)\<close> deletes the first element equal to \<open>v\<close> under Python's \<open>==\<close> and raises ValueError when there is none.
\<close>

theorem arr_remove_first:
  assumes l: "arr_list h self = Inr (a, xs)" and t: "those (map (deref h) xs) = Some ts"
    and v: "deref h v = Some u"
  shows "(arr_remove h self v = Inl ValueError \<and> (\<forall>t \<in> set ts. \<not> py_eq t u)) \<or>
         (\<exists>j. arr_remove h self v = Inr (set_obj a (OList (remove_nth j xs)) h) \<and>
              j < length xs \<and> py_eq (ts ! j) u \<and> (\<forall>i < j. \<not> py_eq (ts ! i) u))"
proof -
  have la: "list_all2 (\<lambda>x t. deref h x = Some t) xs ts" using t by (rule those_deref_list_all2)
  then have "length ts = length xs" by (simp add: list_all2_lengthD)
  with seq_find_first [OF la v] l show ?thesis by (auto simp: arr_remove_def)
qed

theorem arr_remove_first_witness:
  "arr_remove test_heap 2 (VRef 0) = Inr (set_obj 1 (OList [VStr ''value1'']) test_heap)"
proof -
  have l: "arr_list test_heap 2 = Inr (1, [VStr ''value1'', VRef 0])" by (simp add: test_heap_def arr_list_list)
  have t: "those (map (deref test_heap) [VStr ''value1'', VRef 0]) = Some [PStr ''value1'', PDict [(''foo'', PStr ''bar'')]]"
    by (simp add: test_heap_def py_simps)
  have d: "deref test_heap (VRef 0) = Some (PDict [(''foo'', PStr ''bar'')])"
    by (simp add: test_heap_def py_simps)
  have e0: "\<not> py_eq (PStr ''value1'') (PDict [(''foo'', PStr ''bar'')])"
    and e1: "py_eq (PDict [(''foo'', PStr ''bar'')]) (PDict [(''foo'', PStr ''bar'')])"
    by (simp_all add: py_eq.simps)
  from arr_remove_first [OF l t d] e0 e1 show ?thesis
    by (auto simp: less_Suc_eq remove_nth_def)
qed

text \<open>\<open>reversed(arr)\<close> over a list yields \<open>wrap\<close> of each element from the last to the first.\<close>

lemma arr_iter_reversed:
  assumes "heap_ok h" and "objs h self = Some (OJSONarray (VRef a))"
    and "objs h a = Some (OList xs)" and "those (map (deref_n n h) xs) = Some ts"
  shows "\<exists>it ws h'. arr_reversed h self = Inr it \<and>
                    iter_all (Suc (length xs)) h it = Some (Inr (ws, h')) \<and>
                    list_all2 (\<lambda>w t. deref_n (Suc n) h' w = Some (pv_wrap t)) ws (rev ts)"
proof -
  have "length ts = length xs" using those_map_nth [OF assms(4)] by simp
  moreover have "arr_reversed h self = Inr (WrapIter (RevIter a (int (length xs) - 1)))"
    using assms(2,3) by (simp add: arr_reversed_def arr_items_list)
  ultimately show ?thesis using iter_all_wrapped_rev [OF assms(1,3,4), of "length xs"] by auto
qed

text \<open>
  C26: iterating a \<open>JSONarray\<close> over a list to the end, forwards (\<open>__iter__\<close>) or backwards (\<open>__reversed__\<close>), yields \<open>wrap\<close> of each element: read out as trees, the elements in order, or in reverse order, each with a wrapper around it when it is a dict or list.
\<close>

theorem arr_iter_wraps:
  assumes "heap_ok h" and "objs h self = Some (OJSONarray (VRef a))"
    and "objs h a = Some (OList xs)" and "those (map (deref_n n h) xs) = Some ts"
  shows "(\<exists>it ws h'. arr_iter h self = Inr it \<and>
                    iter_all (Suc (length xs)) h it = Some (Inr (ws, h')) \<and>
                    list_all2 (\<lambda>w t. deref_n (Suc n) h' w = Some (pv_wrap t)) ws ts) \<and>
         (\<exists>it ws h'. arr_reversed h self = Inr it \<and>
                    iter_all (Suc (length xs)) h it = Some (Inr (ws, h')) \<and>
                    list_all2 (\<lambda>w t. deref_n (Suc n) h' w = Some (pv_wrap t)) ws (rev ts))"
  using arr_iter_forward [OF assms] arr_iter_reversed [OF assms] by blast

theorem arr_iter_wraps_witness:
  "(\<exists>it ws h'. arr_iter test_heap 2 = Inr it \<and> iter_all 3 test_heap it = Some (Inr (ws, h')) \<and>
     list_all2 (\<lambda>w t. deref_n 2 h' w = Some (pv_wrap t)) ws
       [PStr ''value1'', PDict [(''foo'', PStr ''bar'')]]) \<and>
   (\<exists>it ws h'. arr_reversed test_heap 2 = Inr it \<and> iter_all 3 test_heap it = Some (Inr (ws, h')) \<and>
     list_all2 (\<lambda>w t. deref_n 2 h' w = Some (pv_wrap t)) ws
       [PDict [(''foo'', PStr ''bar'')], PStr ''value1''])"
proof -
  have o1: "objs test_heap 2 = Some (OJSONarray (VRef 1))"
    and o2: "objs test_heap 1 = Some (OList [VStr ''value1'', VRef 0])" by (simp_all add: test_heap_def)
  have t: "those (map (deref_n 1 test_heap) [VStr ''value1'', VRef 0]) =
             Some [PStr ''value1'', PDict [(''foo'', PStr ''bar'')]]"
    by (simp add: test_heap_def)
  from arr_iter_wraps [OF test_heap_ok o1 o2 t]
  show ?thesis by (simp add: numeral_2_eq_2 numeral_3_eq_3)
qed

text \<open>
  \<open>==\<close> between wrappers, or a wrapper and a native value, is \<open>==\<close> between what they wrap: each operand may be replaced by its \<open>unwrap\<close>.
\<close>

lemma heap_eq_wrappers:
  assumes "deref h x = Some tx" "wf_pv tx" "deref h y = Some ty" "wf_pv ty"
  shows "heap_eq h x y = heap_eq h (unwrap h x) (unwrap h y)"
proof -
  have ux: "deref h (unwrap h x) = Some (pv_unwrap tx)"
    using assms(1) deref_n_unwrap [of 999 h x tx] by (simp add: deref_def recursion_limit_def)
  have uy: "deref h (unwrap h y) = Some (pv_unwrap ty)"
    using assms(3) deref_n_unwrap [of 999 h y ty] by (simp add: deref_def recursion_limit_def)
  have "py_eq tx ty = py_eq (pv_unwrap tx) (pv_unwrap ty)"
    using assms(2,4) wf_pv_pv_unwrap py_eq_strip by (metis strip_pv_unwrap)
  with assms(1,3) ux uy show ?thesis by (simp add: heap_eq_def)
qed

text \<open>
  C34: the default argument \<open>jsonseq=[]\<close> is evaluated once: two \<open>JSONarray()\<close> built without an argument share one list, so an element appended through the first is seen through the second.
\<close>

theorem arr_init_default_shared:
  assumes ok: "heap_ok h" and d: "objs h dflt = Some (OList xs)"
    and i1: "arr_init dflt h None = (o1, h1)"
    and s: "arr_append h1 o1 v = Inr h2"
    and i2: "arr_init dflt h2 None = (o2, h3)"
  shows "o2 \<noteq> o1 \<and> arr_items h3 o2 = Inr (dflt, SList, xs @ [unwrap h1 v])"
proof -
  have o1: "o1 = next_addr h" and h1: "h1 = snd (alloc (OJSONarray (VRef dflt)) h)"
    using i1 by (auto simp: arr_init_def alloc_def)
  have fresh: "objs h o1 = None" using ok o1 by (simp add: alloc_fresh)
  have ob1: "objs h1 o1 = Some (OJSONarray (VRef dflt))" and d1: "objs h1 dflt = Some (OList xs)"
    using h1 o1 d fresh by (auto simp: objs_alloc)
  have h2: "h2 = set_obj dflt (OList (xs @ [unwrap h1 v])) h1"
    using s ob1 d1 by (simp add: arr_append_def arr_list_list)
  have o2: "o2 = next_addr h2" and h3: "h3 = snd (alloc (OJSONarray (VRef dflt)) h2)"
    using i2 by (auto simp: arr_init_def alloc_def)
  have "next_addr h2 = Suc (next_addr h)" using h2 h1 by (simp add: alloc_def)
  then have ne: "o2 \<noteq> o1" using o1 o2 by simp
  have ok2: "heap_ok h2" using h2 h1 ok d1 by (simp add: heap_ok_set_obj heap_ok_alloc)
  have "objs h2 dflt \<noteq> None" using h2 by (simp add: objs_set_obj)
  then have dn: "dflt \<noteq> next_addr h2" using ok2 by (auto simp: heap_ok_def)
  have d3: "objs h3 dflt = Some (OList (xs @ [unwrap h1 v]))"
    using h3 h2 dn by (simp add: objs_alloc objs_set_obj)
  have ob2: "objs h3 o2 = Some (OJSONarray (VRef dflt))" using h3 o2 by (simp add: objs_alloc)
  from ne ob2 d3 show ?thesis by (simp add: arr_items_list)
qed

theorem arr_init_default_shared_witness:
  "\<exists>o1 h1 h2 o2 h3. arr_init 8 test_heap None = (o1, h1) \<and>
     arr_append h1 o1 (VInt 1) = Inr h2 \<and> arr_init 8 h2 None = (o2, h3) \<and>
     o2 \<noteq> o1 \<and> arr_items h3 o2 = Inr (8, SList, [VInt 1])"
proof -
  obtain o1 h1 where i1: "arr_init 8 test_heap None = (o1, h1)" by fastforce
  then have o1: "o1 = 12" and h1: "h1 = snd (alloc (OJSONarray (VRef 8)) test_heap)"
    by (auto simp: arr_init_def test_heap_def alloc_def)
  define h2 where "h2 = set_obj 8 (OList [VInt 1]) h1"
  have s: "arr_append h1 o1 (VInt 1) = Inr h2"
    by (simp add: o1 h1 h2_def test_heap_def alloc_def arr_append_def arr_list_list unwrap_def)
  obtain o2 h3 where i2: "arr_init 8 h2 None = (o2, h3)" by fastforce
  have d: "objs test_heap 8 = Some (OList [])" by (simp add: test_heap_def)
  from arr_init_default_shared [OF test_heap_ok d i1 s i2]
  have "o2 \<noteq> o1 \<and> arr_items h3 o2 = Inr (8, SList, [VInt 1])" by (simp add: unwrap_def)
  with i1 s i2 show ?thesis by blast
qed

end
