(* ===== verification/Boundary.thy ===== *)
theory Boundary
  imports JSONArray
begin

text \<open>
  The boundary invariant of the spec (section 3): containers never hold wrapper
  instances, since every value entering storage is unwrapped, and every wrapper holds a
  container of its kind.  \<open>boundary_ok\<close> states it of a heap, together with freshness
  and that every stored reference is live (\<open>val_ok\<close>).  Each method of both classes
  keeps it, given live arguments, and so does \<open>wrap\<close>; \<open>insert\<close> does not, since it
  stores its argument without unwrapping (src/jsonobj.py line 205).  The calls of the
  library form the datatype \<open>op\<close> with the step function \<open>step\<close>; \<open>reach\<close> is the set
  of heaps a program reaches by calls that return, and the invariant holds on all of
  them by rule induction.
\<close>

definition val_ok :: "heap \<Rightarrow> val \<Rightarrow> bool" where
  "val_ok h v = (case v of VRef a \<Rightarrow> objs h a \<noteq> None | _ \<Rightarrow> True)"

fun is_container :: "obj \<Rightarrow> bool" where
  "is_container (OJSONobj _) = False"
| "is_container (OJSONarray _) = False"
| "is_container _ = True"

fun same_kind :: "obj \<Rightarrow> obj \<Rightarrow> bool" where
  "same_kind (ODict _) (ODict _) = True"
| "same_kind (OList _) (OList _) = True"
| "same_kind (OTuple _) (OTuple _) = True"
| "same_kind _ _ = False"

definition obj_ok :: "heap \<Rightarrow> addr \<Rightarrow> bool" where
  "obj_ok h a =
     (case objs h a of
        None \<Rightarrow> True
      | Some ob \<Rightarrow> (\<forall>x \<in> set (obj_vals ob). val_ok h x) \<and>
          (if is_container ob then \<forall>x \<in> set (obj_vals ob). \<not> is_wrapper_ref h x
           else wf_wrapper h a))"

definition boundary_ok :: "heap \<Rightarrow> bool" where
  "boundary_ok h = (heap_ok h \<and> (\<forall>a < next_addr h. obj_ok h a))"

lemma boundary_ok_obj:
  "boundary_ok h \<Longrightarrow> objs h a = Some ob \<Longrightarrow>
   (\<forall>x \<in> set (obj_vals ob). val_ok h x) \<and>
   (if is_container ob then \<forall>x \<in> set (obj_vals ob). \<not> is_wrapper_ref h x else wf_wrapper h a)"
proof -
  assume b: "boundary_ok h" and o: "objs h a = Some ob"
  then have "a < next_addr h" by (metis boundary_ok_def heap_ok_def not_le option.distinct(1))
  with b have "obj_ok h a" by (simp add: boundary_ok_def)
  with o show ?thesis by (simp add: obj_ok_def)
qed

lemma unwrap_ok:
  assumes b: "boundary_ok h" and v: "val_ok h v"
  shows "val_ok h (unwrap h v) \<and> \<not> is_wrapper_ref h (unwrap h v)"
proof (cases "is_wrapper_ref h v")
  case False
  with v show ?thesis by simp
next
  case True
  then obtain w ob where vw: "v = VRef w" and ob: "objs h w = Some ob" and nc: "\<not> is_container ob"
    by (auto simp: is_wrapper_ref_def split: val.splits option.splits obj.splits)
  with boundary_ok_obj [OF b ob] have "wf_wrapper h w" by simp
  with vw ob show ?thesis
    by (auto simp: wf_wrapper_def unwrap_def val_ok_def is_wrapper_ref_def
             split: obj.splits val.splits option.splits)
qed

section \<open>Frame lemmas\<close>

lemma val_ok_hext: "hext h h' \<Longrightarrow> val_ok h x \<Longrightarrow> val_ok h' x"
  by (auto simp: val_ok_def hext_def split: val.splits)

lemma is_wrapper_ref_hext:
  "hext h h' \<Longrightarrow> val_ok h x \<Longrightarrow> is_wrapper_ref h' x = is_wrapper_ref h x"
  by (auto simp: val_ok_def hext_def is_wrapper_ref_def split: val.splits)

lemma wf_wrapper_hext: "hext h h' \<Longrightarrow> wf_wrapper h w \<Longrightarrow> wf_wrapper h' w"
  by (auto simp: wf_wrapper_def hext_def split: option.splits obj.splits val.splits)

lemma same_kind_container: "same_kind ob ob' \<Longrightarrow> is_container ob \<and> is_container ob'"
  by (cases ob; cases ob') simp_all

lemma val_ok_set_obj: "objs h a \<noteq> None \<Longrightarrow> val_ok (set_obj a ob h) = val_ok h"
  by (auto simp: val_ok_def objs_set_obj fun_eq_iff split: val.splits)

lemma is_wrapper_ref_set_same:
  "objs h a = Some ob \<Longrightarrow> same_kind ob ob' \<Longrightarrow>
   is_wrapper_ref (set_obj a ob' h) = is_wrapper_ref h"
  by (cases ob; cases ob')
     (auto simp: is_wrapper_ref_def objs_set_obj fun_eq_iff split: val.splits option.splits obj.splits)

lemma wf_wrapper_set_same:
  "objs h a = Some ob \<Longrightarrow> same_kind ob ob' \<Longrightarrow>
   wf_wrapper (set_obj a ob' h) = wf_wrapper h"
  by (cases ob; cases ob')
     (auto simp: wf_wrapper_def objs_set_obj fun_eq_iff split: val.splits option.splits obj.splits)

text \<open>Replacing a container by one of the same kind whose items are valid and native.\<close>

lemma boundary_ok_set_obj:
  assumes b: "boundary_ok h" and o: "objs h a = Some ob" and k: "same_kind ob ob'"
    and e: "\<forall>x \<in> set (obj_vals ob'). val_ok h x \<and> \<not> is_wrapper_ref h x"
  shows "boundary_ok (set_obj a ob' h)"
proof -
  let ?h = "set_obj a ob' h"
  have v: "val_ok ?h = val_ok h" using o by (simp add: val_ok_set_obj)
  have w: "is_wrapper_ref ?h = is_wrapper_ref h" using o k by (rule is_wrapper_ref_set_same)
  have f: "wf_wrapper ?h = wf_wrapper h" using o k by (rule wf_wrapper_set_same)
  have c: "is_container ob'" using same_kind_container [OF k] by simp
  have "obj_ok ?h c'" if "c' < next_addr h" for c'
  proof (cases "c' = a")
    case True
    with e c show ?thesis unfolding obj_ok_def v w by (simp add: objs_set_obj)
  next
    case False
    with b that have "obj_ok h c'" by (simp add: boundary_ok_def)
    with False show ?thesis unfolding obj_ok_def v w f by (simp add: objs_set_obj)
  qed
  moreover have "heap_ok ?h" using b o by (simp add: boundary_ok_def heap_ok_set_obj)
  ultimately show ?thesis by (simp add: boundary_ok_def)
qed

text \<open>Allocating an object whose items are valid, native in a container.\<close>

lemma boundary_ok_alloc:
  assumes b: "boundary_ok h"
    and e: "\<forall>x \<in> set (obj_vals ob). val_ok h x"
    and n: "if is_container ob then \<forall>x \<in> set (obj_vals ob). \<not> is_wrapper_ref h x
            else wf_wrapper (snd (alloc ob h)) (next_addr h)"
  shows "boundary_ok (snd (alloc ob h))"
proof -
  let ?h = "snd (alloc ob h)"
  have ok: "heap_ok h" using b by (simp add: boundary_ok_def)
  have hx: "hext h ?h" using ok by (rule hext_alloc)
  have "obj_ok ?h c" if "c < next_addr ?h" for c
  proof (cases "c = next_addr h")
    case True
    have "\<forall>x \<in> set (obj_vals ob). val_ok ?h x \<and> is_wrapper_ref ?h x = is_wrapper_ref h x"
      using e val_ok_hext [OF hx] is_wrapper_ref_hext [OF hx] by blast
    with True n show ?thesis by (simp add: obj_ok_def objs_alloc)
  next
    case False
    with that have "c < next_addr h" by (simp add: alloc_def)
    with b have oc: "obj_ok h c" by (simp add: boundary_ok_def)
    from False have "objs ?h c = objs h c" by (simp add: objs_alloc)
    with oc show ?thesis
      by (auto simp: obj_ok_def val_ok_hext [OF hx] is_wrapper_ref_hext [OF hx]
                     wf_wrapper_hext [OF hx] split: option.splits if_splits)
  qed
  moreover have "heap_ok ?h" using ok by (rule heap_ok_alloc)
  ultimately show ?thesis by (simp add: boundary_ok_def)
qed

lemma boundary_ok_wrap:
  assumes b: "boundary_ok h" and v: "val_ok h v"
  shows "boundary_ok (snd (wrap h v)) \<and> val_ok (snd (wrap h v)) (fst (wrap h v)) \<and>
         hext h (snd (wrap h v))"
proof -
  have ok: "heap_ok h" using b by (simp add: boundary_ok_def)
  show ?thesis
  proof (cases "wrap h v = (v, h)")
    case True
    with b v show ?thesis by simp
  next
    case False
    then obtain a ob where va: "v = VRef a" and oa: "objs h a = Some ob" and c: "is_container ob"
      by (auto simp: wrap_def split: val.splits option.splits obj.splits)
    define wo where "wo = (case ob of ODict _ \<Rightarrow> OJSONobj v | _ \<Rightarrow> OJSONarray v)"
    have wr: "wrap h v = (VRef (next_addr h), snd (alloc wo h))"
      using va oa c by (cases ob) (simp_all add: wrap_def wo_def alloc_def)
    have an: "a \<noteq> next_addr h" using oa alloc_fresh [OF ok] by auto
    have wf: "wf_wrapper (snd (alloc wo h)) (next_addr h)"
      using va oa c an by (cases ob) (simp_all add: wo_def wf_wrapper_def objs_alloc alloc_fresh)
    have nc: "\<not> is_container wo" by (cases ob) (simp_all add: wo_def)
    have "boundary_ok (snd (alloc wo h))"
      by (rule boundary_ok_alloc [OF b]) (use v wf nc in \<open>cases ob; simp add: wo_def\<close>)+
    moreover have "val_ok (snd (alloc wo h)) (VRef (next_addr h))"
      by (simp add: val_ok_def objs_alloc)
    ultimately show ?thesis using wr hext_alloc [OF ok] by simp
  qed
qed

section \<open>Each operation keeps the boundary\<close>

lemma boundary_ok_set_same:
  assumes b: "boundary_ok h" and o: "objs h a = Some ob" and k: "same_kind ob ob'"
    and e: "\<forall>y \<in> set (obj_vals ob'). y \<in> set (obj_vals ob) \<or> (val_ok h y \<and> \<not> is_wrapper_ref h y)"
  shows "boundary_ok (set_obj a ob' h)"
proof (rule boundary_ok_set_obj [OF b o k])
  have "is_container ob" using same_kind_container [OF k] by simp
  with boundary_ok_obj [OF b o] e
  show "\<forall>x \<in> set (obj_vals ob'). val_ok h x \<and> \<not> is_wrapper_ref h x" by auto
qed

lemma boundary_ok_item:
  "boundary_ok h \<Longrightarrow> objs h a = Some ob \<Longrightarrow> x \<in> set (obj_vals ob) \<Longrightarrow> val_ok h x"
  using boundary_ok_obj by blast

lemma boundary_ok_set_list:
  assumes "boundary_ok h" and "objs h a = Some (OList xs)"
    and "\<forall>y \<in> set ys. y \<in> set xs \<or> (val_ok h y \<and> \<not> is_wrapper_ref h y)"
  shows "boundary_ok (set_obj a (OList ys) h)"
proof (rule boundary_ok_set_same [OF assms(1,2)])
  show "same_kind (OList xs) (OList ys)" by simp
  show "\<forall>y \<in> set (obj_vals (OList ys)).
          y \<in> set (obj_vals (OList xs)) \<or> (val_ok h y \<and> \<not> is_wrapper_ref h y)"
    using assms(3) by simp
qed

lemma boundary_ok_set_dict:
  assumes "boundary_ok h" and "objs h a = Some (ODict kvs)"
    and "\<forall>y \<in> set (map snd kvs'). y \<in> set (map snd kvs) \<or> (val_ok h y \<and> \<not> is_wrapper_ref h y)"
  shows "boundary_ok (set_obj a (ODict kvs') h)"
proof (rule boundary_ok_set_same [OF assms(1,2)])
  show "same_kind (ODict kvs) (ODict kvs')" by simp
  show "\<forall>y \<in> set (obj_vals (ODict kvs')).
          y \<in> set (obj_vals (ODict kvs)) \<or> (val_ok h y \<and> \<not> is_wrapper_ref h y)"
    using assms(3) by simp
qed

lemma obj_getattr_boundary:
  assumes b: "boundary_ok h" and r: "obj_getattr h self n = Inr (w, h')"
  shows "boundary_ok h' \<and> val_ok h' w"
proof -
  from r obtain a kvs x where i: "obj_items h self = Inr (a, kvs)" and x: "map_of kvs n = Some x"
    and wr: "wrap h x = (w, h')"
    by (auto simp: obj_getattr_def rbind_eq_Inr split: option.splits)
  have "x \<in> set (obj_vals (ODict kvs))" using map_of_SomeD [OF x] by force
  then have "val_ok h x" by (rule boundary_ok_item [OF b obj_items_Inr [OF i]])
  with boundary_ok_wrap [OF b] wr show ?thesis by (metis fst_conv snd_conv)
qed

lemma obj_setattr_boundary:
  assumes b: "boundary_ok h" and v: "val_ok h v" and r: "obj_setattr h self n v = Inr h'"
  shows "boundary_ok h'"
proof -
  from r obtain a kvs where i: "obj_items h self = Inr (a, kvs)"
    and h': "h' = set_obj a (ODict (alist_set n (unwrap h v) kvs)) h"
    by (auto simp: obj_setattr_def rbind_eq_Inr)
  have "set (alist_set n (unwrap h v) kvs) \<subseteq> insert (n, unwrap h v) (set kvs)"
    by (rule set_alist_set_subset)
  then have "\<forall>y \<in> set (map snd (alist_set n (unwrap h v) kvs)). y \<in> set (map snd kvs) \<or> y = unwrap h v"
    by force
  with unwrap_ok [OF b v] show ?thesis
    unfolding h' by (metis boundary_ok_set_dict [OF b obj_items_Inr [OF i]])
qed

lemma obj_delattr_boundary:
  assumes b: "boundary_ok h" and r: "obj_delattr h self n = Inr h'"
  shows "boundary_ok h'"
proof -
  from r obtain a kvs where i: "obj_items h self = Inr (a, kvs)"
    and h': "h' = set_obj a (ODict (alist_del n kvs)) h"
    by (auto simp: obj_delattr_def rbind_eq_Inr split: if_splits)
  have "\<forall>y \<in> set (map snd (alist_del n kvs)). y \<in> set (map snd kvs)"
    using set_alist_del_subset [of n kvs] by force
  then show ?thesis unfolding h' using boundary_ok_set_dict [OF b obj_items_Inr [OF i]] by blast
qed

lemma arr_getitem_boundary:
  assumes b: "boundary_ok h" and r: "arr_getitem h self i = Inr (w, h')"
  shows "boundary_ok h' \<and> val_ok h' w"
proof -
  from r obtain a k xs j where it: "arr_items h self = Inr (a, k, xs)"
    and j: "py_norm_index i (length xs) = Some j" and wr: "wrap h (xs ! j) = (w, h')"
    by (auto simp: arr_getitem_def rbind_eq_Inr split: option.splits)
  have "xs ! j \<in> set xs" using py_norm_index_lt [OF j] by simp
  then have "val_ok h (xs ! j)"
    using arr_items_Inr [OF it] boundary_ok_item [OF b] by fastforce
  with boundary_ok_wrap [OF b] wr show ?thesis by (metis fst_conv snd_conv)
qed

text \<open>The list methods that store: the new list is made of old items and one unwrapped value.\<close>

lemma arr_list_store_boundary:
  assumes b: "boundary_ok h" and l: "arr_list h self = Inr (a, xs)"
    and e: "\<forall>y \<in> set ys. y \<in> set xs \<or> (val_ok h y \<and> \<not> is_wrapper_ref h y)"
  shows "boundary_ok (set_obj a (OList ys) h)"
  using boundary_ok_set_list [OF b arr_list_Inr [OF l] e] .

lemma arr_setitem_boundary:
  assumes b: "boundary_ok h" and v: "val_ok h v" and r: "arr_setitem h self i v = Inr h'"
  shows "boundary_ok h'"
proof -
  from r obtain a xs j where l: "arr_list h self = Inr (a, xs)"
    and h': "h' = set_obj a (OList (xs[j := unwrap h v])) h"
    by (auto simp: arr_setitem_def rbind_eq_Inr split: option.splits)
  have "\<forall>y \<in> set (xs[j := unwrap h v]). y \<in> set xs \<or> y = unwrap h v"
    using set_update_subset_insert [of xs j "unwrap h v"] by blast
  with unwrap_ok [OF b v] show ?thesis unfolding h' by (intro arr_list_store_boundary [OF b l]) auto
qed

lemma arr_delitem_boundary:
  assumes b: "boundary_ok h" and r: "arr_delitem h self i = Inr h'"
  shows "boundary_ok h'"
proof -
  from r obtain a xs j where l: "arr_list h self = Inr (a, xs)"
    and h': "h' = set_obj a (OList (remove_nth j xs)) h"
    by (auto simp: arr_delitem_def rbind_eq_Inr split: option.splits)
  show ?thesis
    unfolding h' by (rule arr_list_store_boundary [OF b l]) (use set_remove_nth_subset [of j xs] in blast)
qed

lemma arr_append_boundary:
  assumes b: "boundary_ok h" and v: "val_ok h v" and r: "arr_append h self v = Inr h'"
  shows "boundary_ok h'"
proof -
  from r obtain a xs where l: "arr_list h self = Inr (a, xs)"
    and h': "h' = set_obj a (OList (xs @ [unwrap h v])) h"
    by (auto simp: arr_append_def rbind_eq_Inr)
  show ?thesis unfolding h' using unwrap_ok [OF b v] by (intro arr_list_store_boundary [OF b l]) auto
qed

lemma arr_pop_boundary:
  assumes b: "boundary_ok h" and r: "arr_pop h self i = Inr (w, h')"
  shows "boundary_ok h' \<and> val_ok h' w"
proof -
  from r obtain a xs j where l: "arr_list h self = Inr (a, xs)"
    and j: "py_norm_index i (length xs) = Some j"
    and wr: "wrap (set_obj a (OList (remove_nth j xs)) h) (xs ! j) = (w, h')"
    by (auto simp: arr_pop_def rbind_eq_Inr split: option.splits)
  let ?h = "set_obj a (OList (remove_nth j xs)) h"
  have b2: "boundary_ok ?h"
    by (rule arr_list_store_boundary [OF b l]) (use set_remove_nth_subset [of j xs] in blast)
  have "xs ! j \<in> set xs" using py_norm_index_lt [OF j] by simp
  then have "val_ok ?h (xs ! j)"
    using arr_list_Inr [OF l] boundary_ok_item [OF b] val_ok_set_obj by fastforce
  with boundary_ok_wrap [OF b2] wr show ?thesis by (metis fst_conv snd_conv)
qed

lemma arr_remove_boundary:
  assumes b: "boundary_ok h" and r: "arr_remove h self v = Inr h'"
  shows "boundary_ok h'"
proof -
  from r obtain a xs j where l: "arr_list h self = Inr (a, xs)"
    and h': "h' = set_obj a (OList (remove_nth j xs)) h"
    by (auto simp: arr_remove_def rbind_eq_Inr split: option.splits)
  show ?thesis
    unfolding h' by (rule arr_list_store_boundary [OF b l]) (use set_remove_nth_subset [of j xs] in blast)
qed

lemma arr_clear_boundary:
  assumes b: "boundary_ok h" and r: "arr_clear h self = Inr h'"
  shows "boundary_ok h'"
proof -
  from r obtain a xs where l: "arr_list h self = Inr (a, xs)" and h': "h' = set_obj a (OList []) h"
    by (auto simp: arr_clear_def rbind_eq_Inr)
  show ?thesis unfolding h' by (rule arr_list_store_boundary [OF b l]) simp
qed

lemma arr_reverse_boundary:
  assumes b: "boundary_ok h" and r: "arr_reverse h self = Inr h'"
  shows "boundary_ok h'"
proof -
  from r obtain a xs where l: "arr_list h self = Inr (a, xs)"
    and h': "h' = set_obj a (OList (rev xs)) h"
    by (auto simp: arr_reverse_def rbind_eq_Inr)
  show ?thesis unfolding h' by (rule arr_list_store_boundary [OF b l]) simp
qed

section \<open>Iteration and \<open>extend\<close>\<close>

lemma iter_next_boundary:
  "boundary_ok h \<Longrightarrow> iter_next h it = Inr (r, h') \<Longrightarrow>
   boundary_ok h' \<and> hext h h' \<and> (\<forall>v it'. r = Some (v, it') \<longrightarrow> val_ok h' v)"
proof (induction it arbitrary: r h')
  case (SeqIter a i)
  then obtain ob xs where o: "objs h a = Some ob" and ob: "obj_vals ob = xs" and h': "h' = h"
    and r: "r = (if i < length xs then Some (xs ! i, SeqIter a (Suc i)) else None)"
    by (auto split: option.splits obj.splits)
  show ?case using boundary_ok_item [OF SeqIter.prems(1) o] ob h' r SeqIter.prems(1) by auto
next
  case (KeyIter a i n)
  then show ?case by (auto simp: val_ok_def split: option.splits obj.splits if_splits)
next
  case (StrIter s i)
  then show ?case by (auto simp: val_ok_def split: if_splits)
next
  case (RevIter a i)
  then obtain xs where o: "objs h a = Some (OList xs)" and h': "h' = h"
    and r: "r = (if 0 \<le> i \<and> i < int (length xs) then Some (xs ! nat i, RevIter a (i - 1)) else None)"
    by (auto split: option.splits obj.splits)
  have "0 \<le> i \<Longrightarrow> i < int (length xs) \<Longrightarrow> xs ! nat i \<in> set (obj_vals (OList xs))"
    by simp
  then show ?case using boundary_ok_item [OF RevIter.prems(1) o] h' r RevIter.prems(1) by auto
next
  case (WrapIter it)
  from WrapIter.prems(2) obtain r0 h1 where i: "iter_next h it = Inr (r0, h1)"
    by (auto simp: rbind_eq_Inr)
  from WrapIter.IH [OF WrapIter.prems(1) i]
  have b1: "boundary_ok h1" and x1: "hext h h1" and v1: "\<forall>v it'. r0 = Some (v, it') \<longrightarrow> val_ok h1 v"
    by simp_all
  show ?case
  proof (cases r0)
    case None
    with WrapIter.prems(2) i b1 x1 show ?thesis by simp
  next
    case (Some p)
    obtain v it' where p: "p = (v, it')" by fastforce
    obtain w h2 where wr: "wrap h1 v = (w, h2)" by fastforce
    from WrapIter.prems(2) i Some p wr have r: "r = Some (w, WrapIter it')" and h': "h' = h2"
      by simp_all
    from boundary_ok_wrap [OF b1, of v] v1 Some p wr
    have "boundary_ok h2 \<and> val_ok h2 w \<and> hext h1 h2" by simp
    with r h' x1 show ?thesis by (auto intro: hext_trans)
  qed
qed

lemma extend_loop_boundary:
  "boundary_ok h \<Longrightarrow> extend_loop n h self it = Some (Inr h') \<Longrightarrow> boundary_ok h'"
proof (induction n arbitrary: h it)
  case 0
  then show ?case by simp
next
  case (Suc n)
  obtain r h1 where i: "iter_next h it = Inr (r, h1)"
    using Suc.prems(2) by (cases "iter_next h it") (auto split: prod.splits)
  from iter_next_boundary [OF Suc.prems(1) i]
  have b1: "boundary_ok h1" and v1: "\<forall>v it'. r = Some (v, it') \<longrightarrow> val_ok h1 v" by simp_all
  show ?case
  proof (cases r)
    case None
    with Suc.prems(2) i b1 show ?thesis by simp
  next
    case (Some p)
    obtain v it' where p: "p = (v, it')" by fastforce
    from Suc.prems(2) i Some p obtain h2 where a: "arr_append h1 self (unwrap h1 v) = Inr h2"
      and l: "extend_loop n h2 self it' = Some (Inr h')"
      by (auto split: sum.splits)
    have "val_ok h1 (unwrap h1 v)" using unwrap_ok [OF b1] v1 Some p by simp
    with arr_append_boundary [OF b1 _ a] have "boundary_ok h2" by simp
    from this l show ?thesis by (rule Suc.IH)
  qed
qed

lemma arr_extend_self_unfold:
  "arr_items h self = Inr (a, k, xs) \<Longrightarrow>
   arr_extend fuel h self (VRef self) =
     extend_loop fuel (snd (alloc (OList xs) h)) self (SeqIter (next_addr h) 0)"
  by (simp add: arr_extend_def alloc_def builtin_iter_def)

lemma arr_extend_boundary:
  assumes b: "boundary_ok h" and r: "arr_extend fuel h self values = Some (Inr h')"
  shows "boundary_ok h'"
proof (cases "values = VRef self")
  case True
  obtain a k xs where it: "arr_items h self = Inr (a, k, xs)"
    using r True by (cases "arr_items h self") (auto simp: arr_extend_def)
  with r True have l: "extend_loop fuel (snd (alloc (OList xs) h)) self (SeqIter (next_addr h) 0) =
                       Some (Inr h')"
    by (simp add: arr_extend_self_unfold)
  obtain ob where o: "objs h a = Some ob" and ob: "obj_vals ob = xs" and c: "is_container ob"
    using arr_items_Inr [OF it] by fastforce
  have "boundary_ok (snd (alloc (OList xs) h))"
    by (rule boundary_ok_alloc [OF b]) (use boundary_ok_obj [OF b o] ob c in simp_all)
  from this l show ?thesis by (rule extend_loop_boundary)
next
  case False
  with r obtain it where "extend_loop fuel h self it = Some (Inr h')"
    by (cases "py_iter_of h values") (auto simp: arr_extend_def)
  with b show ?thesis by (rule extend_loop_boundary)
qed

section \<open>Constructors\<close>

text \<open>The documented argument types: \<open>JSONobj(jsondict: dict)\<close>, \<open>JSONarray(jsonseq: list | tuple)\<close>.\<close>

definition is_dict_ref :: "heap \<Rightarrow> val \<Rightarrow> bool" where
  "is_dict_ref h v =
     (case v of VRef a \<Rightarrow> (case objs h a of Some (ODict _) \<Rightarrow> True | _ \<Rightarrow> False) | _ \<Rightarrow> False)"

definition is_seq_ref :: "heap \<Rightarrow> val \<Rightarrow> bool" where
  "is_seq_ref h v =
     (case v of
        VRef a \<Rightarrow> (case objs h a of Some (OList _) \<Rightarrow> True | Some (OTuple _) \<Rightarrow> True | _ \<Rightarrow> False)
      | _ \<Rightarrow> False)"

lemma obj_init_boundary:
  assumes b: "boundary_ok h" and d: "is_dict_ref h (case arg of None \<Rightarrow> VRef dflt | Some x \<Rightarrow> x)"
  shows "boundary_ok (snd (obj_init dflt h arg))"
proof -
  let ?d = "case arg of None \<Rightarrow> VRef dflt | Some x \<Rightarrow> x"
  obtain a kvs where da: "?d = VRef a" and oa: "objs h a = Some (ODict kvs)"
    using d by (auto simp: is_dict_ref_def split: val.splits option.splits obj.splits)
  have an: "a \<noteq> next_addr h" using oa alloc_fresh b by (auto simp: boundary_ok_def)
  have "boundary_ok (snd (alloc (OJSONobj ?d) h))"
    by (rule boundary_ok_alloc [OF b])
       (use da oa an in \<open>simp_all add: val_ok_def wf_wrapper_def objs_alloc\<close>)
  then show ?thesis by (simp add: obj_init_def)
qed

lemma arr_init_boundary:
  assumes b: "boundary_ok h" and d: "is_seq_ref h (case arg of None \<Rightarrow> VRef dflt | Some x \<Rightarrow> x)"
  shows "boundary_ok (snd (arr_init dflt h arg))"
proof -
  let ?d = "case arg of None \<Rightarrow> VRef dflt | Some x \<Rightarrow> x"
  obtain a ob where da: "?d = VRef a" and oa: "objs h a = Some ob"
    and k: "ob \<in> range OList \<union> range OTuple"
    using d by (auto simp: is_seq_ref_def split: val.splits option.splits obj.splits)
  have an: "a \<noteq> next_addr h" using oa alloc_fresh b by (auto simp: boundary_ok_def)
  have "boundary_ok (snd (alloc (OJSONarray ?d) h))"
    by (rule boundary_ok_alloc [OF b])
       (use da oa an k in \<open>auto simp: val_ok_def wf_wrapper_def objs_alloc\<close>)
  then show ?thesis by (simp add: arr_init_def)
qed

section \<open>Sequences of library calls\<close>

text \<open>
  One call of the library on a heap, by method.  The results a call returns are dropped;
  what remains is the heap after it, \<open>Inl\<close> for an exception, and \<open>None\<close> when the
  call does not return (\<open>extend\<close> out of fuel).  The two addresses are the default
  arguments of \<open>JSONobj.__init__\<close> and \<open>JSONarray.__init__\<close>.
\<close>

datatype op =
    ObjNew "val option"
  | ObjGet addr string
  | ObjSet addr string val
  | ObjDel addr string
  | ArrNew "val option"
  | ArrGet addr int
  | ArrSet addr int val
  | ArrDel addr int
  | ArrAppend addr val
  | ArrInsert addr int val
  | ArrPop addr int
  | ArrRemove addr val
  | ArrClear addr
  | ArrReverse addr
  | ArrExtend nat addr val
  | ArrIadd nat addr val
  | Wrap val

fun step :: "addr \<Rightarrow> addr \<Rightarrow> heap \<Rightarrow> op \<Rightarrow> heap result option" where
  "step dd dl h (ObjNew arg) = Some (Inr (snd (obj_init dd h arg)))"
| "step dd dl h (ObjGet s n) = Some (map_sum id snd (obj_getattr h s n))"
| "step dd dl h (ObjSet s n v) = Some (obj_setattr h s n v)"
| "step dd dl h (ObjDel s n) = Some (obj_delattr h s n)"
| "step dd dl h (ArrNew arg) = Some (Inr (snd (arr_init dl h arg)))"
| "step dd dl h (ArrGet s i) = Some (map_sum id snd (arr_getitem h s i))"
| "step dd dl h (ArrSet s i v) = Some (arr_setitem h s i v)"
| "step dd dl h (ArrDel s i) = Some (arr_delitem h s i)"
| "step dd dl h (ArrAppend s v) = Some (arr_append h s v)"
| "step dd dl h (ArrInsert s i v) = Some (arr_insert h s i v)"
| "step dd dl h (ArrPop s i) = Some (map_sum id snd (arr_pop h s i))"
| "step dd dl h (ArrRemove s v) = Some (arr_remove h s v)"
| "step dd dl h (ArrClear s) = Some (arr_clear h s)"
| "step dd dl h (ArrReverse s) = Some (arr_reverse h s)"
| "step dd dl h (ArrExtend fuel s v) = arr_extend fuel h s v"
| "step dd dl h (ArrIadd fuel s v) = map_option (map_sum id snd) (arr_iadd fuel h s v)"
| "step dd dl h (Wrap v) = Some (Inr (snd (wrap h v)))"

text \<open>
  What a Python caller can pass: live references, and for the constructors the
  documented argument types.
\<close>

fun args_ok :: "addr \<Rightarrow> addr \<Rightarrow> heap \<Rightarrow> op \<Rightarrow> bool" where
  "args_ok dd dl h (ObjNew arg) = is_dict_ref h (case arg of None \<Rightarrow> VRef dd | Some x \<Rightarrow> x)"
| "args_ok dd dl h (ArrNew arg) = is_seq_ref h (case arg of None \<Rightarrow> VRef dl | Some x \<Rightarrow> x)"
| "args_ok dd dl h (ObjSet s n v) = val_ok h v"
| "args_ok dd dl h (ArrSet s i v) = val_ok h v"
| "args_ok dd dl h (ArrAppend s v) = val_ok h v"
| "args_ok dd dl h (ArrInsert s i v) = val_ok h v"
| "args_ok dd dl h (ArrRemove s v) = val_ok h v"
| "args_ok dd dl h (ArrExtend fuel s v) = val_ok h v"
| "args_ok dd dl h (ArrIadd fuel s v) = val_ok h v"
| "args_ok dd dl h (Wrap v) = val_ok h v"
| "args_ok dd dl h _ = True"

fun is_insert :: "op \<Rightarrow> bool" where
  "is_insert (ArrInsert _ _ _) = True"
| "is_insert _ = False"

text \<open>The heaps a program reaches from \<open>h0\<close> by calls that return, \<open>insert\<close> left out.\<close>

inductive reach :: "addr \<Rightarrow> addr \<Rightarrow> heap \<Rightarrow> heap \<Rightarrow> bool" for dd dl h0 where
  reach_refl: "reach dd dl h0 h0"
| reach_step: "reach dd dl h0 h \<Longrightarrow> args_ok dd dl h op \<Longrightarrow> \<not> is_insert op \<Longrightarrow>
               step dd dl h op = Some (Inr h') \<Longrightarrow> reach dd dl h0 h'"

lemma step_boundary:
  assumes b: "boundary_ok h" and a: "args_ok dd dl h op" and ni: "\<not> is_insert op"
    and s: "step dd dl h op = Some (Inr h')"
  shows "boundary_ok h'"
proof (cases op)
  case (ObjNew arg)
  with a s show ?thesis using obj_init_boundary [OF b] by auto
next
  case (ArrNew arg)
  with a s show ?thesis using arr_init_boundary [OF b] by auto
next
  case (ObjGet x n)
  with s obtain w where "obj_getattr h x n = Inr (w, h')" by (cases "obj_getattr h x n") auto
  with obj_getattr_boundary [OF b] show ?thesis by blast
next
  case (ArrGet x i)
  with s obtain w where "arr_getitem h x i = Inr (w, h')" by (cases "arr_getitem h x i") auto
  with arr_getitem_boundary [OF b] show ?thesis by blast
next
  case (ArrPop x i)
  with s obtain w where "arr_pop h x i = Inr (w, h')" by (cases "arr_pop h x i") auto
  with arr_pop_boundary [OF b] show ?thesis by blast
next
  case (ArrIadd fuel x v)
  obtain r where e: "arr_extend fuel h x v = Some r"
    using s ArrIadd by (cases "arr_extend fuel h x v") (auto simp: arr_iadd_def)
  with s ArrIadd have "r = Inr h'" by (cases r) (auto simp: arr_iadd_def)
  with e arr_extend_boundary [OF b] show ?thesis by blast
qed (use a ni s b in \<open>auto intro: obj_setattr_boundary obj_delattr_boundary arr_setitem_boundary
                         arr_delitem_boundary arr_append_boundary arr_remove_boundary
                         arr_clear_boundary arr_reverse_boundary arr_extend_boundary
                         boundary_ok_wrap [THEN conjunct1]\<close>)

text \<open>
  C18: the boundary invariant of the spec (no container holds a wrapper; every wrapper
  holds a container of its kind) holds in every heap a program reaches by library
  calls other than \<open>insert\<close>, from a heap where it holds.
\<close>

theorem reach_boundary_ok:
  "reach dd dl h0 h \<Longrightarrow> boundary_ok h0 \<Longrightarrow> boundary_ok h"
  by (induction rule: reach.induct) (auto intro: step_boundary)

section \<open>On the fixtures\<close>

lemma test_heap_boundary_ok: "boundary_ok test_heap"
  unfolding boundary_ok_def
proof
  show "heap_ok test_heap" by (rule test_heap_ok)
  have n: "next_addr test_heap = 12" by (simp add: test_heap_def)
  show "\<forall>a < next_addr test_heap. obj_ok test_heap a"
    unfolding n by (simp add: All_less_Suc numeral_eq_Suc obj_ok_def test_heap_def val_ok_def
                                is_wrapper_ref_def wf_wrapper_def)
qed

theorem reach_boundary_ok_witness:
  "\<exists>h. reach 7 8 test_heap h \<and>
       objs h 1 = Some (OList [VStr ''value1'', VRef 0, VRef 4]) \<and> boundary_ok h"
proof -
  define h1 where "h1 = set_obj 4 (ODict [(''key1'', VStr ''value1''), (''key2'', VRef 3),
                                         (''k'', VRef 1)]) test_heap"
  define h2 where "h2 = set_obj 1 (OList [VStr ''value1'', VRef 0, VRef 4]) h1"
  have s1: "step 7 8 test_heap (ObjSet 5 ''k'' (VRef 6)) = Some (Inr h1)"
    by (simp add: h1_def test_heap_def obj_defs unwrap_def)
  have a1: "args_ok 7 8 test_heap (ObjSet 5 ''k'' (VRef 6))"
    by (simp add: test_heap_def val_ok_def)
  have s2: "step 7 8 h1 (ArrAppend 2 (VRef 5)) = Some (Inr h2)"
    by (simp add: h1_def h2_def test_heap_def arr_defs unwrap_def set_obj_def)
  have a2: "args_ok 7 8 h1 (ArrAppend 2 (VRef 5))"
    by (simp add: h1_def test_heap_def val_ok_def set_obj_def)
  have r: "reach 7 8 test_heap h2"
    by (rule reach_step [OF reach_step [OF reach_refl a1 _ s1] a2 _ s2]) simp_all
  have "objs h2 1 = Some (OList [VStr ''value1'', VRef 0, VRef 4])" by (simp add: h2_def set_obj_def)
  with r reach_boundary_ok [OF r test_heap_boundary_ok] show ?thesis by blast
qed

text \<open>
  C19: \<open>insert\<close> is the one call that breaks the invariant: on every heap where it holds,
  inserting any wrapper into any array over a list, at any index, returns a heap where
  the raw list holds the wrapper.
\<close>

theorem insert_breaks_boundary:
  assumes b: "boundary_ok h" and o: "objs h self = Some (OJSONarray (VRef a))"
    and l: "objs h a = Some (OList xs)" and w: "is_wrapper_ref h v"
  shows "\<exists>h'. step dd dl h (ArrInsert self i v) = Some (Inr h') \<and> \<not> boundary_ok h'"
proof -
  let ?ys = "insert_nth (py_clamp_index i (length xs)) v xs"
  have i: "arr_insert h self i v = Inr (set_obj a (OList ?ys) h)"
    using o l by (simp add: arr_insert_def arr_list_list)
  have v: "v \<in> set ?ys" by (simp add: set_insert_nth py_clamp_index_le)
  have w': "is_wrapper_ref (set_obj a (OList ?ys) h) v" using w l by (simp add: is_wrapper_ref_set_list)
  have "objs (set_obj a (OList ?ys) h) a = Some (OList ?ys)" by (simp add: objs_set_obj)
  then have "\<not> boundary_ok (set_obj a (OList ?ys) h)" using v w' boundary_ok_obj by fastforce
  with i show ?thesis by simp
qed

theorem insert_breaks_boundary_witness:
  "\<exists>h'. step 7 8 test_heap (ArrInsert 2 0 (VRef 9)) = Some (Inr h') \<and> \<not> boundary_ok h'"
proof -
  have o: "objs test_heap 2 = Some (OJSONarray (VRef 1))"
    and l: "objs test_heap 1 = Some (OList [VStr ''value1'', VRef 0])"
    and w: "is_wrapper_ref test_heap (VRef 9)"
    by (simp_all add: test_heap_def is_wrapper_ref_def)
  show ?thesis by (rule insert_breaks_boundary [OF test_heap_boundary_ok o l w])
qed

text \<open>
  On a heap with the boundary invariant \<open>unwrap\<close> is idempotent: the slot of a
  wrapper is never itself a wrapper.
\<close>

lemma unwrap_idempotent:
  assumes "boundary_ok h" and "val_ok h v"
  shows "unwrap h (unwrap h v) = unwrap h v"
  using unwrap_ok [OF assms] by simp

end
