(* ===== verification/Serialize.thy ===== *)
theory Serialize
  imports Boundary
begin

text \<open>
  The serialization adapters of src/jsonobj.py (lines 9-30): \<open>dump\<close> and \<open>dumps\<close>
  unwrap their argument and hand it to the json encoder, \<open>load\<close> and \<open>loads\<close> hand
  the text to the json decoder and wrap what it returns.  The codec is a library the
  module only calls, so the encoder \<open>enc\<close> and the decoder \<open>dec\<close> are parameters of
  the definitions, over an abstract text type \<open>'s\<close>; what the module adds is modelled:
  the encoder sees the tree a value denotes after \<open>unwrap\<close> and raises TypeError on a
  wrapper inside it, and a decoded tree is allocated fresh (\<open>alloc_tree\<close>) before
  \<open>wrap\<close>.  The lemmas: \<open>dumps\<close> after \<open>loads\<close> is the codec's own round trip,
  \<open>dumps\<close> never raises TypeError on a heap with the boundary invariant, and it
  does after \<open>insert\<close> has stored a wrapper.
\<close>

section \<open>Decoded values on the heap\<close>

text \<open>\<open>json.loads\<close> builds fresh containers bottom-up; \<open>alloc_tree\<close> allocates a tree so.\<close>

fun alloc_tree :: "pyval \<Rightarrow> heap \<Rightarrow> val \<times> heap"
  and alloc_list :: "pyval list \<Rightarrow> heap \<Rightarrow> val list \<times> heap"
  and alloc_items :: "(string \<times> pyval) list \<Rightarrow> heap \<Rightarrow> (string \<times> val) list \<times> heap" where
  "alloc_tree PNone h = (VNone, h)"
| "alloc_tree (PBool b) h = (VBool b, h)"
| "alloc_tree (PInt i) h = (VInt i, h)"
| "alloc_tree (PStr s) h = (VStr s, h)"
| "alloc_tree (PList xs) h =
     (let (vs, h1) = alloc_list xs h; (a, h2) = alloc (OList vs) h1 in (VRef a, h2))"
| "alloc_tree (PTuple xs) h =
     (let (vs, h1) = alloc_list xs h; (a, h2) = alloc (OTuple vs) h1 in (VRef a, h2))"
| "alloc_tree (PDict d) h =
     (let (kvs, h1) = alloc_items d h; (a, h2) = alloc (ODict kvs) h1 in (VRef a, h2))"
| "alloc_tree (PJSONobj d) h =
     (let (v, h1) = alloc_tree d h; (a, h2) = alloc (OJSONobj v) h1 in (VRef a, h2))"
| "alloc_tree (PJSONarray s) h =
     (let (v, h1) = alloc_tree s h; (a, h2) = alloc (OJSONarray v) h1 in (VRef a, h2))"
| "alloc_list [] h = ([], h)"
| "alloc_list (x # xs) h =
     (let (v, h1) = alloc_tree x h; (vs, h2) = alloc_list xs h1 in (v # vs, h2))"
| "alloc_items [] h = ([], h)"
| "alloc_items ((k, x) # d) h =
     (let (v, h1) = alloc_tree x h; (kvs, h2) = alloc_items d h1 in ((k, v) # kvs, h2))"

fun pv_depth :: "pyval \<Rightarrow> nat" where
  "pv_depth (PList xs) = Suc (foldr max (map pv_depth xs) 0)"
| "pv_depth (PTuple xs) = Suc (foldr max (map pv_depth xs) 0)"
| "pv_depth (PDict d) = Suc (foldr max (map (pv_depth \<circ> snd) d) 0)"
| "pv_depth (PJSONobj d) = Suc (pv_depth d)"
| "pv_depth (PJSONarray s) = Suc (pv_depth s)"
| "pv_depth _ = 0"

text \<open>The values \<open>json.loads\<close> returns: None, booleans, ints, strings, lists, dicts.\<close>

fun is_json :: "pyval \<Rightarrow> bool" where
  "is_json PNone = True"
| "is_json (PBool _) = True"
| "is_json (PInt _) = True"
| "is_json (PStr _) = True"
| "is_json (PList xs) = (\<forall>x \<in> set xs. is_json x)"
| "is_json (PDict d) = (distinct (map fst d) \<and> (\<forall>p \<in> set d. is_json (snd p)))"
| "is_json _ = False"

lemma foldr_max_ge: "x \<in> set xs \<Longrightarrow> (f x :: nat) \<le> foldr max (map f xs) 0"
  by (induction xs) (auto intro: max.coboundedI1 max.coboundedI2)

lemma alloc_ok:
  "heap_ok h \<Longrightarrow> alloc ob h = (a, h') \<Longrightarrow> heap_ok h' \<and> hext h h' \<and> objs h' a = Some ob"
  using heap_ok_alloc hext_alloc by (fastforce simp: alloc_def)

lemma those_hext:
  "hext h h' \<Longrightarrow> those (map (deref_n n h) xs) = Some ts \<Longrightarrow> those (map (deref_n n h') xs) = Some ts"
  by (rule those_map_mono) (rule deref_n_hext)

lemma alloc_seq_deref:
  assumes th: "\<forall>n. (\<forall>x \<in> set xs. pv_depth x < n) \<longrightarrow> those (map (deref_n n h1) vs) = Some xs"
    and x2: "hext h1 h2" and m: "foldr max (map pv_depth xs) 0 < m"
  shows "those (map (deref_n m h2) vs) = Some xs"
proof -
  have "\<forall>x \<in> set xs. pv_depth x < m"
    using m foldr_max_ge [of _ xs pv_depth] by (blast intro: le_less_trans)
  with th have "those (map (deref_n m h1) vs) = Some xs" by blast
  with x2 show ?thesis by (rule those_hext)
qed

text \<open>
  \<open>alloc_tree\<close> allocates every tree, tuples and wrappers included, so that its
  read-out is the tree at any depth above the tree's own.
\<close>

lemma alloc_tree_ok:
  shows "heap_ok h \<Longrightarrow> alloc_tree t h = (v, h') \<Longrightarrow>
           heap_ok h' \<and> hext h h' \<and> (\<forall>n. pv_depth t < n \<longrightarrow> deref_n n h' v = Some t)"
    and "heap_ok h \<Longrightarrow> alloc_list xs h = (vs, h') \<Longrightarrow>
           heap_ok h' \<and> hext h h' \<and>
           (\<forall>n. (\<forall>x \<in> set xs. pv_depth x < n) \<longrightarrow> those (map (deref_n n h') vs) = Some xs)"
    and "heap_ok h \<Longrightarrow> alloc_items d h = (kvs, h') \<Longrightarrow>
           heap_ok h' \<and> hext h h' \<and> map fst kvs = map fst d \<and>
           (\<forall>n. (\<forall>p \<in> set d. pv_depth (snd p) < n) \<longrightarrow>
                 those (map (deref_n n h') (map snd kvs)) = Some (map snd d))"
proof (induction t h and xs h and d h arbitrary: v h' and vs h' and kvs h'
       rule: alloc_tree_alloc_list_alloc_items.induct)
  case (5 xs h)
  obtain vs h1 where l: "alloc_list xs h = (vs, h1)" by fastforce
  obtain a h2 where al: "alloc (OList vs) h1 = (a, h2)" by fastforce
  from "5.prems" l al have v: "v = VRef a" and h': "h' = h2" by simp_all
  from "5.IH" [OF "5.prems"(1) l]
  have ok1: "heap_ok h1" and x1: "hext h h1"
    and th: "\<forall>n. (\<forall>x \<in> set xs. pv_depth x < n) \<longrightarrow> those (map (deref_n n h1) vs) = Some xs"
    by simp_all
  from alloc_ok [OF ok1 al] have ok2: "heap_ok h2" and x2: "hext h1 h2"
    and o2: "objs h2 a = Some (OList vs)" by simp_all
  have "\<forall>n. pv_depth (PList xs) < n \<longrightarrow> deref_n n h2 (VRef a) = Some (PList xs)"
  proof (intro allI impI)
    fix n assume dn: "pv_depth (PList xs) < n"
    then obtain m where n: "n = Suc m" and "foldr max (map pv_depth xs) 0 < m" by (cases n) auto
    with alloc_seq_deref [OF th x2] o2 show "deref_n n h2 (VRef a) = Some (PList xs)" by simp
  qed
  with ok2 x1 x2 v h' show ?case by (blast intro: hext_trans)
next
  case (6 xs h)
  obtain vs h1 where l: "alloc_list xs h = (vs, h1)" by fastforce
  obtain a h2 where al: "alloc (OTuple vs) h1 = (a, h2)" by fastforce
  from "6.prems" l al have v: "v = VRef a" and h': "h' = h2" by simp_all
  from "6.IH" [OF "6.prems"(1) l]
  have ok1: "heap_ok h1" and x1: "hext h h1"
    and th: "\<forall>n. (\<forall>x \<in> set xs. pv_depth x < n) \<longrightarrow> those (map (deref_n n h1) vs) = Some xs"
    by simp_all
  from alloc_ok [OF ok1 al] have ok2: "heap_ok h2" and x2: "hext h1 h2"
    and o2: "objs h2 a = Some (OTuple vs)" by simp_all
  have "\<forall>n. pv_depth (PTuple xs) < n \<longrightarrow> deref_n n h2 (VRef a) = Some (PTuple xs)"
  proof (intro allI impI)
    fix n assume dn: "pv_depth (PTuple xs) < n"
    then obtain m where n: "n = Suc m" and "foldr max (map pv_depth xs) 0 < m" by (cases n) auto
    with alloc_seq_deref [OF th x2] o2 show "deref_n n h2 (VRef a) = Some (PTuple xs)" by simp
  qed
  with ok2 x1 x2 v h' show ?case by (blast intro: hext_trans)
next
  case (7 d h)
  obtain kvs h1 where l: "alloc_items d h = (kvs, h1)" by fastforce
  obtain a h2 where al: "alloc (ODict kvs) h1 = (a, h2)" by fastforce
  from "7.prems" l al have v: "v = VRef a" and h': "h' = h2" by simp_all
  from "7.IH" [OF "7.prems"(1) l]
  have ok1: "heap_ok h1" and x1: "hext h h1" and k: "map fst kvs = map fst d"
    and th: "\<forall>n. (\<forall>p \<in> set d. pv_depth (snd p) < n) \<longrightarrow>
               those (map (deref_n n h1) (map snd kvs)) = Some (map snd d)"
    by simp_all
  from alloc_ok [OF ok1 al] have ok2: "heap_ok h2" and x2: "hext h1 h2"
    and o2: "objs h2 a = Some (ODict kvs)" by simp_all
  have "\<forall>n. pv_depth (PDict d) < n \<longrightarrow> deref_n n h2 (VRef a) = Some (PDict d)"
  proof (intro allI impI)
    fix n assume dn: "pv_depth (PDict d) < n"
    then obtain m where n: "n = Suc m" by (cases n) auto
    with dn have "foldr max (map (pv_depth \<circ> snd) d) 0 < m" by simp
    then have "\<forall>p \<in> set d. pv_depth (snd p) < m"
      using foldr_max_ge [of _ d "pv_depth \<circ> snd"] by (fastforce intro: le_less_trans)
    with th have "those (map (deref_n m h1) (map snd kvs)) = Some (map snd d)" by blast
    with x2 have "those (map (deref_n m h2) (map snd kvs)) = Some (map snd d)" by (rule those_hext)
    with o2 n k show "deref_n n h2 (VRef a) = Some (PDict d)" by (simp add: zip_map_fst_snd)
  qed
  with ok2 x1 x2 v h' show ?case by (blast intro: hext_trans)
next
  case (8 d h)
  obtain v1 h1 where t: "alloc_tree d h = (v1, h1)" by fastforce
  obtain a h2 where al: "alloc (OJSONobj v1) h1 = (a, h2)" by fastforce
  from "8.prems" t al have v: "v = VRef a" and h': "h' = h2" by simp_all
  from "8.IH" [OF "8.prems"(1) t] have ok1: "heap_ok h1" and x1: "hext h h1"
    and dt: "\<forall>n. pv_depth d < n \<longrightarrow> deref_n n h1 v1 = Some d" by simp_all
  from alloc_ok [OF ok1 al] have ok2: "heap_ok h2" and x2: "hext h1 h2"
    and o2: "objs h2 a = Some (OJSONobj v1)" by simp_all
  have "\<forall>n. pv_depth (PJSONobj d) < n \<longrightarrow> deref_n n h2 (VRef a) = Some (PJSONobj d)"
  proof (intro allI impI)
    fix n assume "pv_depth (PJSONobj d) < n"
    then obtain m where n: "n = Suc m" and "pv_depth d < m" by (cases n) auto
    with dt deref_n_hext [OF x2] o2 show "deref_n n h2 (VRef a) = Some (PJSONobj d)" by simp
  qed
  with ok2 x1 x2 v h' show ?case by (blast intro: hext_trans)
next
  case (9 d h)
  obtain v1 h1 where t: "alloc_tree d h = (v1, h1)" by fastforce
  obtain a h2 where al: "alloc (OJSONarray v1) h1 = (a, h2)" by fastforce
  from "9.prems" t al have v: "v = VRef a" and h': "h' = h2" by simp_all
  from "9.IH" [OF "9.prems"(1) t] have ok1: "heap_ok h1" and x1: "hext h h1"
    and dt: "\<forall>n. pv_depth d < n \<longrightarrow> deref_n n h1 v1 = Some d" by simp_all
  from alloc_ok [OF ok1 al] have ok2: "heap_ok h2" and x2: "hext h1 h2"
    and o2: "objs h2 a = Some (OJSONarray v1)" by simp_all
  have "\<forall>n. pv_depth (PJSONarray d) < n \<longrightarrow> deref_n n h2 (VRef a) = Some (PJSONarray d)"
  proof (intro allI impI)
    fix n assume "pv_depth (PJSONarray d) < n"
    then obtain m where n: "n = Suc m" and "pv_depth d < m" by (cases n) auto
    with dt deref_n_hext [OF x2] o2 show "deref_n n h2 (VRef a) = Some (PJSONarray d)" by simp
  qed
  with ok2 x1 x2 v h' show ?case by (blast intro: hext_trans)
next
  case (11 x xs h)
  obtain v1 h1 where t: "alloc_tree x h = (v1, h1)" by fastforce
  obtain vs1 h2 where l: "alloc_list xs h1 = (vs1, h2)" by fastforce
  from "11.prems" t l have vs: "vs = v1 # vs1" and h': "h' = h2" by simp_all
  from "11.IH"(1) [OF "11.prems"(1) t]
  have ok1: "heap_ok h1" and x1: "hext h h1" and dt: "\<forall>n. pv_depth x < n \<longrightarrow> deref_n n h1 v1 = Some x"
    by simp_all
  from "11.IH"(2) [OF t [symmetric] refl ok1 l]
  have ok2: "heap_ok h2" and x2: "hext h1 h2"
    and th: "\<forall>n. (\<forall>y \<in> set xs. pv_depth y < n) \<longrightarrow> those (map (deref_n n h2) vs1) = Some xs"
    by simp_all
  have "\<forall>n. pv_depth x < n \<longrightarrow> deref_n n h2 v1 = Some x" using dt deref_n_hext [OF x2] by blast
  then show ?case using ok2 x1 x2 th vs h' by (auto intro: hext_trans)
next
  case (13 k x d h)
  obtain v1 h1 where t: "alloc_tree x h = (v1, h1)" by fastforce
  obtain kvs1 h2 where l: "alloc_items d h1 = (kvs1, h2)" by fastforce
  from "13.prems" t l have kvs: "kvs = (k, v1) # kvs1" and h': "h' = h2" by simp_all
  from "13.IH"(1) [OF "13.prems"(1) t]
  have ok1: "heap_ok h1" and x1: "hext h h1" and dt: "\<forall>n. pv_depth x < n \<longrightarrow> deref_n n h1 v1 = Some x"
    by simp_all
  from "13.IH"(2) [OF t [symmetric] refl ok1 l]
  have ok2: "heap_ok h2" and x2: "hext h1 h2" and k: "map fst kvs1 = map fst d"
    and th: "\<forall>n. (\<forall>p \<in> set d. pv_depth (snd p) < n) \<longrightarrow>
               those (map (deref_n n h2) (map snd kvs1)) = Some (map snd d)"
    by simp_all
  have "\<forall>n. pv_depth x < n \<longrightarrow> deref_n n h2 v1 = Some x" using dt deref_n_hext [OF x2] by blast
  then show ?case using ok2 x1 x2 th k kvs h' by (auto intro: hext_trans)
qed (simp_all, auto)

section \<open>The adapters\<close>

text \<open>
  \<open>dumps(obj)\<close> is \<open>json.dumps(unwrap(obj))\<close>: the encoder walks the native tree and
  raises TypeError on anything it cannot encode, a wrapper instance among them.
  The encoder and decoder of the json library are parameters.
\<close>

definition dumps :: "(pyval \<Rightarrow> 's) \<Rightarrow> heap \<Rightarrow> val \<Rightarrow> 's result" where
  "dumps enc h obj =
     (case deref h (unwrap h obj) of
        None \<Rightarrow> Inl RecursionError
      | Some t \<Rightarrow> if native t then Inr (enc t) else Inl TypeError)"

text \<open>\<open>dump(obj, fp)\<close> writes the same text to the stream, here a list of written texts.\<close>

definition dump :: "(pyval \<Rightarrow> 's) \<Rightarrow> heap \<Rightarrow> val \<Rightarrow> 's list \<Rightarrow> 's list result" where
  "dump enc h obj fp = map_sum id (\<lambda>s. fp @ [s]) (dumps enc h obj)"

text \<open>
  \<open>loads(s)\<close> is \<open>wrap(json.loads(s))\<close>: the decoder fails with a ValueError
  (\<open>JSONDecodeError\<close>) or returns a tree, allocated fresh; only the outermost
  container is wrapped.  \<open>load(fp)\<close> decodes the stream's contents the same way.
\<close>

definition loads :: "('s \<Rightarrow> pyval option) \<Rightarrow> heap \<Rightarrow> 's \<Rightarrow> (val \<times> heap) result" where
  "loads dec h s =
     (case dec s of
        None \<Rightarrow> Inl ValueError
      | Some t \<Rightarrow> (let (v, h1) = alloc_tree t h in Inr (wrap h1 v)))"

definition load :: "('s \<Rightarrow> pyval option) \<Rightarrow> heap \<Rightarrow> 's \<Rightarrow> (val \<times> heap) result" where
  "load dec h fp = loads dec h fp"

section \<open>Properties\<close>

lemma is_json_native: "is_json t \<Longrightarrow> native t \<and> \<not> is_wrapper t"
  by (induction t rule: is_json.induct) auto

text \<open>On a heap with the boundary invariant, what a non-wrapper value denotes is native.\<close>

lemma boundary_native:
  "boundary_ok h \<Longrightarrow> val_ok h x \<Longrightarrow> \<not> is_wrapper_ref h x \<Longrightarrow> deref_n n h x = Some t \<Longrightarrow> native t"
proof (induction n arbitrary: x t)
  case 0
  then show ?case by (cases x) auto
next
  case (Suc n)
  show ?case
  proof (cases x)
    case (VRef a)
    with Suc.prems(2) obtain ob where o: "objs h a = Some ob" by (auto simp: val_ok_def)
    with Suc.prems(3) VRef have c: "is_container ob"
      by (cases ob) (auto simp: is_wrapper_ref_def)
    from boundary_ok_obj [OF Suc.prems(1) o] c
    have items: "\<forall>y \<in> set (obj_vals ob). val_ok h y \<and> \<not> is_wrapper_ref h y" by simp
    have IH: "\<And>y u. y \<in> set (obj_vals ob) \<Longrightarrow> deref_n n h y = Some u \<Longrightarrow> native u"
      using items Suc.IH [OF Suc.prems(1)] by blast
    show ?thesis
    proof (cases ob)
      case (ODict kvs)
      with Suc.prems(4) VRef o obtain us where
        us: "those (map (deref_n n h) (map snd kvs)) = Some us" and t: "t = PDict (zip (map fst kvs) us)"
        by (auto split: option.splits)
      have "\<forall>p \<in> set (zip (map fst kvs) us). native (snd p)"
        using those_mem [OF us] IH ODict by (fastforce dest: set_zip_rightD)
      with t show ?thesis by simp
    next
      case (OList xs)
      with Suc.prems(4) VRef o obtain us where
        us: "those (map (deref_n n h) xs) = Some us" and t: "t = PList us"
        by (auto split: option.splits)
      with those_mem [OF us] IH OList show ?thesis by fastforce
    next
      case (OTuple xs)
      with Suc.prems(4) VRef o obtain us where
        us: "those (map (deref_n n h) xs) = Some us" and t: "t = PTuple us"
        by (auto split: option.splits)
      with those_mem [OF us] IH OTuple show ?thesis by fastforce
    qed (use c in simp_all)
  qed (use Suc.prems(4) in auto)
qed

text \<open>
  C35: \<open>loads\<close> then \<open>dumps\<close> gives what the codec's own round trip gives: the decoded
  tree, wrapped at the top only, and encoded back unchanged (test_dumps).
\<close>

theorem dumps_loads_roundtrip:
  assumes ok: "heap_ok h" and d: "dec s = Some t" and j: "is_json t" and dp: "pv_depth t < 999"
  shows "\<exists>w h'. loads dec h s = Inr (w, h') \<and> deref h' w = Some (pv_wrap t) \<and>
                dumps enc h' w = Inr (enc t)"
proof -
  obtain v h1 where al: "alloc_tree t h = (v, h1)" by fastforce
  from alloc_tree_ok(1) [OF ok al] dp
  have ok1: "heap_ok h1" and dv: "deref_n 999 h1 v = Some t" by simp_all
  obtain w h' where wr: "wrap h1 v = (w, h')" by fastforce
  have dw: "deref_n 1000 h' w = Some (pv_wrap t)"
    using deref_n_wrap [OF ok1 dv] wr by simp
  then have du: "deref h' (unwrap h' w) = Some (pv_unwrap (pv_wrap t))"
    using deref_n_unwrap [of 999 h' w] by (simp add: deref_def recursion_limit_def)
  have "pv_unwrap (pv_wrap t) = t" using is_json_native [OF j]
    by (cases t) (simp_all add: pv_wrap_def pv_unwrap_def)
  with du dw is_json_native [OF j] have "deref h' w = Some (pv_wrap t) \<and> dumps enc h' w = Inr (enc t)"
    by (simp add: dumps_def deref_def recursion_limit_def)
  with d al wr show ?thesis by (simp add: loads_def)
qed

theorem dumps_loads_roundtrip_witness:
  "\<exists>w h'. loads Some empty_heap (PDict [(''key1'', PStr ''value1'')]) = Inr (w, h') \<and>
          deref h' w = Some (PJSONobj (PDict [(''key1'', PStr ''value1'')])) \<and>
          dumps id h' w = Inr (PDict [(''key1'', PStr ''value1'')])"
  using dumps_loads_roundtrip [OF heap_ok_empty, of Some "PDict [(''key1'', PStr ''value1'')]"
                                  "PDict [(''key1'', PStr ''value1'')]" id]
  by (simp add: pv_wrap_def)

text \<open>
  C36: on a heap with the boundary invariant \<open>dumps\<close> never raises TypeError: whatever a
  live value denotes, once unwrapped, is native and is encoded.
\<close>

theorem dumps_boundary:
  assumes b: "boundary_ok h" and v: "val_ok h obj" and d: "deref h (unwrap h obj) = Some t"
  shows "dumps enc h obj = Inr (enc t)"
proof -
  from unwrap_ok [OF b v] have "val_ok h (unwrap h obj)" and "\<not> is_wrapper_ref h (unwrap h obj)"
    by simp_all
  with b d have "native t" by (auto simp: deref_def intro: boundary_native)
  with d show ?thesis by (simp add: dumps_def)
qed

theorem dumps_boundary_witness:
  "dumps id test_heap (VRef 2) = Inr (PList [PStr ''value1'', PDict [(''foo'', PStr ''bar'')]])"
proof -
  have v: "val_ok test_heap (VRef 2)" by (simp add: val_ok_def test_heap_def)
  have d: "deref test_heap (unwrap test_heap (VRef 2)) =
             Some (PList [PStr ''value1'', PDict [(''foo'', PStr ''bar'')]])"
    by (simp add: test_heap_def py_simps)
  from dumps_boundary [OF test_heap_boundary_ok v d, of id] show ?thesis by simp
qed

text \<open>
  After \<open>arr.insert(0, w)\<close> with a wrapper \<open>w\<close>, \<open>dumps(arr)\<close> raises TypeError where it
  succeeded before: the wrapper \<open>insert\<close> stores is not JSON serializable.
\<close>

lemma dumps_after_insert_TypeError:
  "dumps enc test_heap (VRef 2) = Inr (enc (PList [PStr ''value1'', PDict [(''foo'', PStr ''bar'')]])) \<and>
   (\<exists>h'. arr_insert test_heap 2 0 (VRef 9) = Inr h' \<and> dumps enc h' (VRef 2) = Inl TypeError)"
proof
  show "dumps enc test_heap (VRef 2) = Inr (enc (PList [PStr ''value1'', PDict [(''foo'', PStr ''bar'')]]))"
    by (simp add: dumps_def test_heap_def py_simps)
  let ?h = "set_obj 1 (OList [VRef 9, VStr ''value1'', VRef 0]) test_heap"
  have i: "arr_insert test_heap 2 0 (VRef 9) = Inr ?h"
    by (simp add: test_heap_def arr_defs py_clamp_index_def insert_nth_def)
  have "dumps enc ?h (VRef 2) = Inl TypeError"
    by (simp add: dumps_def test_heap_def py_simps)
  with i show "\<exists>h'. arr_insert test_heap 2 0 (VRef 9) = Inr h' \<and> dumps enc h' (VRef 2) = Inl TypeError"
    by blast
qed

end
