(* ===== verification/Repr.thy ===== *)
theory Repr
  imports Serialize
begin

text \<open>
  The textual forms of the wrappers: \<open>__repr__\<close> (lines 123-124, 235-236) and
  \<open>__str__\<close> (lines 126-127, 238-239), with the builtins they call.  Python's \<open>repr\<close> is
  modelled on trees (\<open>pv_repr\<close>: string escapes, int digits, displays) and on the
  heap (\<open>val_repr\<close>, with CPython's guard that prints a container met again inside
  itself as \<open>[...]\<close> or \<open>{...}\<close>); \<open>eval\<close> on the literal syntax \<open>repr\<close> writes is a
  parser (\<open>parse_val\<close>, \<open>py_eval\<close>) and \<open>eval_heap\<close> allocates its result.  Lemmas:
  the parser reads back every printed tree (\<open>py_eval_repr_tree\<close>), the heap printer
  refines the tree printer (\<open>val_repr_deref\<close>), \<open>eval(repr(obj)) == obj\<close>, and
  \<open>str(obj)\<close> is \<open>jsonobj.dumps(obj)\<close>.
\<close>

section \<open>String literals\<close>

text \<open>
  \<open>str.__repr__\<close> (CPython's \<open>unicode_repr\<close>) on strings of code points below 256:
  the quote is \<open>"\<close> when the string holds a \<open>'\<close> and no \<open>"\<close>, else \<open>'\<close>; the quote
  and the backslash are escaped, tab, newline and return by letter, every other
  unprintable character (below space, DEL, 0x80-0xa0, the soft hyphen 0xad) as
  \<open>\\xhh\<close> with lower-case hex digits.
\<close>

abbreviation bslash :: char where "bslash \<equiv> CHR 0x5C"

definition hex_digit :: "nat \<Rightarrow> char" where
  "hex_digit d = (if d < 10 then char_of (48 + d) else char_of (87 + d))"

definition char_printable :: "char \<Rightarrow> bool" where
  "char_printable c = (let n = of_char c :: nat in (32 \<le> n \<and> n < 127) \<or> (161 \<le> n \<and> n \<noteq> 173))"

definition str_quote :: "string \<Rightarrow> char" where
  "str_quote s = (if CHR 0x27 \<in> set s \<and> CHR 0x22 \<notin> set s then CHR 0x22 else CHR 0x27)"

definition escape_char :: "char \<Rightarrow> char \<Rightarrow> string" where
  "escape_char q c =
     (if c = q \<or> c = bslash then [bslash, c]
      else if c = CHR 0x09 then [bslash, CHR ''t'']
      else if c = CHR 0x0A then [bslash, CHR ''n'']
      else if c = CHR 0x0D then [bslash, CHR ''r'']
      else if char_printable c then [c]
      else [bslash, CHR ''x'', hex_digit (of_char c div 16), hex_digit (of_char c mod 16)])"

definition str_repr :: "string \<Rightarrow> string" where
  "str_repr s = (let q = str_quote s in q # concat (map (escape_char q) s) @ [q])"

text \<open>
  Reading a string literal, as Python's tokenizer does for a one-line literal: the
  escapes \<open>\\\\ \\' \\" \\a \\b \\f \\n \\r \\t \\v \\xhh\<close> and the line continuation;
  an unknown escape keeps its backslash; a raw newline or an unterminated literal is
  a SyntaxError (None).  The octal, \<open>\\N\<close>, \<open>\\u\<close> and \<open>\\U\<close> escapes denote code points a
  8-bit \<open>char\<close> may not hold and are read as None.
\<close>

definition is_hex :: "char \<Rightarrow> bool" where
  "is_hex c = (let n = of_char c :: nat in
                 (48 \<le> n \<and> n \<le> 57) \<or> (97 \<le> n \<and> n \<le> 102) \<or> (65 \<le> n \<and> n \<le> 70))"

definition hex_val :: "char \<Rightarrow> nat" where
  "hex_val c = (let n = of_char c :: nat in if n \<le> 57 then n - 48 else if 97 \<le> n then n - 87 else n - 55)"

definition simple_escape :: "char \<Rightarrow> char option" where
  "simple_escape e = map_of
     [(bslash, bslash), (CHR 0x27, CHR 0x27), (CHR 0x22, CHR 0x22), (CHR ''a'', CHR 0x07),
      (CHR ''b'', CHR 0x08), (CHR ''f'', CHR 0x0C), (CHR ''n'', CHR 0x0A), (CHR ''r'', CHR 0x0D),
      (CHR ''t'', CHR 0x09), (CHR ''v'', CHR 0x0B)] e"

definition cons_res :: "'a \<Rightarrow> ('a list \<times> 'b) option \<Rightarrow> ('a list \<times> 'b) option" where
  "cons_res c r = map_option (\<lambda>(t, rest). (c # t, rest)) r"

fun parse_str_body :: "char \<Rightarrow> string \<Rightarrow> (string \<times> string) option"
  and parse_esc :: "char \<Rightarrow> string \<Rightarrow> (string \<times> string) option" where
  "parse_str_body q [] = None"
| "parse_str_body q (c # s) =
     (if c = q then Some ([], s)
      else if c = CHR 0x0A then None
      else if c = bslash then parse_esc q s
      else cons_res c (parse_str_body q s))"
| "parse_esc q [] = None"
| "parse_esc q (e # s) =
     (if e = CHR ''x'' then
        (case s of
           h1 # h2 # s' \<Rightarrow>
             if is_hex h1 \<and> is_hex h2
             then cons_res (char_of (16 * hex_val h1 + hex_val h2)) (parse_str_body q s')
             else None
         | _ \<Rightarrow> None)
      else if e = CHR 0x0A then parse_str_body q s
      else case simple_escape e of
        Some c \<Rightarrow> cons_res c (parse_str_body q s)
      | None \<Rightarrow> if e \<in> set ''01234567NuU'' then None
                else cons_res bslash (cons_res e (parse_str_body q s)))"

definition parse_str :: "string \<Rightarrow> (string \<times> string) option" where
  "parse_str s = (case s of
       q # s' \<Rightarrow> if q = CHR 0x27 \<or> q = CHR 0x22 then parse_str_body q s' else None
     | [] \<Rightarrow> None)"

lemma hex_digit_ok: "d < 16 \<Longrightarrow> is_hex (hex_digit d) \<and> hex_val (hex_digit d) = d"
  by (simp add: hex_digit_def is_hex_def hex_val_def)

lemma of_char_hex: "16 * (of_char c div 16) + of_char c mod 16 = (of_char c :: nat)"
  by simp

lemma parse_esc_quote:
  "q = CHR 0x27 \<or> q = CHR 0x22 \<Longrightarrow> c = q \<or> c = bslash \<Longrightarrow>
   parse_str_body q (bslash # c # r) = cons_res c (parse_str_body q r)"
  by (elim disjE) (simp_all add: simple_escape_def)

lemma parse_esc_hex:
  assumes "q = CHR 0x27 \<or> q = CHR 0x22"
  shows "parse_str_body q ([bslash, CHR ''x'', hex_digit (of_char c div 16), hex_digit (of_char c mod 16)] @ r) =
         cons_res c (parse_str_body q r)"
proof -
  have "of_char c div 16 < (16::nat)"
    using nat_of_char_less_256 [of c] by (simp add: div_less_iff_less_mult)
  then have h: "is_hex (hex_digit (of_char c div 16)) \<and> hex_val (hex_digit (of_char c div 16)) = of_char c div 16"
    by (rule hex_digit_ok)
  have l: "is_hex (hex_digit (of_char c mod 16)) \<and> hex_val (hex_digit (of_char c mod 16)) = of_char c mod 16"
    by (rule hex_digit_ok) simp
  have "char_of (16 * (of_char c div 16) + of_char c mod (16::nat)) = c"
    by (simp only: of_char_hex char_of_char)
  with assms h l show ?thesis by auto
qed

lemma parse_str_body_escape:
  assumes q: "q = CHR 0x27 \<or> q = CHR 0x22"
  shows "parse_str_body q (escape_char q c @ r) = cons_res c (parse_str_body q r)"
proof (cases "c = q \<or> c = bslash")
  case True
  then show ?thesis using parse_esc_quote [OF q True] by (simp add: escape_char_def)
next
  case nq: False
  show ?thesis
  proof (cases "c = CHR 0x09 \<or> c = CHR 0x0A \<or> c = CHR 0x0D")
    case True
    with q nq show ?thesis by (auto simp: escape_char_def simple_escape_def)
  next
    case False
    show ?thesis
    proof (cases "char_printable c")
      case True
      with q nq False show ?thesis by (auto simp: escape_char_def)
    next
      case np: False
      with nq False have "escape_char q c =
        [bslash, CHR ''x'', hex_digit (of_char c div 16), hex_digit (of_char c mod 16)]"
        by (simp add: escape_char_def)
      then show ?thesis using parse_esc_hex [OF q] by simp
    qed
  qed
qed

lemma parse_str_body_repr:
  "q = CHR 0x27 \<or> q = CHR 0x22 \<Longrightarrow>
   parse_str_body q (concat (map (escape_char q) s) @ q # r) = Some (s, r)"
  by (induction s) (simp_all add: parse_str_body_escape cons_res_def)

lemma parse_str_repr: "parse_str (str_repr s @ r) = Some (s, r)"
  by (simp add: str_repr_def parse_str_def Let_def parse_str_body_repr str_quote_def)

section \<open>Python's repr of a value\<close>

text \<open>
  \<open>repr\<close> on trees: the builtins' \<open>__repr__\<close> for None, bool, int, str, list, tuple
  (a one-item tuple keeps its comma) and dict (items as \<open>k: v\<close>, in insertion
  order), items joined by \<open>", "\<close>; a wrapper inside a container prints with its own
  \<open>__repr__\<close> (lines 123-124, 235-236).
\<close>

lemma size_mem_alist_snd:
  "kv \<in> set d \<Longrightarrow> size (snd kv) \<le> size_list (size_prod (\<lambda>_. 0) size) d"
  by (cases kv) (simp add: size_mem_alist)

fun commas :: "string list \<Rightarrow> string" where
  "commas [] = []"
| "commas [x] = x"
| "commas (x # y # ys) = x @ '', '' @ commas (y # ys)"

function pv_repr :: "pyval \<Rightarrow> string" where
  "pv_repr PNone = ''None''"
| "pv_repr (PBool b) = (if b then ''True'' else ''False'')"
| "pv_repr (PInt i) = int_repr i"
| "pv_repr (PStr s) = str_repr s"
| "pv_repr (PList xs) = CHR ''['' # commas (map pv_repr xs) @ '']''"
| "pv_repr (PTuple xs) =
     (case xs of [x] \<Rightarrow> CHR ''('' # pv_repr x @ '',)''
      | _ \<Rightarrow> CHR ''('' # commas (map pv_repr xs) @ '')'')"
| "pv_repr (PDict d) = CHR ''{'' # commas (map (\<lambda>kv. str_repr (fst kv) @ '': '' @ pv_repr (snd kv)) d) @ ''}''"
| "pv_repr (PJSONobj d) = ''jsonobj.JSONobj('' @ pv_repr d @ '')''"
| "pv_repr (PJSONarray s) = ''jsonobj.JSONarray('' @ pv_repr s @ '')''"
  by pat_completeness auto
termination
  by (relation "measure size")
     (auto dest: size_mem_list size_mem_alist_snd simp: less_Suc_eq_le)

section \<open>Reading a repr back: eval on literal syntax\<close>

text \<open>
  \<open>eval\<close> on the expressions \<open>repr\<close> produces: the constants None, True, False,
  integer and string literals, list, tuple and dict displays with string keys, and
  the calls \<open>jsonobj.JSONobj(e)\<close> and \<open>jsonobj.JSONarray(e)\<close>, whose \<open>__init__\<close>
  (lines 72-73, 149-150) stores the argument as it is.  A dict display with a repeated key
  keeps the first position and the last value (\<open>dict_of_items\<close>).  Items are
  separated by \<open>", "\<close> and a dict's key by \<open>": "\<close>, as \<open>repr\<close> writes them; other
  spacing, other expressions and trailing commas in lists are read as a SyntaxError
  (None).  The fuel bounds the nesting; \<open>py_eval\<close> gives one unit per character.
\<close>

definition skip :: "string \<Rightarrow> string \<Rightarrow> string option" where
  "skip p s = (if take (length p) s = p then Some (drop (length p) s) else None)"

definition dict_of_items :: "(string \<times> pyval) list \<Rightarrow> (string \<times> pyval) list" where
  "dict_of_items kvs = foldl (\<lambda>d kv. alist_set (fst kv) (snd kv) d) [] kvs"

fun parse_val :: "nat \<Rightarrow> string \<Rightarrow> (pyval \<times> string) option"
  and parse_seq :: "nat \<Rightarrow> char \<Rightarrow> string \<Rightarrow> (pyval list \<times> string) option"
  and parse_items :: "nat \<Rightarrow> string \<Rightarrow> ((string \<times> pyval) list \<times> string) option" where
  "parse_val 0 s = None"
| "parse_val (Suc n) [] = None"
| "parse_val (Suc n) (c # s) =
     (if c = CHR ''N'' \<and> take 3 s = ''one'' then Some (PNone, drop 3 s)
      else if c = CHR ''T'' \<and> take 3 s = ''rue'' then Some (PBool True, drop 3 s)
      else if c = CHR ''F'' \<and> take 4 s = ''alse'' then Some (PBool False, drop 4 s)
      else if c = CHR 0x27 \<or> c = CHR 0x22 then
        map_option (\<lambda>(x, r). (PStr x, r)) (parse_str_body c s)
      else if c = CHR ''-'' \<or> is_digit c then
        map_option (\<lambda>(i, r). (PInt i, r)) (parse_int (c # s))
      else if c = CHR ''['' then
        (case skip '']'' s of
           Some r \<Rightarrow> Some (PList [], r)
         | None \<Rightarrow> map_option (\<lambda>(xs, r). (PList xs, r)) (parse_seq n CHR '']'' s))
      else if c = CHR ''('' then
        (case skip '')'' s of
           Some r \<Rightarrow> Some (PTuple [], r)
         | None \<Rightarrow>
             (case parse_val n s of
                None \<Rightarrow> None
              | Some (v, r) \<Rightarrow>
                  (case skip '',)'' r of
                     Some r' \<Rightarrow> Some (PTuple [v], r')
                   | None \<Rightarrow>
                       (case skip '', '' r of
                          Some r' \<Rightarrow> map_option (\<lambda>(vs, r2). (PTuple (v # vs), r2))
                                       (parse_seq n CHR '')'' r')
                        | None \<Rightarrow> map_option (\<lambda>r'. (v, r')) (skip '')'' r)))))
      else if c = CHR ''{'' then
        (case skip ''}'' s of
           Some r \<Rightarrow> Some (PDict [], r)
         | None \<Rightarrow> map_option (\<lambda>(kvs, r). (PDict (dict_of_items kvs), r)) (parse_items n s))
      else if c = CHR ''j'' then
        (case skip ''sonobj.JSONobj('' s of
           Some r \<Rightarrow>
             (case parse_val n r of
                None \<Rightarrow> None
              | Some (v, r') \<Rightarrow> map_option (\<lambda>r2. (PJSONobj v, r2)) (skip '')'' r'))
         | None \<Rightarrow>
             (case skip ''sonobj.JSONarray('' s of
                Some r \<Rightarrow>
                  (case parse_val n r of
                     None \<Rightarrow> None
                   | Some (v, r') \<Rightarrow> map_option (\<lambda>r2. (PJSONarray v, r2)) (skip '')'' r'))
              | None \<Rightarrow> None))
      else None)"
| "parse_seq 0 cl s = None"
| "parse_seq (Suc n) cl s =
     (case parse_val n s of
        None \<Rightarrow> None
      | Some (v, r) \<Rightarrow>
          (case skip [cl] r of
             Some r' \<Rightarrow> Some ([v], r')
           | None \<Rightarrow> (case skip '', '' r of Some r' \<Rightarrow> cons_res v (parse_seq n cl r') | None \<Rightarrow> None)))"
| "parse_items 0 s = None"
| "parse_items (Suc n) s =
     (case parse_str s of
        None \<Rightarrow> None
      | Some (k, r) \<Rightarrow>
          (case skip '': '' r of
             None \<Rightarrow> None
           | Some r1 \<Rightarrow>
               (case parse_val n r1 of
                  None \<Rightarrow> None
                | Some (v, r2) \<Rightarrow>
                    (case skip ''}'' r2 of
                       Some r3 \<Rightarrow> Some ([(k, v)], r3)
                     | None \<Rightarrow>
                         (case skip '', '' r2 of
                            Some r3 \<Rightarrow> cons_res (k, v) (parse_items n r3)
                          | None \<Rightarrow> None)))))"

definition py_eval :: "string \<Rightarrow> pyval option" where
  "py_eval s = (case parse_val (Suc (length s)) s of Some (t, []) \<Rightarrow> Some t | _ \<Rightarrow> None)"

lemma skip_Nil [simp]: "skip [] s = Some s"
  by (simp add: skip_def)

lemma skip_Cons_Nil [simp]: "skip (d # p) [] = None"
  by (simp add: skip_def)

lemma skip_Cons_Cons [simp]: "skip (d # p) (c # s) = (if c = d then skip p s else None)"
  by (simp add: skip_def)

lemma skip_append [simp]: "skip p (p @ r) = Some r"
  by (induction p) simp_all

text \<open>What may follow a value inside a display: the end of input, a separator or a closer.\<close>

definition delim :: "string \<Rightarrow> bool" where
  "delim r = (r = [] \<or> hd r \<in> set '',)]}'')"

lemma delim_no_digit: "delim r \<Longrightarrow> no_digit_start r"
  by (auto simp: delim_def no_digit_start_def is_digit_def)

lemma int_repr_Cons: "\<exists>c cs. int_repr i = c # cs \<and> (c = CHR ''-'' \<or> is_digit c)"
  using dec_digits_ok [of "nat i"] by (cases "dec_digits (nat i)") (auto simp: int_repr_def)

lemma digit_not_punct: "is_digit c \<Longrightarrow> c \<notin> set '',)]}''"
  by (auto simp: is_digit_def)

lemma pv_repr_Cons: "\<exists>c cs. pv_repr t = c # cs \<and> c \<notin> set '',)]}''"
proof (cases t)
  case (PInt i)
  then show ?thesis using int_repr_Cons [of i] digit_not_punct by fastforce
qed (auto simp: str_repr_def Let_def str_quote_def split: list.split)

lemma parse_val_num:
  "c = CHR ''-'' \<or> is_digit c \<Longrightarrow>
   parse_val (Suc n) (c # s) = map_option (\<lambda>(i, r). (PInt i, r)) (parse_int (c # s))"
  by (auto simp: is_digit_def)

lemma parse_val_int: "delim r \<Longrightarrow> parse_val (Suc n) (int_repr i @ r) = Some (PInt i, r)"
proof -
  assume r: "delim r"
  obtain c cs where ic: "int_repr i = c # cs" and c: "c = CHR ''-'' \<or> is_digit c"
    using int_repr_Cons [of i] by blast
  have "parse_val (Suc n) (int_repr i @ r) = map_option (\<lambda>(i, r). (PInt i, r)) (parse_int (int_repr i @ r))"
    using parse_val_num [OF c, of n "cs @ r"] ic by simp
  then show ?thesis using parse_int_repr [OF delim_no_digit [OF r]] by simp
qed

lemma parse_val_str: "parse_val (Suc n) (str_repr s @ r) = Some (PStr s, r)"
  by (simp add: str_repr_def Let_def str_quote_def parse_str_body_repr)

lemma dict_of_items_acc:
  "distinct (map fst (acc @ kvs)) \<Longrightarrow>
   foldl (\<lambda>d kv. alist_set (fst kv) (snd kv) d) acc kvs = acc @ kvs"
proof (induction kvs arbitrary: acc)
  case (Cons kv kvs)
  have "alist_set (fst kv) (snd kv) acc = acc @ [kv]"
    using Cons.prems by (induction acc) auto
  with Cons show ?case by simp
qed simp

lemma dict_of_items_distinct: "distinct (map fst kvs) \<Longrightarrow> dict_of_items kvs = kvs"
  using dict_of_items_acc [of "[]" kvs] by (simp add: dict_of_items_def)

lemma skip_repr_None:
  "c \<in> set '',)]}'' \<Longrightarrow> skip (c # p) (pv_repr t @ r) = None"
  using pv_repr_Cons [of t] by auto

lemma parse_seq_repr:
  assumes ih: "\<And>x n r. x \<in> set xs \<Longrightarrow> size x < n \<Longrightarrow> delim r \<Longrightarrow>
                 parse_val n (pv_repr x @ r) = Some (x, r)"
    and ne: "xs \<noteq> []" and n: "size_list size xs < n" and cl: "cl = CHR '']'' \<or> cl = CHR '')''"
  shows "parse_seq n cl (commas (map pv_repr xs) @ cl # r) = Some (xs, r)"
  using ih ne n
proof (induction xs arbitrary: n rule: induct_list012)
  case (2 x)
  then obtain m where m: "n = Suc m" and "size x < m" by (cases n) auto
  with "2.prems"(1) cl have "parse_val m (pv_repr x @ cl # r) = Some (x, cl # r)"
    by (auto simp: delim_def)
  with m show ?case by simp
next
  case (3 x y ys)
  then obtain m where m: "n = Suc m" and sx: "size x < m" and sy: "size_list size (y # ys) < m"
    by (cases n) auto
  have "parse_val m (pv_repr x @ '', '' @ commas (map pv_repr (y # ys)) @ cl # r) =
        Some (x, '', '' @ commas (map pv_repr (y # ys)) @ cl # r)"
    using "3.prems"(1) sx by (simp add: delim_def)
  moreover have "parse_seq m cl (commas (map pv_repr (y # ys)) @ cl # r) = Some (y # ys, r)"
    using "3.IH"(2) "3.prems"(1) sy by simp
  ultimately show ?case using m cl by (auto simp: cons_res_def)
qed simp

abbreviation item_repr :: "string \<times> pyval \<Rightarrow> string" where
  "item_repr kv \<equiv> str_repr (fst kv) @ '': '' @ pv_repr (snd kv)"

lemma parse_items_repr:
  assumes ih: "\<And>kv n r. kv \<in> set d \<Longrightarrow> size (snd kv) < n \<Longrightarrow> delim r \<Longrightarrow>
                 parse_val n (pv_repr (snd kv) @ r) = Some (snd kv, r)"
    and ne: "d \<noteq> []" and n: "size_list (size_prod (\<lambda>_. 0) size) d < n"
  shows "parse_items n (commas (map item_repr d) @ ''}'' @ r) = Some (d, r)"
  using ih ne n
proof (induction d arbitrary: n rule: induct_list012)
  case (2 kv)
  obtain k v where kv: "kv = (k, v)" by fastforce
  from 2 kv obtain m where m: "n = Suc m" and "size v < m" by (cases n) auto
  with "2.prems"(1) kv have "parse_val m (pv_repr v @ ''}'' @ r) = Some (v, ''}'' @ r)"
    by (auto simp: delim_def)
  with m kv show ?case by (simp add: parse_str_repr)
next
  case (3 kv kv' kvs)
  obtain k v where kv: "kv = (k, v)" by fastforce
  from 3 kv obtain m where m: "n = Suc m" and sv: "size v < m"
    and st: "size_list (size_prod (\<lambda>_. 0) size) (kv' # kvs) < m"
    by (cases n) auto
  have "parse_val m (pv_repr v @ '', '' @ commas (map item_repr (kv' # kvs)) @ ''}'' @ r) =
        Some (v, '', '' @ commas (map item_repr (kv' # kvs)) @ ''}'' @ r)"
    using "3.prems"(1) [of kv] kv sv by (simp add: delim_def)
  moreover have "parse_items m (commas (map item_repr (kv' # kvs)) @ ''}'' @ r) = Some (kv' # kvs, r)"
    using "3.IH"(2) "3.prems"(1) st by simp
  ultimately show ?case using m kv by (simp add: parse_str_repr cons_res_def)
qed simp

lemma punct_not_digit [simp]:
  "\<not> is_digit CHR ''[''" "\<not> is_digit CHR ''(''" "\<not> is_digit CHR ''{''" "\<not> is_digit CHR ''j''"
  by (simp_all add: is_digit_def)

lemma commas_Cons: "commas (x # xs) = x @ (if xs = [] then [] else '', '' @ commas xs)"
  by (cases xs) simp_all

lemma parse_val_repr:
  "wf_pv t \<Longrightarrow> size t < n \<Longrightarrow> delim r \<Longrightarrow> parse_val n (pv_repr t @ r) = Some (t, r)"
proof (induction t arbitrary: n r)
  case PNone
  then show ?case by (cases n) simp_all
next
  case (PBool b)
  then show ?case by (cases n) simp_all
next
  case (PInt i)
  then show ?case by (cases n) (simp_all add: parse_val_int)
next
  case (PStr s)
  then show ?case by (cases n) (simp_all add: parse_val_str)
next
  case (PList xs)
  then obtain m where m: "n = Suc m" and sm: "size_list size xs < m" by (cases n) auto
  show ?case
  proof (cases "xs = []")
    case False
    have "parse_seq m CHR '']'' (commas (map pv_repr xs) @ CHR '']'' # r) = Some (xs, r)"
      using PList.IH PList.prems(1) False sm by (intro parse_seq_repr) auto
    moreover obtain y ys where "xs = y # ys" using False by (cases xs) auto
    ultimately show ?thesis
      using m skip_repr_None [of "CHR '']''" "[]" y] by (simp add: commas_Cons)
  qed (simp add: m)
next
  case (PTuple xs)
  then obtain m where m: "n = Suc m" and sm: "size_list size xs < m" by (cases n) auto
  have ih: "\<And>x n r. x \<in> set xs \<Longrightarrow> size x < n \<Longrightarrow> delim r \<Longrightarrow> parse_val n (pv_repr x @ r) = Some (x, r)"
    using PTuple.IH PTuple.prems(1) by auto
  show ?case
  proof (cases xs rule: remdups_adj.cases)
    case (2 x)
    have "parse_val m (pv_repr x @ '',)'' @ r) = Some (x, '',)'' @ r)"
      using ih [of x m] sm 2 by (simp add: delim_def)
    with m 2 show ?thesis using skip_repr_None [of "CHR '')''" "[]" x] by simp
  next
    case (3 x y ys)
    have "parse_val m (pv_repr x @ '', '' @ commas (map pv_repr (y # ys)) @ CHR '')'' # r) =
          Some (x, '', '' @ commas (map pv_repr (y # ys)) @ CHR '')'' # r)"
      using ih [of x m] sm 3 by (simp add: delim_def)
    moreover have "parse_seq m CHR '')'' (commas (map pv_repr (y # ys)) @ CHR '')'' # r) = Some (y # ys, r)"
      using ih sm 3 by (intro parse_seq_repr) auto
    ultimately show ?thesis using m 3 skip_repr_None [of "CHR '')''" "[]" x] by simp
  qed (simp add: m)
next
  case (PDict d)
  then obtain m where m: "n = Suc m" and sm: "size_list (size_prod (\<lambda>_. 0) size) d < m"
    by (cases n) auto
  show ?case
  proof (cases "d = []")
    case False
    have "parse_items m (commas (map item_repr d) @ ''}'' @ r) = Some (d, r)"
      using PDict.IH PDict.prems(1) False sm
      by (intro parse_items_repr) (auto simp: snds.simps)
    moreover obtain kv kvs where "d = kv # kvs" using False by (cases d) auto
    moreover have "dict_of_items d = d" using PDict.prems(1) by (simp add: dict_of_items_distinct)
    moreover have "skip ''}'' (commas (map item_repr (kv # kvs)) @ ''}'' @ r) = None"
      by (simp add: commas_Cons str_repr_def Let_def str_quote_def)
    ultimately show ?thesis using m by simp
  qed (simp add: m)
next
  case (PJSONobj d)
  then obtain m where m: "n = Suc m" and "size d < m" by (cases n) auto
  with PJSONobj have "parse_val m (pv_repr d @ '')'' @ r) = Some (d, '')'' @ r)"
    by (simp add: delim_def)
  with m show ?case by simp
next
  case (PJSONarray s)
  then obtain m where m: "n = Suc m" and "size s < m" by (cases n) auto
  with PJSONarray have "parse_val m (pv_repr s @ '')'' @ r) = Some (s, '')'' @ r)"
    by (simp add: delim_def)
  with m show ?case by simp
qed

lemma commas_length: "sum_list (map length ss) + 2 * length ss \<le> length (commas ss) + 2"
  by (induction ss rule: commas.induct) simp_all

lemma size_lt_repr: "size t < length (pv_repr t)"
proof (induction t)
  case (PInt i)
  then show ?case using int_repr_Cons [of i] by auto
next
  case (PStr s)
  then show ?case by (simp add: str_repr_def Let_def)
next
  case (PList xs)
  have "sum_list (map size xs) + length xs \<le> sum_list (map (\<lambda>x. length (pv_repr x)) xs)"
    using sum_list_mono [of xs "\<lambda>x. Suc (size x)" "\<lambda>x. length (pv_repr x)"] PList.IH
    by (simp add: sum_list_Suc Suc_le_eq)
  then show ?case using commas_length [of "map pv_repr xs"]
    by (cases xs) (simp_all add: size_list_conv_sum_list o_def)
next
  case (PTuple xs)
  have "sum_list (map size xs) + length xs \<le> sum_list (map (\<lambda>x. length (pv_repr x)) xs)"
    using sum_list_mono [of xs "\<lambda>x. Suc (size x)" "\<lambda>x. length (pv_repr x)"] PTuple.IH
    by (simp add: sum_list_Suc Suc_le_eq)
  then show ?case using commas_length [of "map pv_repr xs"]
    by (cases xs rule: remdups_adj.cases) (simp_all add: size_list_conv_sum_list o_def)
next
  case (PDict d)
  have "sum_list (map (\<lambda>kv. size (snd kv)) d) + length d \<le> sum_list (map (\<lambda>kv. length (pv_repr (snd kv))) d)"
    using sum_list_mono [of d "\<lambda>kv. Suc (size (snd kv))" "\<lambda>kv. length (pv_repr (snd kv))"] PDict.IH
    by (force simp: sum_list_Suc snds.simps)
  moreover have "sum_list (map (\<lambda>kv. length (pv_repr (snd kv))) d) + 4 * length d \<le>
                 sum_list (map (\<lambda>kv. length (item_repr kv)) d)"
    by (induction d) (simp_all add: str_repr_def Let_def)
  moreover have "size_list (size_prod (\<lambda>_. 0) size) d = sum_list (map (\<lambda>kv. size (snd kv)) d) + 2 * length d"
    by (induction d) auto
  ultimately show ?case using commas_length [of "map item_repr d"]
    by (cases d) (simp_all add: o_def)
qed simp_all

lemma py_eval_repr_tree: "wf_pv t \<Longrightarrow> py_eval (pv_repr t) = Some t"
  using parse_val_repr [of t "Suc (length (pv_repr t))" "[]"] size_lt_repr [of t]
  by (simp add: py_eval_def delim_def)

section \<open>repr on the heap\<close>

text \<open>
  \<open>repr(v)\<close> on the heap, as CPython computes it: a container that is already being
  printed further up (\<open>Py_ReprEnter\<close>) prints as \<open>[...]\<close>, \<open>(...)\<close> or \<open>{...}\<close>, after
  the check for an empty container; each nested call takes one unit of the recursion
  budget.  A wrapper prints with its \<open>__repr__\<close> (lines 123-124, 235-236), which
  formats the repr of its slot and enters no cycle check of its own.
\<close>

fun val_repr :: "nat \<Rightarrow> heap \<Rightarrow> addr list \<Rightarrow> val \<Rightarrow> string result" where
  "val_repr n h stk VNone = Inr ''None''"
| "val_repr n h stk (VBool b) = Inr (if b then ''True'' else ''False'')"
| "val_repr n h stk (VInt i) = Inr (int_repr i)"
| "val_repr n h stk (VStr s) = Inr (str_repr s)"
| "val_repr 0 h stk (VRef a) = Inl RecursionError"
| "val_repr (Suc n) h stk (VRef a) =
     (case objs h a of
        None \<Rightarrow> Inl TypeError
      | Some (ODict kvs) \<Rightarrow>
          if kvs = [] then Inr ''{}''
          else if a \<in> set stk then Inr ''{...}''
          else map_sum id (\<lambda>ss. CHR ''{'' # commas ss @ ''}'')
                 (res_list (map (\<lambda>kv. map_sum id (\<lambda>s. str_repr (fst kv) @ '': '' @ s)
                                        (val_repr n h (a # stk) (snd kv))) kvs))
      | Some (OList xs) \<Rightarrow>
          if xs = [] then Inr ''[]''
          else if a \<in> set stk then Inr ''[...]''
          else map_sum id (\<lambda>ss. CHR ''['' # commas ss @ '']'') (res_list (map (val_repr n h (a # stk)) xs))
      | Some (OTuple xs) \<Rightarrow>
          if xs = [] then Inr ''()''
          else if a \<in> set stk then Inr ''(...)''
          else map_sum id (\<lambda>ss. case ss of [s] \<Rightarrow> CHR ''('' # s @ '',)'' | _ \<Rightarrow> CHR ''('' # commas ss @ '')'')
                 (res_list (map (val_repr n h (a # stk)) xs))
      | Some (OJSONobj d) \<Rightarrow> map_sum id (\<lambda>s. ''jsonobj.JSONobj('' @ s @ '')'') (val_repr n h stk d)
      | Some (OJSONarray s) \<Rightarrow> map_sum id (\<lambda>t. ''jsonobj.JSONarray('' @ t @ '')'') (val_repr n h stk s))"

definition py_repr :: "heap \<Rightarrow> val \<Rightarrow> string result" where
  "py_repr h v = val_repr recursion_limit h [] v"

text \<open>\<open>JSONobj.__repr__\<close> and \<open>JSONarray.__repr__\<close> (lines 123-124, 235-236).\<close>

definition obj_repr :: "heap \<Rightarrow> addr \<Rightarrow> string result" where
  "obj_repr h self = rbind (obj_dict h self) (\<lambda>d. map_sum id (\<lambda>s. ''jsonobj.JSONobj('' @ s @ '')'') (py_repr h d))"

definition arr_repr :: "heap \<Rightarrow> addr \<Rightarrow> string result" where
  "arr_repr h self = rbind (arr_seq h self) (\<lambda>s. map_sum id (\<lambda>t. ''jsonobj.JSONarray('' @ t @ '')'') (py_repr h s))"

text \<open>
  \<open>JSONobj.__str__\<close> and \<open>JSONarray.__str__\<close> (lines 126-127, 238-239): \<open>json.dumps\<close> of
  the slot, with the encoder \<open>enc\<close> as in \<open>Serialize\<close>.
\<close>

definition obj_str :: "(pyval \<Rightarrow> 's) \<Rightarrow> heap \<Rightarrow> addr \<Rightarrow> 's result" where
  "obj_str enc h self =
     rbind (obj_dict h self)
       (\<lambda>d. case deref h d of
              None \<Rightarrow> Inl RecursionError
            | Some t \<Rightarrow> if native t then Inr (enc t) else Inl TypeError)"

definition arr_str :: "(pyval \<Rightarrow> 's) \<Rightarrow> heap \<Rightarrow> addr \<Rightarrow> 's result" where
  "arr_str enc h self =
     rbind (arr_seq h self)
       (\<lambda>s. case deref h s of
              None \<Rightarrow> Inl RecursionError
            | Some t \<Rightarrow> if native t then Inr (enc t) else Inl TypeError)"

text \<open>\<open>eval(s)\<close> on the heap: a SyntaxError, or the value built fresh, as a display does.\<close>

definition eval_heap :: "heap \<Rightarrow> string \<Rightarrow> (val \<times> heap) result" where
  "eval_heap h s = (case py_eval s of None \<Rightarrow> Inl SyntaxError | Some t \<Rightarrow> Inr (alloc_tree t h))"

text \<open>
  The cycle check never fires on a value whose read-out succeeds: the containers on the
  stack are strictly larger than the value printed beneath them.
\<close>

definition stack_above :: "heap \<Rightarrow> addr list \<Rightarrow> pyval \<Rightarrow> bool" where
  "stack_above h stk t = (\<forall>a \<in> set stk. \<forall>m t'. deref_n m h (VRef a) = Some t' \<longrightarrow> size t < size t')"

lemma stack_above_push:
  "stack_above h stk t \<Longrightarrow> deref_n m h (VRef a) = Some t \<Longrightarrow> size x < size t \<Longrightarrow>
   stack_above h (a # stk) x"
  unfolding stack_above_def by (metis deref_n_det order.strict_trans set_ConsD)

lemma stack_above_mono: "stack_above h stk t \<Longrightarrow> size u \<le> size t \<Longrightarrow> stack_above h stk u"
  unfolding stack_above_def by (meson le_less_trans)

lemma stack_above_notin: "stack_above h stk t \<Longrightarrow> deref_n m h (VRef a) = Some t \<Longrightarrow> a \<notin> set stk"
  unfolding stack_above_def by blast

lemma val_repr_deref:
  "deref_n n h v = Some t \<Longrightarrow> stack_above h stk t \<Longrightarrow> val_repr n h stk v = Inr (pv_repr t)"
proof (induction n arbitrary: v t stk)
  case 0
  then show ?case by (cases v) auto
next
  case (Suc n)
  show ?case
  proof (cases v)
    case (VRef a)
    note d = Suc.prems(1) [unfolded VRef]
    have na: "a \<notin> set stk" using stack_above_notin [OF Suc.prems(2) d] .
    show ?thesis
    proof (cases "objs h a")
      case (Some ob)
      show ?thesis
      proof (cases ob)
        case (ODict kvs)
        with d Some obtain vs where th: "those (map (deref_n n h) (map snd kvs)) = Some vs"
          and t: "t = PDict (zip (map fst kvs) vs)" by auto
        have l2: "list_all2 (\<lambda>x u. deref_n n h x = Some u) (map snd kvs) vs"
          by (rule those_deref_list_all2 [OF th])
        then have len: "length vs = length kvs" by (auto dest: list_all2_lengthD)
        have "list_all2 (\<lambda>kv u. map_sum id (\<lambda>s. str_repr (fst kv) @ '': '' @ s) (val_repr n h (a # stk) (snd kv)) =
                Inr (str_repr (fst u) @ '': '' @ pv_repr (snd u))) kvs (zip (map fst kvs) vs)"
        proof (rule list_all2_all_nthI)
          fix i assume i: "i < length kvs"
          then have di: "deref_n n h (snd (kvs ! i)) = Some (vs ! i)"
            using list_all2_nthD [OF l2, of i] by simp
          have "(fst (kvs ! i), vs ! i) \<in> set (zip (map fst kvs) vs)"
            using i len by (auto simp: set_zip intro!: exI [of _ i])
          then have "size (vs ! i) < size t" using t by (auto dest!: size_mem_alist)
          with Suc.prems(2) d have "stack_above h (a # stk) (vs ! i)" by (rule stack_above_push)
          with Suc.IH [OF di] i len show "map_sum id (\<lambda>s. str_repr (fst (kvs ! i)) @ '': '' @ s)
                 (val_repr n h (a # stk) (snd (kvs ! i))) =
                 Inr (str_repr (fst (zip (map fst kvs) vs ! i)) @ '': '' @ pv_repr (snd (zip (map fst kvs) vs ! i)))"
            by simp
        qed (simp add: len)
        from res_list_map_Inr [OF this] VRef Some ODict na t len show ?thesis by (simp add: o_def)
      next
        case (OList xs)
        with d Some obtain ts where th: "those (map (deref_n n h) xs) = Some ts" and t: "t = PList ts" by auto
        have "list_all2 (\<lambda>x u. val_repr n h (a # stk) x = Inr (pv_repr u)) xs ts"
          using those_deref_list_all2 [OF th]
        proof (rule list.rel_mono_strong)
          fix x u assume "x \<in> set xs" "u \<in> set ts" and dx: "deref_n n h x = Some u"
          then have "size u < size t" using t size_mem_list [of u ts] by simp
          with Suc.prems(2) d have "stack_above h (a # stk) u" by (rule stack_above_push)
          with Suc.IH [OF dx] show "val_repr n h (a # stk) x = Inr (pv_repr u)" .
        qed
        from res_list_map_Inr [OF this] VRef Some OList na t show ?thesis
          by (cases xs) (auto dest: list_all2_lengthD)
      next
        case (OTuple xs)
        with d Some obtain ts where th: "those (map (deref_n n h) xs) = Some ts" and t: "t = PTuple ts" by auto
        have "list_all2 (\<lambda>x u. val_repr n h (a # stk) x = Inr (pv_repr u)) xs ts"
          using those_deref_list_all2 [OF th]
        proof (rule list.rel_mono_strong)
          fix x u assume "x \<in> set xs" "u \<in> set ts" and dx: "deref_n n h x = Some u"
          then have "size u < size t" using t size_mem_list [of u ts] by simp
          with Suc.prems(2) d have "stack_above h (a # stk) u" by (rule stack_above_push)
          with Suc.IH [OF dx] show "val_repr n h (a # stk) x = Inr (pv_repr u)" .
        qed
        then have r: "res_list (map (val_repr n h (a # stk)) xs) = Inr (map pv_repr ts)"
          by (rule res_list_map_Inr)
        have "length xs = length ts" using those_deref_list_all2 [OF th] by (rule list_all2_lengthD)
        with r VRef Some OTuple na t show ?thesis
          by (cases ts rule: remdups_adj.cases) auto
      next
        case (OJSONobj x)
        with d Some obtain u where dx: "deref_n n h x = Some u" and t: "t = PJSONobj u" by auto
        have "stack_above h stk u" using Suc.prems(2) t by (simp add: stack_above_mono)
        with Suc.IH [OF dx] VRef Some OJSONobj t show ?thesis by simp
      next
        case (OJSONarray x)
        with d Some obtain u where dx: "deref_n n h x = Some u" and t: "t = PJSONarray u" by auto
        have "stack_above h stk u" using Suc.prems(2) t by (simp add: stack_above_mono)
        with Suc.IH [OF dx] VRef Some OJSONarray t show ?thesis by simp
      qed
    qed (use d in simp)
  qed (use Suc.prems in auto)
qed

lemma py_repr_deref: "deref h v = Some t \<Longrightarrow> py_repr h v = Inr (pv_repr t)"
  by (simp add: py_repr_def deref_def val_repr_deref stack_above_def)

lemma slot_deref:
  "objs h self = Some (OJSONobj d) \<Longrightarrow> deref h (VRef self) = Some t \<Longrightarrow>
   \<exists>u. t = PJSONobj u \<and> deref h d = Some u"
  "objs h self = Some (OJSONarray d) \<Longrightarrow> deref h (VRef self) = Some t \<Longrightarrow>
   \<exists>u. t = PJSONarray u \<and> deref h d = Some u"
  using deref_n_Suc_mono [of 999 h d] by (auto simp: deref_def recursion_limit_def numeral_eq_Suc)

text \<open>
  \<open>eval(s)\<close> of a repr: the value read back is allocated fresh and \<open>==\<close> to the original,
  for any value that reads out with distinct dict keys within the depth of the read-out.
\<close>

text \<open>A wrapper whose read-out succeeds prints as \<open>pv_repr\<close> of its tree.\<close>

lemma wrapper_repr_deref:
  "objs h self = Some (OJSONobj d) \<Longrightarrow> deref h (VRef self) = Some t \<Longrightarrow> obj_repr h self = Inr (pv_repr t)"
  "objs h self = Some (OJSONarray s) \<Longrightarrow> deref h (VRef self) = Some t \<Longrightarrow> arr_repr h self = Inr (pv_repr t)"
proof -
  show "obj_repr h self = Inr (pv_repr t)"
    if o: "objs h self = Some (OJSONobj d)" and t: "deref h (VRef self) = Some t"
  proof -
    obtain u where "t = PJSONobj u" and "deref h d = Some u" using slot_deref(1) [OF o t] by blast
    with o show ?thesis by (simp add: obj_repr_def obj_dict_def py_repr_deref)
  qed
  show "arr_repr h self = Inr (pv_repr t)"
    if o: "objs h self = Some (OJSONarray s)" and t: "deref h (VRef self) = Some t"
  proof -
    obtain u where "t = PJSONarray u" and "deref h s = Some u" using slot_deref(2) [OF o t] by blast
    with o show ?thesis by (simp add: arr_repr_def arr_seq_def py_repr_deref)
  qed
qed

lemma eval_repr_eq:
  assumes ok: "heap_ok h" and d: "deref h v = Some t" and wf: "wf_pv t" and dp: "pv_depth t < recursion_limit"
  shows "\<exists>w h'. eval_heap h (pv_repr t) = Inr (w, h') \<and> hext h h' \<and> heap_eq h' w v = Inr True"
proof -
  obtain w h' where al: "alloc_tree t h = (w, h')" by fastforce
  from alloc_tree_ok(1) [OF ok al] dp have x: "hext h h'" and dw: "deref h' w = Some t"
    by (simp_all add: deref_def)
  have "deref h' v = Some t" by (rule deref_hext [OF x d])
  with dw wf have "heap_eq h' w v = Inr True" by (simp add: heap_eq_def py_eq_refl)
  with al x wf show ?thesis by (simp add: eval_heap_def py_eval_repr_tree)
qed

lemma arr_repr_eval_roundtrip:
  assumes ok: "heap_ok h" and o: "objs h self = Some (OJSONarray s)"
    and t: "deref h (VRef self) = Some t" and wf: "wf_pv t" and dp: "pv_depth t < recursion_limit"
  shows "\<exists>r w h'. arr_repr h self = Inr r \<and> eval_heap h r = Inr (w, h') \<and> heap_eq h' w (VRef self) = Inr True"
proof -
  have "arr_repr h self = Inr (pv_repr t)" using wrapper_repr_deref(2) [OF o t] .
  with eval_repr_eq [OF ok t wf dp] show ?thesis by blast
qed

section \<open>Cycles\<close>

lemma those_None: "x \<in> set xs \<Longrightarrow> f x = None \<Longrightarrow> those (map f xs) = None"
  by (induction xs) (auto split: option.split)

text \<open>A dict holding itself never reads out: \<open>==\<close> and \<open>dumps\<close> on it raise.\<close>

lemma deref_n_self_loop:
  "objs h a = Some (ODict kvs) \<Longrightarrow> (k, VRef a) \<in> set kvs \<Longrightarrow> deref_n n h (VRef a) = None"
proof (induction n)
  case (Suc n)
  then have "VRef a \<in> set (map snd kvs)" by force
  with Suc have "those (map (deref_n n h) (map snd kvs)) = None" by (blast intro: those_None)
  with Suc.prems show ?case by simp
qed simp

text \<open>
  C32: \<open>eval(repr(obj)) == obj\<close> (test_repr): \<open>JSONobj.__repr__\<close> writes a call of the
  constructor on the repr of the dict, and evaluating that text builds a fresh
  \<open>JSONobj\<close> that compares equal to the original, for any instance whose contents read
  out with distinct keys.
\<close>

theorem obj_repr_eval_roundtrip:
  assumes ok: "heap_ok h" and o: "objs h self = Some (OJSONobj d)"
    and t: "deref h (VRef self) = Some t" and wf: "wf_pv t" and dp: "pv_depth t < recursion_limit"
  shows "\<exists>r w h'. obj_repr h self = Inr r \<and> eval_heap h r = Inr (w, h') \<and> heap_eq h' w (VRef self) = Inr True"
proof -
  have "obj_repr h self = Inr (pv_repr t)" using wrapper_repr_deref(1) [OF o t] .
  with eval_repr_eq [OF ok t wf dp] show ?thesis by blast
qed

theorem obj_repr_eval_roundtrip_witness:
  "\<exists>r w h'. obj_repr test_heap 5 = Inr r \<and> eval_heap test_heap r = Inr (w, h') \<and>
            heap_eq h' w (VRef 5) = Inr True"
proof -
  have o: "objs test_heap 5 = Some (OJSONobj (VRef 4))" by (simp add: test_heap_def)
  have t: "deref test_heap (VRef 5) =
    Some (PJSONobj (PDict [(''key1'', PStr ''value1''), (''key2'', PDict [(''foo'', PStr ''bar'')])]))"
    by (simp add: test_heap_def py_simps)
  show ?thesis
    by (rule obj_repr_eval_roundtrip [OF test_heap_ok o t]) (simp_all add: recursion_limit_def)
qed

text \<open>
  \<open>str(obj)\<close> and \<open>str(arr)\<close> are \<open>jsonobj.dumps\<close> of the wrapper: \<open>__str__\<close> encodes
  the slot, which is what \<open>unwrap\<close> hands the encoder, so the two agree on every heap,
  exceptions included.
\<close>

lemma str_is_dumps:
  "(objs h ob = Some (OJSONobj d) \<longrightarrow> obj_str enc h ob = dumps enc h (VRef ob)) \<and>
   (objs h ar = Some (OJSONarray s) \<longrightarrow> arr_str enc h ar = dumps enc h (VRef ar))"
  by (simp add: obj_str_def arr_str_def obj_dict_def arr_seq_def dumps_def unwrap_def)

section \<open>The texts of the fixtures\<close>

lemmas repr_text_simps = py_repr_def str_repr_def str_quote_def escape_char_def char_printable_def Let_def

text \<open>
  The item of an array that is a dict comes out of \<open>arr[i]\<close> as a \<open>JSONobj\<close>, whose repr
  carries the module prefix: \<open>jsonobj.JSONobj({'foo': 'bar'})\<close>, not the
  \<open>JSONobj({...})\<close> the class docstring of \<open>JSONarray\<close> shows.
\<close>

lemma repr_item_module_prefix:
  "\<exists>w h'. arr_getitem test_heap 2 1 = Inr (w, h') \<and>
          py_repr h' w = Inr ''jsonobj.JSONobj({'foo': 'bar'})''"
  by (simp add: arr_getitem_def arr_items_list test_heap_def py_simps repr_text_simps py_norm_index_def)

text \<open>
  After \<open>obj.me = obj\<close> the dict holds itself: \<open>repr\<close> still returns, marking the cycle
  with \<open>{...}\<close>, while the read-out behind \<open>==\<close> and \<open>dumps\<close> raises.
\<close>

lemma obj_repr_cycle:
  "\<exists>h'. obj_setattr test_heap 5 ''me'' (VRef 5) = Inr h' \<and>
        obj_repr h' 5 = Inr ''jsonobj.JSONobj({'key1': 'value1', 'key2': {'foo': 'bar'}, 'me': {...}})'' \<and>
        deref h' (VRef 4) = None \<and> dumps enc h' (VRef 5) = Inl RecursionError"
proof -
  let ?h = "set_obj 4 (ODict [(''key1'', VStr ''value1''), (''key2'', VRef 3), (''me'', VRef 4)]) test_heap"
  have s: "obj_setattr test_heap 5 ''me'' (VRef 5) = Inr ?h"
    by (simp add: obj_setattr_def obj_items_dict test_heap_def unwrap_def)
  have d: "deref ?h (VRef 4) = None"
    by (simp add: deref_def deref_n_self_loop [of _ 4 _ "''me''"] objs_set_obj)
  have r: "obj_repr ?h 5 = Inr ''jsonobj.JSONobj({'key1': 'value1', 'key2': {'foo': 'bar'}, 'me': {...}})''"
    by (simp add: obj_repr_def obj_dict_def test_heap_def py_simps repr_text_simps)
  have "dumps enc ?h (VRef 5) = Inl RecursionError"
    using d by (simp add: dumps_def unwrap_def test_heap_def objs_set_obj)
  with s d r show ?thesis by blast
qed

lemma obj_repr_fixture:
  "obj_repr test_heap 5 = Inr ''jsonobj.JSONobj({'key1': 'value1', 'key2': {'foo': 'bar'}})''"
  by (simp add: obj_repr_def obj_dict_def test_heap_def py_simps repr_text_simps)

text \<open>
  The texts \<open>repr\<close> writes on the fixtures, as CPython writes them: the object of
  test_repr prints as \<open>jsonobj.JSONobj({'key1': 'value1', 'key2': {'foo': 'bar'}})\<close>; a dict
  item read out of an array prints with the module prefix, unlike the docstring of
  \<open>JSONarray\<close>; and after \<open>obj.me = obj\<close> \<open>repr\<close> still returns, marking the cycle with
  \<open>{...}\<close>, where \<open>dumps\<close> raises.
\<close>

lemma repr_fixture_texts:
  "obj_repr test_heap 5 = Inr ''jsonobj.JSONobj({'key1': 'value1', 'key2': {'foo': 'bar'}})'' \<and>
   (\<exists>w h'. arr_getitem test_heap 2 1 = Inr (w, h') \<and>
           py_repr h' w = Inr ''jsonobj.JSONobj({'foo': 'bar'})'') \<and>
   (\<exists>h'. obj_setattr test_heap 5 ''me'' (VRef 5) = Inr h' \<and>
         obj_repr h' 5 = Inr ''jsonobj.JSONobj({'key1': 'value1', 'key2': {'foo': 'bar'}, 'me': {...}})'' \<and>
         dumps enc h' (VRef 5) = Inl RecursionError)"
  using obj_repr_fixture repr_item_module_prefix obj_repr_cycle [of enc] by blast

end
