(* ===== verification/Tests.thy ===== *)
theory Tests
  imports Repr
begin

text \<open>
  The unit tests of \<open>src/test_jsonobj.py\<close> as programs over the heap.  A test method is
  a definition whose value is its \<open>unittest\<close> outcome: \<open>Pass\<close> when every assertion
  holds, \<open>Failure\<close> when one does not, \<open>Error e\<close> when the code under test raises
  \<open>e\<close> and the test does not expect it, \<open>OutOfFuel\<close> when a loop of the test (a
  comprehension, \<open>extend\<close>) has not finished within the fuel the test is run with.
  The statements are read as CPython evaluates them, left to right, threading the heap;
  the operations are those of \<open>JSONObj\<close>, \<open>JSONArray\<close>, \<open>Serialize\<close> and \<open>Repr\<close>.
\<close>

section \<open>Outcomes and assertions\<close>

datatype outcome = Pass | Failure | Error py_error | OutOfFuel

text \<open>A statement that may raise, followed by the rest of the test.\<close>

definition obind :: "'a result \<Rightarrow> ('a \<Rightarrow> outcome) \<Rightarrow> outcome" where
  "obind r k = (case r of Inl e \<Rightarrow> Error e | Inr x \<Rightarrow> k x)"

text \<open>A statement that loops, run with fuel.\<close>

definition fbind :: "'a result option \<Rightarrow> ('a \<Rightarrow> outcome) \<Rightarrow> outcome" where
  "fbind r k = (case r of None \<Rightarrow> OutOfFuel | Some r' \<Rightarrow> obind r' k)"

text \<open>
  \<open>assertTrue\<close> on a condition that may itself raise; \<open>assertEqual\<close> and
  \<open>assertNotEqual\<close> evaluate \<open>first == second\<close> and \<open>first != second\<close>, which for
  these classes is the negation of \<open>==\<close>; \<open>assertIsInstance\<close> reads the type.
\<close>

definition assert_true :: "bool result \<Rightarrow> outcome \<Rightarrow> outcome" where
  "assert_true c k = obind c (\<lambda>b. if b then k else Failure)"

definition assert_eq :: "heap \<Rightarrow> val \<Rightarrow> val \<Rightarrow> outcome \<Rightarrow> outcome" where
  "assert_eq h x y k = assert_true (heap_eq h x y) k"

definition assert_ne :: "heap \<Rightarrow> val \<Rightarrow> val \<Rightarrow> outcome \<Rightarrow> outcome" where
  "assert_ne h x y k = assert_true (map_sum id Not (heap_eq h x y)) k"

definition assert_not :: "bool result \<Rightarrow> outcome \<Rightarrow> outcome" where
  "assert_not c k = assert_true (map_sum id Not c) k"

definition assert_isinstance :: "heap \<Rightarrow> val \<Rightarrow> py_type \<Rightarrow> outcome \<Rightarrow> outcome" where
  "assert_isinstance h x t k = (if val_type h x = Some t then k else Failure)"

text \<open>\<open>with self.assertRaises(e): stmt\<close>: the test goes on only when \<open>stmt\<close> raises \<open>e\<close>.\<close>

definition assert_raises :: "py_error \<Rightarrow> 'a result \<Rightarrow> outcome \<Rightarrow> outcome" where
  "assert_raises e r k = (case r of Inl e' \<Rightarrow> if e' = e then k else Error e' | Inr _ \<Rightarrow> Failure)"

lemmas assert_defs [py_simps] = obind_def fbind_def assert_true_def assert_eq_def assert_ne_def
  assert_not_def assert_isinstance_def assert_raises_def

section \<open>Expressions of the tests\<close>

text \<open>
  The heap after \<open>import jsonobj\<close>: the default arguments \<open>jsondict={}\<close> of
  \<open>JSONobj.__init__\<close> (address 0) and \<open>jsonseq=[]\<close> of \<open>JSONarray.__init__\<close>
  (address 1), evaluated once when the class bodies run.
\<close>

definition module_heap :: heap where
  "module_heap = snd (alloc (OList []) (snd (alloc (ODict []) empty_heap)))"

text \<open>\<open>jsonobj.JSONobj(display)\<close> and \<open>jsonobj.JSONarray(display)\<close>: the display is built, then the wrapper.\<close>

definition new_jsonobj :: "heap \<Rightarrow> pyval \<Rightarrow> addr \<times> heap" where
  "new_jsonobj h t = (let (d, h1) = alloc_tree t h in obj_init 0 h1 (Some d))"

definition new_jsonarray :: "heap \<Rightarrow> pyval \<Rightarrow> addr \<times> heap" where
  "new_jsonarray h t = (let (s, h1) = alloc_tree t h in arr_init 1 h1 (Some s))"

text \<open>
  \<open>v.name\<close> for a name that is not a class attribute, and \<open>v[i]\<close>, dispatched on the
  type of \<open>v\<close>: a wrapper runs its method, a builtin list or tuple indexes without
  wrapping, a dict looks the integer up among its string keys.
\<close>

definition attr_val :: "heap \<Rightarrow> val \<Rightarrow> string \<Rightarrow> (val \<times> heap) result" where
  "attr_val h v name =
     (case v of
        VRef b \<Rightarrow> (case objs h b of Some (OJSONobj _) \<Rightarrow> obj_getattr h b name | _ \<Rightarrow> Inl AttributeError)
      | _ \<Rightarrow> Inl AttributeError)"

definition subscript :: "heap \<Rightarrow> val \<Rightarrow> int \<Rightarrow> (val \<times> heap) result" where
  "subscript h v i =
     (case v of
        VRef b \<Rightarrow>
          (case objs h b of
             Some (OJSONarray _) \<Rightarrow> arr_getitem h b i
           | Some (OList xs) \<Rightarrow>
               (case py_norm_index i (length xs) of None \<Rightarrow> Inl IndexError | Some j \<Rightarrow> Inr (xs ! j, h))
           | Some (OTuple xs) \<Rightarrow>
               (case py_norm_index i (length xs) of None \<Rightarrow> Inl IndexError | Some j \<Rightarrow> Inr (xs ! j, h))
           | Some (ODict _) \<Rightarrow> Inl KeyError
           | _ \<Rightarrow> Inl TypeError)
      | _ \<Rightarrow> Inl TypeError)"

text \<open>\<open>[e for e in it]\<close>: the items collected with fuel, then stored in a fresh list.\<close>

definition list_comp :: "nat \<Rightarrow> heap \<Rightarrow> py_iter result \<Rightarrow> (val \<Rightarrow> heap \<Rightarrow> outcome) \<Rightarrow> outcome" where
  "list_comp n h itr k =
     obind itr (\<lambda>it. fbind (iter_all n h it) (\<lambda>(vs, h1). let (a, h2) = alloc (OList vs) h1 in k (VRef a) h2))"

text \<open>A display evaluated as an argument: the value is built on the heap.\<close>

definition with_display :: "heap \<Rightarrow> pyval \<Rightarrow> (val \<Rightarrow> heap \<Rightarrow> outcome) \<Rightarrow> outcome" where
  "with_display h t k = (let (v, h1) = alloc_tree t h in k v h1)"

lemmas expr_defs [py_simps] = module_heap_def new_jsonobj_def new_jsonarray_def attr_val_def
  subscript_def list_comp_def with_display_def

section \<open>Fixtures\<close>

definition obj_fixture :: pyval where
  "obj_fixture = PDict [(''key1'', PStr ''value1''), (''key2'', PDict [(''foo'', PStr ''bar'')])]"

definition arr_fixture :: pyval where
  "arr_fixture = PList [PStr ''value1'', PDict [(''foo'', PStr ''bar'')]]"

definition foo_bar :: pyval where
  "foo_bar = PDict [(''foo'', PStr ''bar'')]"

text \<open>The JSON text of \<open>Test_jsonobj\<close> and the tree \<open>json.loads\<close> gives for it.\<close>

definition json_text :: string where
  \<open>json_text = ''[{"key1": "value1"}, {"key2": "value2"}]''\<close>

definition json_tree :: pyval where
  "json_tree = PList [PDict [(''key1'', PStr ''value1'')], PDict [(''key2'', PStr ''value2'')]]"

text \<open>The texts that \<open>str\<close> of each fixture is expected to give.\<close>

definition obj_str_text :: string where
  \<open>obj_str_text = ''{"key1": "value1", "key2": {"foo": "bar"}}''\<close>

definition arr_str_text :: string where
  \<open>arr_str_text = ''["value1", {"foo": "bar"}]''\<close>

lemmas fixture_defs [py_simps] = obj_fixture_def arr_fixture_def foo_bar_def json_tree_def

section \<open>\<open>Test_jsonobj\<close>: the module functions (lines 7-32)\<close>

text \<open>
  \<open>json.loads\<close> and \<open>json.dumps\<close> are the codec \<open>dec\<close> and \<open>enc\<close> the tests are
  run with, as in \<open>Serialize\<close>; \<open>StringIO(s)\<close> reads as \<open>s\<close>, and \<open>getvalue()\<close>
  of a \<open>StringIO()\<close> is the concatenation of what was written to it.
\<close>

definition loaded_checks :: "heap \<Rightarrow> val \<Rightarrow> outcome" where
  "loaded_checks h w =
     obind (subscript h w 0) (\<lambda>(v0, h1). with_display h1 (PDict [(''key1'', PStr ''value1'')]) (\<lambda>d0 h2.
     assert_eq h2 v0 d0 (
     obind (subscript h2 w 1) (\<lambda>(v1, h3). with_display h3 (PDict [(''key2'', PStr ''value2'')]) (\<lambda>d1 h4.
     assert_eq h4 v1 d1 (
     obind (subscript h4 w 0) (\<lambda>(w0, h5). obind (attr_val h5 w0 ''key1'') (\<lambda>(x0, h6).
     assert_eq h6 x0 (VStr ''value1'') (
     obind (subscript h6 w 1) (\<lambda>(w1, h7). obind (attr_val h7 w1 ''key2'') (\<lambda>(x1, h8).
     assert_eq h8 x1 (VStr ''value2'') Pass)))))))))))"

definition test_loads :: "(string \<Rightarrow> pyval option) \<Rightarrow> outcome" where
  "test_loads dec = obind (loads dec module_heap json_text) (\<lambda>(w, h). loaded_checks h w)"

definition test_load :: "(string \<Rightarrow> pyval option) \<Rightarrow> outcome" where
  "test_load dec = obind (load dec module_heap json_text) (\<lambda>(w, h). loaded_checks h w)"

definition test_dumps :: "(string \<Rightarrow> pyval option) \<Rightarrow> (pyval \<Rightarrow> string) \<Rightarrow> outcome" where
  "test_dumps dec enc =
     obind (loads dec module_heap json_text) (\<lambda>(w, h).
     obind (dumps enc h w) (\<lambda>s. assert_eq h (VStr s) (VStr json_text) Pass))"

definition test_dump :: "(string \<Rightarrow> pyval option) \<Rightarrow> (pyval \<Rightarrow> string) \<Rightarrow> outcome" where
  "test_dump dec enc =
     obind (loads dec module_heap json_text) (\<lambda>(w, h).
     obind (dump enc h w []) (\<lambda>io. assert_eq h (VStr (concat io)) (VStr json_text) Pass))"

section \<open>\<open>TestJSONobj\<close> (lines 35-86)\<close>

definition obj_test_len :: outcome where
  "obj_test_len =
     (let (w, h) = new_jsonobj module_heap obj_fixture in
      obind (obj_len h w) (\<lambda>n. assert_eq h (VInt (int n)) (VInt 2) Pass))"

definition obj_test_contains :: outcome where
  "obj_test_contains =
     (let (w, h) = new_jsonobj module_heap obj_fixture in
      assert_true (obj_contains h w (VStr ''key1'')) (
      assert_true (obj_contains h w (VStr ''key2'')) (
      assert_not (obj_contains h w (VStr ''key3'')) Pass)))"

definition obj_test_iter :: "nat \<Rightarrow> outcome" where
  "obj_test_iter n =
     (let (w, h) = new_jsonobj module_heap obj_fixture in
      list_comp n h (obj_iter h w) (\<lambda>a h1.
      with_display h1 (PList [PStr ''key1'', PStr ''key2'']) (\<lambda>l h2. assert_eq h2 a l Pass)))"

definition obj_test_getattr :: outcome where
  "obj_test_getattr =
     (let (w, h) = new_jsonobj module_heap obj_fixture in
      obind (obj_getattr h w ''key1'') (\<lambda>(v1, h1).
      assert_eq h1 v1 (VStr ''value1'') (
      obind (obj_getattr h1 w ''key2'') (\<lambda>(v2, h2).
      assert_isinstance h2 v2 JSONobjType (
      obind (obj_getattr h2 w ''key2'') (\<lambda>(v3, h3). obind (attr_val h3 v3 ''foo'') (\<lambda>(v4, h4).
      assert_eq h4 v4 (VStr ''bar'') (
      assert_raises KeyError (obj_getattr h4 w ''key3'') Pass))))))))"

definition obj_test_setattr :: outcome where
  "obj_test_setattr =
     (let (w, h) = new_jsonobj module_heap obj_fixture in
      obind (obj_setattr h w ''key1'' (VStr ''update'')) (\<lambda>h1.
      obind (obj_getattr h1 w ''key1'') (\<lambda>(v1, h2).
      assert_eq h2 v1 (VStr ''update'') (
      obind (obj_setattr h2 w ''key3'' (VStr ''new'')) (\<lambda>h3.
      obind (obj_getattr h3 w ''key3'') (\<lambda>(v3, h4).
      assert_eq h4 v3 (VStr ''new'') Pass))))))"

definition obj_test_delattr :: outcome where
  "obj_test_delattr =
     (let (w, h) = new_jsonobj module_heap obj_fixture in
      obind (obj_delattr h w ''key1'') (\<lambda>h1. assert_not (obj_contains h1 w (VStr ''key1'')) Pass))"

definition obj_test_eq :: outcome where
  "obj_test_eq =
     (let (o1, h1) = new_jsonobj module_heap obj_fixture;
          (o2, h2) = new_jsonobj h1 obj_fixture;
          (o3, h3) = new_jsonobj h2 (PDict [(''key0'', PStr ''value0''), (''key2'', foo_bar)])
      in assert_eq h3 (VRef o1) (VRef o2) (
         with_display h3 obj_fixture (\<lambda>d h4.
         assert_eq h4 (VRef o1) d (
         assert_ne h4 (VRef o1) (VRef o3) Pass))))"

definition obj_test_repr :: outcome where
  "obj_test_repr =
     (let (w, h) = new_jsonobj module_heap obj_fixture in
      obind (obj_repr h w) (\<lambda>s. obind (eval_heap h s) (\<lambda>(v, h1). assert_eq h1 v (VRef w) Pass)))"

definition obj_test_str :: "(pyval \<Rightarrow> string) \<Rightarrow> outcome" where
  "obj_test_str enc =
     (let (w, h) = new_jsonobj module_heap obj_fixture in
      obind (obj_str enc h w) (\<lambda>s.
      assert_eq h (VStr s) (VStr obj_str_text) Pass))"

section \<open>The tests pass\<close>

text \<open>The evaluation of a test: the operations, the list helpers and the index arithmetic.\<close>

lemmas test_eval = py_norm_index_def py_clamp_index_def remove_nth_def insert_nth_def pv_unwrap_def

text \<open>Five steps of fuel are enough for every loop of the suite, and so is any more.\<close>

lemma fuel5: "5 \<le> n \<Longrightarrow> n = Suc (Suc (Suc (Suc (Suc (n - 5)))))"
  by simp

text \<open>
  \<open>assertEqual(eval(repr(w)), w)\<close> holds for a wrapper whose repr is \<open>pv_repr\<close> of a
  well-formed tree of bounded depth.
\<close>

lemma repr_check:
  assumes ok: "heap_ok h" and r: "r = Inr (pv_repr t)" and t: "deref h (VRef self) = Some t"
    and wf: "wf_pv t" and dp: "pv_depth t < recursion_limit"
  shows "obind r (\<lambda>s. obind (eval_heap h s) (\<lambda>(v, h1). assert_eq h1 v (VRef self) k)) = k"
proof -
  obtain w h' where "eval_heap h (pv_repr t) = Inr (w, h')" and "heap_eq h' w (VRef self) = Inr True"
    using eval_repr_eq [OF ok t wf dp] by blast
  with r show ?thesis by (simp add: obind_def assert_eq_def assert_true_def)
qed

lemma test_loads_passes: "dec json_text = Some json_tree \<Longrightarrow> test_loads dec = Pass"
  by (simp add: test_loads_def loaded_checks_def loads_def wrap_def py_simps test_eval)

lemma test_load_passes: "dec json_text = Some json_tree \<Longrightarrow> test_load dec = Pass"
  by (simp add: test_load_def load_def loaded_checks_def loads_def wrap_def py_simps test_eval)

lemma test_dumps_passes:
  "dec json_text = Some json_tree \<Longrightarrow> enc json_tree = json_text \<Longrightarrow> test_dumps dec enc = Pass"
  by (simp add: test_dumps_def loads_def dumps_def wrap_def unwrap_def py_simps test_eval)

lemma test_dump_passes:
  "dec json_text = Some json_tree \<Longrightarrow> enc json_tree = json_text \<Longrightarrow> test_dump dec enc = Pass"
  by (simp add: test_dump_def loads_def dump_def dumps_def wrap_def unwrap_def py_simps test_eval)

lemma obj_test_len_passes: "obj_test_len = Pass"
  by (simp add: obj_test_len_def py_simps)

lemma obj_test_contains_passes: "obj_test_contains = Pass"
  by (simp add: obj_test_contains_def py_simps)

lemma obj_test_iter_passes:
  assumes "5 \<le> n" shows "obj_test_iter n = Pass"
  by (subst fuel5 [OF assms]) (simp add: obj_test_iter_def py_simps)

lemma obj_test_getattr_passes: "obj_test_getattr = Pass"
  by (simp add: obj_test_getattr_def py_simps)

lemma obj_test_setattr_passes: "obj_test_setattr = Pass"
  by (simp add: obj_test_setattr_def py_simps)

lemma obj_test_delattr_passes: "obj_test_delattr = Pass"
  by (simp add: obj_test_delattr_def py_simps)

lemma obj_test_eq_passes: "obj_test_eq = Pass"
  by (simp add: obj_test_eq_def py_simps test_eval)

lemma obj_test_repr_passes: "obj_test_repr = Pass"
proof -
  obtain w h where nj: "new_jsonobj module_heap obj_fixture = (w, h)" by fastforce
  have ok: "heap_ok h" using nj by (auto simp: py_simps heap_ok_def)
  have o: "objs h w = Some (OJSONobj (VRef 3))" using nj by (auto simp: py_simps)
  have t: "deref h (VRef w) = Some (PJSONobj obj_fixture)" using nj by (auto simp: py_simps)
  have "obj_test_repr = obind (obj_repr h w) (\<lambda>s. obind (eval_heap h s) (\<lambda>(v, h1). assert_eq h1 v (VRef w) Pass))"
    by (simp add: obj_test_repr_def nj)
  also have "\<dots> = Pass"
    by (rule repr_check [OF ok wrapper_repr_deref(1) [OF o t] t]) (simp_all add: obj_fixture_def recursion_limit_def)
  finally show ?thesis .
qed

lemma obj_test_str_passes: "enc obj_fixture = obj_str_text \<Longrightarrow> obj_test_str enc = Pass"
  by (simp add: obj_test_str_def obj_str_def obj_dict_def py_simps)

end
