(* ===== verification/TestsArray.thy ===== *)
theory TestsArray
  imports Tests
begin

text \<open>
  The test methods of \<open>TestJSONarray\<close> (\<open>src/test_jsonobj.py\<close>, lines 89-212) as
  programs over the heap, with the outcomes and expressions of \<open>Tests\<close>.
\<close>

section \<open>Expressions on arrays\<close>

text \<open>\<open>len(v)\<close>, dispatched on the type of \<open>v\<close>.\<close>

definition len_val :: "heap \<Rightarrow> val \<Rightarrow> nat result" where
  "len_val h v =
     (case v of
        VStr s \<Rightarrow> Inr (length s)
      | VRef b \<Rightarrow>
          (case objs h b of
             Some (OJSONarray _) \<Rightarrow> arr_len h b
           | Some (OJSONobj _) \<Rightarrow> obj_len h b
           | Some (OList xs) \<Rightarrow> Inr (length xs)
           | Some (OTuple xs) \<Rightarrow> Inr (length xs)
           | Some (ODict kvs) \<Rightarrow> Inr (length kvs)
           | None \<Rightarrow> Inl TypeError)
      | _ \<Rightarrow> Inl TypeError)"

text \<open>
  The assertions the array tests repeat: \<open>assertEqual(len(v), n)\<close>,
  \<open>assertEqual(v[i], x)\<close> with \<open>x\<close> a literal, and with \<open>x\<close> a display built after \<open>v[i]\<close>.
\<close>

definition assert_len :: "heap \<Rightarrow> val \<Rightarrow> int \<Rightarrow> outcome \<Rightarrow> outcome" where
  "assert_len h v n k = obind (len_val h v) (\<lambda>m. assert_eq h (VInt (int m)) (VInt n) k)"

definition assert_item :: "heap \<Rightarrow> val \<Rightarrow> int \<Rightarrow> val \<Rightarrow> (heap \<Rightarrow> outcome) \<Rightarrow> outcome" where
  "assert_item h v i x k = obind (subscript h v i) (\<lambda>(y, h1). assert_eq h1 y x (k h1))"

definition assert_item_display :: "heap \<Rightarrow> val \<Rightarrow> int \<Rightarrow> pyval \<Rightarrow> (heap \<Rightarrow> outcome) \<Rightarrow> outcome" where
  "assert_item_display h v i t k =
     obind (subscript h v i) (\<lambda>(y, h1). with_display h1 t (\<lambda>x h2. assert_eq h2 y x (k h2)))"

lemmas arr_expr_defs [py_simps] = len_val_def assert_len_def assert_item_def assert_item_display_def

section \<open>\<open>TestJSONarray\<close>\<close>

definition arr_test_len :: outcome where
  "arr_test_len = (let (a, h) = new_jsonarray module_heap arr_fixture in assert_len h (VRef a) 2 Pass)"

definition arr_test_contains :: outcome where
  "arr_test_contains =
     (let (a, h) = new_jsonarray module_heap arr_fixture in
      assert_true (arr_contains h a (VStr ''value1'')) (
      with_display h foo_bar (\<lambda>d h1.
      assert_true (arr_contains h1 a d) (
      let (b, h2) = new_jsonobj h1 foo_bar in
      assert_true (arr_contains h2 a (VRef b)) (
      assert_not (arr_contains h2 a (VStr ''value2'')) Pass)))))"

definition arr_test_getitem :: outcome where
  "arr_test_getitem =
     (let (a, h) = new_jsonarray module_heap arr_fixture in
      assert_item h (VRef a) 0 (VStr ''value1'') (\<lambda>h1.
      obind (subscript h1 (VRef a) 1) (\<lambda>(y, h2).
      assert_isinstance h2 y JSONobjType (
      assert_raises IndexError (subscript h2 (VRef a) 2) Pass))))"

definition arr_test_setitem :: outcome where
  "arr_test_setitem =
     (let (a, h) = new_jsonarray module_heap arr_fixture in
      obind (arr_setitem h a 0 (VStr ''update'')) (\<lambda>h1.
      assert_item h1 (VRef a) 0 (VStr ''update'') (\<lambda>_. Pass)))"

definition arr_test_delitem :: outcome where
  "arr_test_delitem =
     (let (a, h) = new_jsonarray module_heap arr_fixture in
      obind (arr_delitem h a 0) (\<lambda>h1.
      assert_not (arr_contains h1 a (VStr ''value1'')) (
      assert_len h1 (VRef a) 1 Pass)))"

text \<open>\<open>test_iter\<close> and \<open>test_reversed\<close> collect the wrapped items into a builtin list.\<close>

definition arr_test_iter :: "nat \<Rightarrow> outcome" where
  "arr_test_iter n =
     (let (a, h) = new_jsonarray module_heap arr_fixture in
      list_comp n h (arr_iter h a) (\<lambda>l h1.
      assert_item h1 l 0 (VStr ''value1'') (\<lambda>h2.
      obind (subscript h2 l 1) (\<lambda>(y, h3).
      assert_isinstance h3 y JSONobjType (
      obind (subscript h3 l 1) (\<lambda>(z, h4).
      let (b, h5) = new_jsonobj h4 foo_bar in assert_eq h5 z (VRef b) Pass))))))"

definition arr_test_reversed :: "nat \<Rightarrow> outcome" where
  "arr_test_reversed n =
     (let (a, h) = new_jsonarray module_heap arr_fixture in
      list_comp n h (arr_reversed h a) (\<lambda>l h1.
      assert_item h1 l 1 (VStr ''value1'') (\<lambda>h2.
      obind (subscript h2 l 0) (\<lambda>(y, h3).
      assert_isinstance h3 y JSONobjType (
      obind (subscript h3 l 0) (\<lambda>(z, h4).
      let (b, h5) = new_jsonobj h4 foo_bar in assert_eq h5 z (VRef b) Pass))))))"

text \<open>\<open>index(value)\<close> runs with the defaults \<open>start=0, stop=-1\<close>.\<close>

definition arr_test_index :: outcome where
  "arr_test_index =
     (let (a, h) = new_jsonarray module_heap arr_fixture in
      obind (arr_index h a (VStr ''value1'') 0 (-1)) (\<lambda>i.
      assert_eq h (VInt (int i)) (VInt 0) (
      assert_raises ValueError (arr_index h a (VStr ''value2'') 0 (-1)) Pass)))"

definition arr_test_count :: outcome where
  "arr_test_count =
     (let (a, h) = new_jsonarray module_heap arr_fixture in
      obind (arr_count h a (VStr ''value1'')) (\<lambda>c1.
      assert_eq h (VInt (int c1)) (VInt 1) (
      let (b, h1) = new_jsonobj h foo_bar in
      obind (arr_count h1 a (VRef b)) (\<lambda>c2.
      assert_eq h1 (VInt (int c2)) (VInt 1) (
      obind (arr_count h1 a (VStr ''value2'')) (\<lambda>c3.
      assert_eq h1 (VInt (int c3)) (VInt 0) Pass))))))"

definition arr_test_insert :: outcome where
  "arr_test_insert =
     (let (a, h) = new_jsonarray module_heap arr_fixture in
      obind (arr_insert h a 0 (VStr ''insert'')) (\<lambda>h1.
      assert_item h1 (VRef a) 0 (VStr ''insert'') (\<lambda>h2.
      assert_item h2 (VRef a) 1 (VStr ''value1'') (\<lambda>h3.
      assert_len h3 (VRef a) 3 Pass))))"

definition arr_test_append :: outcome where
  "arr_test_append =
     (let (a, h) = new_jsonarray module_heap arr_fixture in
      obind (arr_append h a (VStr ''append'')) (\<lambda>h1.
      assert_item h1 (VRef a) 2 (VStr ''append'') (\<lambda>h2.
      assert_len h2 (VRef a) 3 Pass)))"

definition arr_test_clear :: outcome where
  "arr_test_clear =
     (let (a, h) = new_jsonarray module_heap arr_fixture in
      obind (arr_clear h a) (\<lambda>h1. assert_len h1 (VRef a) 0 Pass))"

definition arr_test_reverse :: outcome where
  "arr_test_reverse =
     (let (a, h) = new_jsonarray module_heap arr_fixture in
      obind (arr_reverse h a) (\<lambda>h1.
      assert_item h1 (VRef a) 1 (VStr ''value1'') (\<lambda>h2.
      assert_item_display h2 (VRef a) 0 foo_bar (\<lambda>_. Pass))))"

text \<open>
  \<open>test_extend\<close> and \<open>test_iadd\<close> run \<open>extend\<close> with fuel: first with the array
  itself, then with a fresh \<open>JSONarray\<close>, whose item the test reads back through the
  raw list \<open>array.seq\<close>.
\<close>

definition arr_test_extend :: "nat \<Rightarrow> outcome" where
  "arr_test_extend n =
     (let (a, h) = new_jsonarray module_heap arr_fixture in
      fbind (arr_extend n h a (VRef a)) (\<lambda>h1.
      assert_item h1 (VRef a) 2 (VStr ''value1'') (\<lambda>h2.
      assert_item_display h2 (VRef a) 3 foo_bar (\<lambda>h3.
      assert_len h3 (VRef a) 4 (
      let (b, h4) = new_jsonarray h3 (PList [PDict [(''key'', PStr ''value'')]]) in
      fbind (arr_extend n h4 a (VRef b)) (\<lambda>h5.
      obind (arr_seq h5 a) (\<lambda>s.
      assert_item_display h5 s 4 (PDict [(''key'', PStr ''value'')]) (\<lambda>h6.
      assert_len h6 (VRef a) 5 Pass))))))))"

text \<open>\<open>array += values\<close> rebinds \<open>array\<close> to what \<open>__iadd__\<close> returns.\<close>

definition arr_test_iadd :: "nat \<Rightarrow> outcome" where
  "arr_test_iadd n =
     (let (a, h) = new_jsonarray module_heap arr_fixture in
      fbind (arr_iadd n h a (VRef a)) (\<lambda>(x, h1).
      assert_item h1 x 2 (VStr ''value1'') (\<lambda>h2.
      assert_item_display h2 x 3 foo_bar (\<lambda>h3.
      assert_len h3 x 4 (
      let (b, h4) = new_jsonarray h3 (PList [PDict [(''key'', PStr ''value'')]]) in
      (case x of
         VRef a' \<Rightarrow>
           fbind (arr_iadd n h4 a' (VRef b)) (\<lambda>(y, h5).
           obind (case y of VRef a'' \<Rightarrow> arr_seq h5 a'' | _ \<Rightarrow> Inl AttributeError) (\<lambda>s.
           assert_item_display h5 s 4 (PDict [(''key'', PStr ''value'')]) (\<lambda>h6.
           assert_len h6 y 5 Pass)))
       | _ \<Rightarrow> Error TypeError))))))"

text \<open>\<open>test_pop\<close> pops the last item of one array and the first of a second one.\<close>

definition arr_test_pop :: outcome where
  "arr_test_pop =
     (let (a, h) = new_jsonarray module_heap arr_fixture in
      obind (arr_pop h a (-1)) (\<lambda>(p, h1).
      with_display h1 foo_bar (\<lambda>d h2.
      assert_eq h2 p d (
      assert_isinstance h2 p JSONobjType (
      assert_len h2 (VRef a) 1 (
      let (a2, h3) = new_jsonarray h2 arr_fixture in
      obind (arr_pop h3 a2 0) (\<lambda>(q, h4).
      assert_eq h4 q (VStr ''value1'') (
      assert_item_display h4 (VRef a2) 0 foo_bar (\<lambda>h5.
      assert_len h5 (VRef a2) 1 Pass)))))))))"

definition arr_test_remove :: outcome where
  "arr_test_remove =
     (let (a, h) = new_jsonarray module_heap arr_fixture in
      obind (arr_remove h a (VStr ''value1'')) (\<lambda>h1.
      assert_item_display h1 (VRef a) 0 foo_bar (\<lambda>h2.
      assert_len h2 (VRef a) 1 Pass)))"

definition arr_test_repr :: outcome where
  "arr_test_repr =
     (let (a, h) = new_jsonarray module_heap arr_fixture in
      obind (arr_repr h a) (\<lambda>s. obind (eval_heap h s) (\<lambda>(v, h1). assert_eq h1 v (VRef a) Pass)))"

definition arr_test_str :: "(pyval \<Rightarrow> string) \<Rightarrow> outcome" where
  "arr_test_str enc =
     (let (a, h) = new_jsonarray module_heap arr_fixture in
      obind (arr_str enc h a) (\<lambda>s. assert_eq h (VStr s) (VStr arr_str_text) Pass))"

section \<open>The suite\<close>

text \<open>
  The 32 test methods the runner collects from the three classes, by name, with the codec
  \<open>dec\<close>, \<open>enc\<close> and the fuel \<open>n\<close> of the tests that loop.
\<close>

definition test_suite :: "(string \<Rightarrow> pyval option) \<Rightarrow> (pyval \<Rightarrow> string) \<Rightarrow> nat \<Rightarrow> (string \<times> outcome) list" where
  "test_suite dec enc n =
     [(''Test_jsonobj.test_loads'', test_loads dec),
      (''Test_jsonobj.test_load'', test_load dec),
      (''Test_jsonobj.test_dumps'', test_dumps dec enc),
      (''Test_jsonobj.test_dump'', test_dump dec enc),
      (''TestJSONobj.test_len'', obj_test_len),
      (''TestJSONobj.test_contains'', obj_test_contains),
      (''TestJSONobj.test_iter'', obj_test_iter n),
      (''TestJSONobj.test_getattr'', obj_test_getattr),
      (''TestJSONobj.test_setattr'', obj_test_setattr),
      (''TestJSONobj.test_delattr'', obj_test_delattr),
      (''TestJSONobj.test_eq'', obj_test_eq),
      (''TestJSONobj.test_repr'', obj_test_repr),
      (''TestJSONobj.test_str'', obj_test_str enc),
      (''TestJSONarray.test_len'', arr_test_len),
      (''TestJSONarray.test_contains'', arr_test_contains),
      (''TestJSONarray.test_getitem'', arr_test_getitem),
      (''TestJSONarray.test_setitem'', arr_test_setitem),
      (''TestJSONarray.test_delitem'', arr_test_delitem),
      (''TestJSONarray.test_iter'', arr_test_iter n),
      (''TestJSONarray.test_reversed'', arr_test_reversed n),
      (''TestJSONarray.test_index'', arr_test_index),
      (''TestJSONarray.test_count'', arr_test_count),
      (''TestJSONarray.test_insert'', arr_test_insert),
      (''TestJSONarray.test_append'', arr_test_append),
      (''TestJSONarray.test_clear'', arr_test_clear),
      (''TestJSONarray.test_reverse'', arr_test_reverse),
      (''TestJSONarray.test_extend'', arr_test_extend n),
      (''TestJSONarray.test_pop'', arr_test_pop),
      (''TestJSONarray.test_remove'', arr_test_remove),
      (''TestJSONarray.test_iadd'', arr_test_iadd n),
      (''TestJSONarray.test_repr'', arr_test_repr),
      (''TestJSONarray.test_str'', arr_test_str enc)]"

section \<open>The array tests pass\<close>

lemma arr_test_len_passes: "arr_test_len = Pass"
  by (simp add: arr_test_len_def py_simps)

lemma arr_test_contains_passes: "arr_test_contains = Pass"
  by (simp add: arr_test_contains_def py_simps test_eval)

lemma arr_test_getitem_passes: "arr_test_getitem = Pass"
  by (simp add: arr_test_getitem_def py_simps test_eval)

lemma arr_test_setitem_passes: "arr_test_setitem = Pass"
  by (simp add: arr_test_setitem_def py_simps test_eval)

lemma arr_test_delitem_passes: "arr_test_delitem = Pass"
  by (simp add: arr_test_delitem_def py_simps test_eval)

lemma arr_test_iter_passes:
  assumes "5 \<le> n" shows "arr_test_iter n = Pass"
  by (subst fuel5 [OF assms]) (simp add: arr_test_iter_def py_simps test_eval)

lemma arr_test_reversed_passes:
  assumes "5 \<le> n" shows "arr_test_reversed n = Pass"
  by (subst fuel5 [OF assms]) (simp add: arr_test_reversed_def py_simps test_eval)

lemma arr_test_index_passes: "arr_test_index = Pass"
  by (simp add: arr_test_index_def py_simps test_eval)

lemma arr_test_count_passes: "arr_test_count = Pass"
  by (simp add: arr_test_count_def py_simps test_eval)

lemma arr_test_insert_passes: "arr_test_insert = Pass"
  by (simp add: arr_test_insert_def py_simps test_eval)

lemma arr_test_append_passes: "arr_test_append = Pass"
  by (simp add: arr_test_append_def py_simps test_eval)

lemma arr_test_clear_passes: "arr_test_clear = Pass"
  by (simp add: arr_test_clear_def py_simps)

lemma arr_test_reverse_passes: "arr_test_reverse = Pass"
  by (simp add: arr_test_reverse_def py_simps test_eval)

lemma arr_test_extend_passes:
  assumes "5 \<le> n" shows "arr_test_extend n = Pass"
  by (subst fuel5 [OF assms]) (simp add: arr_test_extend_def py_simps test_eval)

lemma arr_test_pop_passes: "arr_test_pop = Pass"
  by (simp add: arr_test_pop_def py_simps test_eval)

lemma arr_test_remove_passes: "arr_test_remove = Pass"
  by (simp add: arr_test_remove_def py_simps test_eval)

lemma arr_test_iadd_passes:
  assumes "5 \<le> n" shows "arr_test_iadd n = Pass"
  by (subst fuel5 [OF assms]) (simp add: arr_test_iadd_def py_simps test_eval)

lemma arr_test_repr_passes: "arr_test_repr = Pass"
proof -
  obtain a h where nj: "new_jsonarray module_heap arr_fixture = (a, h)" by fastforce
  have ok: "heap_ok h" using nj by (auto simp: py_simps heap_ok_def)
  have o: "objs h a = Some (OJSONarray (VRef 3))" using nj by (auto simp: py_simps)
  have t: "deref h (VRef a) = Some (PJSONarray arr_fixture)" using nj by (auto simp: py_simps)
  have "arr_test_repr = obind (arr_repr h a) (\<lambda>s. obind (eval_heap h s) (\<lambda>(v, h1). assert_eq h1 v (VRef a) Pass))"
    by (simp add: arr_test_repr_def nj)
  also have "\<dots> = Pass"
    by (rule repr_check [OF ok wrapper_repr_deref(2) [OF o t] t]) (simp_all add: arr_fixture_def recursion_limit_def)
  finally show ?thesis .
qed

lemma arr_test_str_passes: "enc arr_fixture = arr_str_text \<Longrightarrow> arr_test_str enc = Pass"
  by (simp add: arr_test_str_def arr_str_def arr_seq_def py_simps)

lemmas tests_pass = test_loads_passes test_load_passes test_dumps_passes test_dump_passes
  obj_test_len_passes obj_test_contains_passes obj_test_iter_passes obj_test_getattr_passes
  obj_test_setattr_passes obj_test_delattr_passes obj_test_eq_passes obj_test_repr_passes
  obj_test_str_passes arr_test_len_passes arr_test_contains_passes arr_test_getitem_passes
  arr_test_setitem_passes arr_test_delitem_passes arr_test_iter_passes arr_test_reversed_passes
  arr_test_index_passes arr_test_count_passes arr_test_insert_passes arr_test_append_passes
  arr_test_clear_passes arr_test_reverse_passes arr_test_extend_passes arr_test_pop_passes
  arr_test_remove_passes arr_test_iadd_passes arr_test_repr_passes arr_test_str_passes

text \<open>
  C33: with a codec whose \<open>json.loads\<close> decodes the text of \<open>Test_jsonobj\<close> to its tree
  and whose \<open>json.dumps\<close> encodes the trees the tests print to the texts they expect, each
  of the 32 test methods of \<open>test_jsonobj.py\<close> passes when its loops are given 5 steps of
  fuel or more.
\<close>

theorem test_suite_passes:
  assumes "dec json_text = Some json_tree" and "enc json_tree = json_text"
    and "enc obj_fixture = obj_str_text" and "enc arr_fixture = arr_str_text" and "5 \<le> n"
  shows "length (test_suite dec enc n) = 32 \<and> list_all (\<lambda>(name, r). r = Pass) (test_suite dec enc n)"
  using assms by (simp add: test_suite_def tests_pass)

theorem test_suite_passes_witness:
  "length (test_suite (\<lambda>s. if s = json_text then Some json_tree else None)
            (\<lambda>t. if t = json_tree then json_text else if t = obj_fixture then obj_str_text else arr_str_text) 5) = 32 \<and>
   list_all (\<lambda>(name, r). r = Pass)
     (test_suite (\<lambda>s. if s = json_text then Some json_tree else None)
        (\<lambda>t. if t = json_tree then json_text else if t = obj_fixture then obj_str_text else arr_str_text) 5)"
  by (rule test_suite_passes) (simp_all add: fixture_defs)

end
