(* ===== verification/Doctests.thy ===== *)
theory Doctests
  imports Tests
begin

text \<open>
  The examples in the docstrings of \<open>JSONobj\<close> (src/jsonobj.py, lines 78-89) and
  \<open>JSONarray\<close> (lines 137-146), as \<open>doctest\<close> runs them: each statement is executed
  in the module's namespace; an expression statement whose value is not None prints
  its \<open>repr\<close>, also inside a \<open>for\<close> loop, and the printed lines must be the ones the
  docstring shows.  A run ends with \<open>DocPass\<close>, with \<open>DocFail expected got\<close> at the
  first example whose output differs, with the exception an example raises, or out of
  fuel in a loop.
\<close>

section \<open>Doctest outcomes\<close>

datatype doc_outcome =
    DocPass
  | DocFail "string list" "string list"
  | DocError py_error
  | DocOutOfFuel

definition dbind :: "'a result \<Rightarrow> ('a \<Rightarrow> doc_outcome) \<Rightarrow> doc_outcome" where
  "dbind r k = (case r of Inl e \<Rightarrow> DocError e | Inr x \<Rightarrow> k x)"

text \<open>An example with output: the printed lines are compared with the expected ones.\<close>

definition expect :: "string list result \<Rightarrow> string list \<Rightarrow> doc_outcome \<Rightarrow> doc_outcome" where
  "expect got want k = dbind got (\<lambda>ls. if ls = want then k else DocFail want ls)"

text \<open>An expression statement: the \<open>repr\<close> of its value, one line.\<close>

definition shown :: "heap \<Rightarrow> val \<Rightarrow> string list result" where
  "shown h v = map_sum id (\<lambda>s. [s]) (py_repr h v)"

text \<open>\<open>for e in it: e\<close>: one \<open>__next__\<close> per unit of fuel, each item printed as it comes.\<close>

fun print_loop :: "nat \<Rightarrow> heap \<Rightarrow> py_iter \<Rightarrow> (string list \<times> heap) result option" where
  "print_loop 0 h it = None"
| "print_loop (Suc n) h it =
     (case iter_next h it of
        Inl e \<Rightarrow> Some (Inl e)
      | Inr (None, h') \<Rightarrow> Some (Inr ([], h'))
      | Inr (Some (v, it'), h') \<Rightarrow>
          (case py_repr h' v of
             Inl e \<Rightarrow> Some (Inl e)
           | Inr s \<Rightarrow> map_option (map_sum id (\<lambda>(ls, h''). (s # ls, h''))) (print_loop n h' it')))"

lemmas doc_defs [py_simps] = dbind_def expect_def shown_def

section \<open>The docstring of \<open>JSONobj\<close>\<close>

text \<open>The expected outputs, as the docstring writes them.\<close>

definition obj_doc_dict :: string where
  \<open>obj_doc_dict = ''{'key': 'value', 'foo': 'fiz'}''\<close>

definition obj_doc_str :: string where
  \<open>obj_doc_str = CHR 0x27 # ''{"key": "value"}'' @ [CHR 0x27]\<close>

text \<open>\<open>json.dumps\<close> of the dict left at the end of the example, the text \<open>str(obj)\<close> returns.\<close>

definition obj_doc_json :: string where
  \<open>obj_doc_json = ''{"key": "value"}''\<close>

definition obj_doc_key :: string where
  "obj_doc_key = CHR 0x27 # ''value'' @ [CHR 0x27]"

definition obj_doctest :: "(pyval \<Rightarrow> string) \<Rightarrow> doc_outcome" where
  "obj_doctest enc =
     (let (w, h) = new_jsonobj module_heap (PDict [(''key'', PStr ''value'')]) in
      dbind (obj_getattr h w ''key'') (\<lambda>(v1, h1).
      expect (shown h1 v1) [obj_doc_key] (
      dbind (obj_setattr h1 w ''foo'' (VStr ''bar'')) (\<lambda>h2.
      dbind (obj_contains h2 w (VStr ''foo'')) (\<lambda>b.
      expect (shown h2 (VBool b)) [''True''] (
      dbind (obj_setattr h2 w ''foo'' (VStr ''fiz'')) (\<lambda>h3.
      dbind (obj_dict h3 w) (\<lambda>d.
      expect (shown h3 d) [obj_doc_dict] (
      dbind (obj_delattr h3 w ''foo'') (\<lambda>h4.
      dbind (obj_str enc h4 w) (\<lambda>s.
      expect (shown h4 (VStr s)) [obj_doc_str] DocPass)))))))))))"

section \<open>The docstring of \<open>JSONarray\<close>\<close>

definition arr_doc_seq :: string where
  "arr_doc_seq = ''[{'key': 'value'}, {'foo': 'bar'}]''"

definition arr_doc_loop :: "string list" where
  "arr_doc_loop = [''JSONobj({'key': 'value'})'', ''JSONobj({'foo': 'bar'})'']"

definition arr_doctest :: "nat \<Rightarrow> doc_outcome" where
  "arr_doctest n =
     (let (a, h) = new_jsonarray module_heap (PList [PDict [(''key'', PStr ''value'')]]) in
      dbind (subscript h (VRef a) 0) (\<lambda>(w, h1). dbind (attr_val h1 w ''key'') (\<lambda>(v, h2).
      expect (shown h2 v) [obj_doc_key] (
      let (b, h3) = new_jsonobj h2 (PDict [(''foo'', PStr ''bar'')]) in
      dbind (arr_append h3 a (VRef b)) (\<lambda>h4.
      dbind (arr_seq h4 a) (\<lambda>s.
      expect (shown h4 s) [arr_doc_seq] (
      dbind (arr_iter h4 a) (\<lambda>it.
      case print_loop n h4 it of
        None \<Rightarrow> DocOutOfFuel
      | Some r \<Rightarrow> expect (map_sum id fst r) arr_doc_loop DocPass))))))))"

lemmas doc_texts = obj_doc_dict_def obj_doc_str_def obj_doc_json_def obj_doc_key_def arr_doc_seq_def
  arr_doc_loop_def

section \<open>What the examples print\<close>

text \<open>
  C22: run as \<open>doctest\<close> runs them, the examples in the docstring of \<open>JSONobj\<close> print
  what the docstring shows (given the encoder's text for the dict left at the end); those
  in the docstring of \<open>JSONarray\<close> do not: its loop prints each item as
  \<open>jsonobj.JSONobj(...)\<close>, the text \<open>__repr__\<close> writes, where the docstring shows
  \<open>JSONobj(...)\<close>.
\<close>

theorem docstring_examples:
  assumes enc: "enc (PDict [(''key'', PStr ''value'')]) = obj_doc_json" and fuel: "3 \<le> n"
  shows "obj_doctest enc = DocPass \<and>
         arr_doctest n = DocFail arr_doc_loop [''jsonobj.JSONobj({'key': 'value'})'', ''jsonobj.JSONobj({'foo': 'bar'})'']"
proof
  show "obj_doctest enc = DocPass"
    using enc by (simp add: obj_doctest_def obj_str_def py_simps repr_text_simps doc_texts)
  have n: "n = Suc (Suc (Suc (n - 3)))" using fuel by simp
  show "arr_doctest n = DocFail arr_doc_loop [''jsonobj.JSONobj({'key': 'value'})'', ''jsonobj.JSONobj({'foo': 'bar'})'']"
    by (subst n) (simp add: arr_doctest_def py_simps repr_text_simps doc_texts test_eval)
qed

theorem docstring_examples_witness:
  "obj_doctest (\<lambda>t. obj_doc_json) = DocPass \<and>
   arr_doctest 3 = DocFail arr_doc_loop [''jsonobj.JSONobj({'key': 'value'})'', ''jsonobj.JSONobj({'foo': 'bar'})'']"
  using docstring_examples [of "\<lambda>t. obj_doc_json" 3] by simp

end
