(* ===== verification/Setup.thy ===== *)
theory Setup
  imports Prelude
begin

text \<open>
  Packaging: src/setup.py reads README.md and calls \<open>setuptools.setup\<close> with the
  package metadata, taking the version, author and description from the module
  attributes of src/jsonobj.py (lines 1-4).  The theory models the metadata as a
  record, the \<open>python_requires\<close> specifier with the PEP 440 semantics that pip applies to
  it (release versions: zero-padded comparison, prefix matching for \<open>.*\<close>), the
  Python versions the classifiers name, and the script's dependence on the running
  Python: \<open>open(..., encoding=...)\<close> exists from Python 3 on.
\<close>

section \<open>Module attributes\<close>

definition jsonobj_doc :: string where
  "jsonobj_doc = ''Wrapper module to provide a simple property accessor for JSON objects.''"

definition jsonobj_version :: string where
  "jsonobj_version = ''0.1.0''"

definition jsonobj_author :: string where
  "jsonobj_author = ''skitchy''"

section \<open>Release versions\<close>

type_synonym version = "nat list"

text \<open>\<open>str.split(c)\<close> and \<open>str.strip()\<close> (of spaces).\<close>

fun split_on :: "char \<Rightarrow> string \<Rightarrow> string list" where
  "split_on c [] = [[]]"
| "split_on c (x # xs) =
     (if x = c then [] # split_on c xs
      else (case split_on c xs of w # ws \<Rightarrow> (x # w) # ws | [] \<Rightarrow> [[x]]))"

definition str_strip :: "string \<Rightarrow> string" where
  "str_strip s = rev (dropWhile (\<lambda>c. c = CHR '' '') (rev (dropWhile (\<lambda>c. c = CHR '' '') s)))"

definition parse_component :: "string \<Rightarrow> nat option" where
  "parse_component w = (if w \<noteq> [] \<and> (\<forall>c \<in> set w. is_digit c) then Some (digits_value w) else None)"

definition parse_release :: "string \<Rightarrow> version option" where
  "parse_release s = those (map parse_component (split_on CHR ''.'' s))"

text \<open>Comparison of release segments, the shorter one padded with zeros.\<close>

fun ver_le :: "version \<Rightarrow> version \<Rightarrow> bool" where
  "ver_le [] ys = True"
| "ver_le (x # xs) [] = (x = 0 \<and> ver_le xs [])"
| "ver_le (x # xs) (y # ys) = (x < y \<or> (x = y \<and> ver_le xs ys))"

definition ver_eq :: "version \<Rightarrow> version \<Rightarrow> bool" where
  "ver_eq a b = (ver_le a b \<and> ver_le b a)"

definition prefix_match :: "version \<Rightarrow> version \<Rightarrow> bool" where
  "prefix_match p v = (take (length p) (v @ replicate (length p) 0) = p)"

section \<open>Version specifiers\<close>

datatype spec_op = OpCompatible | OpEq | OpNe | OpLe | OpGe | OpLt | OpGt

datatype clause = Clause spec_op version bool

definition spec_ops :: "(string \<times> spec_op) list" where
  "spec_ops = [(''~='', OpCompatible), (''=='', OpEq), (''!='', OpNe), (''<='', OpLe),
               (''>='', OpGe), (''<'', OpLt), (''>'', OpGt)]"

text \<open>
  One clause: an operator, then a release; \<open>==\<close> and \<open>!=\<close> also take a prefix \<open>X.Y.*\<close>,
  and \<open>~=\<close> needs two segments at least.
\<close>

definition parse_clause :: "string \<Rightarrow> clause option" where
  "parse_clause s =
     (case find (\<lambda>po. take (length (fst po)) s = fst po) spec_ops of
        None \<Rightarrow> None
      | Some (p, op) \<Rightarrow>
          (let v = str_strip (drop (length p) s) in
           if 2 \<le> length v \<and> drop (length v - 2) v = ''.*'' then
             (if op = OpEq \<or> op = OpNe
              then map_option (\<lambda>r. Clause op r True) (parse_release (take (length v - 2) v))
              else None)
           else
             (case parse_release v of
                None \<Rightarrow> None
              | Some r \<Rightarrow> if op = OpCompatible \<and> length r < 2 then None else Some (Clause op r False))))"

text \<open>A specifier set: clauses separated by commas, each stripped, empty ones dropped.\<close>

definition parse_specifiers :: "string \<Rightarrow> clause list option" where
  "parse_specifiers s =
     those (map parse_clause (filter (\<lambda>w. w \<noteq> []) (map str_strip (split_on CHR '','' s))))"

fun clause_ok :: "clause \<Rightarrow> version \<Rightarrow> bool" where
  "clause_ok (Clause OpEq p w) v = (if w then prefix_match p v else ver_eq v p)"
| "clause_ok (Clause OpNe p w) v = (\<not> (if w then prefix_match p v else ver_eq v p))"
| "clause_ok (Clause OpLe p _) v = ver_le v p"
| "clause_ok (Clause OpGe p _) v = ver_le p v"
| "clause_ok (Clause OpLt p _) v = (\<not> ver_le p v)"
| "clause_ok (Clause OpGt p _) v = (\<not> ver_le v p)"
| "clause_ok (Clause OpCompatible p _) v = (ver_le p v \<and> prefix_match (butlast p) v)"

definition spec_admits :: "clause list \<Rightarrow> version \<Rightarrow> bool" where
  "spec_admits cs v = list_all (\<lambda>c. clause_ok c v) cs"

section \<open>The setup call\<close>

text \<open>The keyword arguments of \<open>setup(...)\<close> (lines 13-45).\<close>

record setup_args =
  name :: string
  version :: string
  py_modules :: "string list"
  python_requires :: string
  description :: string
  url :: string
  author :: string
  author_email :: string
  license :: string
  long_description :: string
  long_description_content_type :: string
  classifiers :: "string list"
  keywords_arg :: string
  project_urls :: "(string \<times> string) list"

definition setup_kwargs :: "string \<Rightarrow> setup_args" where
  "setup_kwargs readme =
     \<lparr>name = ''jsonobj'', version = jsonobj_version, py_modules = [''jsonobj''],
      python_requires = ''>=2.7, !=3.0.*'',
      description = jsonobj_doc, url = ''https://github.com/skitschy/pyJSONobj'',
      author = jsonobj_author, author_email = ''s1kitschy@gmail.com'', license = ''MIT'',
      long_description = readme, long_description_content_type = ''text/markdown'',
      classifiers =
        [''Development Status :: 5 - Production/Stable'',
         ''License :: OSI Approved :: MIT License'',
         ''Intended Audience :: Developers'',
         ''Operating System :: OS Independent'',
         ''Programming Language :: Python'',
         ''Programming Language :: Python :: 2'',
         ''Programming Language :: Python :: 2.7'',
         ''Programming Language :: Python :: 3'',
         ''Programming Language :: Python :: 3.3'',
         ''Programming Language :: Python :: 3.5'',
         ''Programming Language :: Python :: 3.6'',
         ''Programming Language :: Python :: 3.7''],
      keywords_arg = ''json'',
      project_urls = [(''Documentation'', ''https://pyjsonobj.readthedocs.io/''),
                      (''Source'', ''https://github.com/skitschy/pyJSONobj'')]\<rparr>"

text \<open>
  Running the script under Python \<open>pyv\<close> (lines 8-13): the builtin \<open>open\<close> takes
  \<open>encoding\<close> from Python 3 on; Python 2's \<open>open(name, mode, buffering)\<close> rejects the
  keyword with a TypeError before \<open>setup\<close> is reached.
\<close>

definition open_has_encoding :: "version \<Rightarrow> bool" where
  "open_has_encoding pyv = ver_le [3] pyv"

definition setup_py :: "version \<Rightarrow> string \<Rightarrow> setup_args result" where
  "setup_py pyv readme = (if open_has_encoding pyv then Inr (setup_kwargs readme) else Inl TypeError)"

text \<open>The versions named by the \<open>Programming Language :: Python :: X.Y\<close> classifiers.\<close>

definition classifier_prefix :: string where
  "classifier_prefix = ''Programming Language :: Python :: ''"

definition classifier_versions :: "string list \<Rightarrow> version list" where
  "classifier_versions cls =
     [v. c \<leftarrow> cls, v \<leftarrow> (if take (length classifier_prefix) c = classifier_prefix
                         then (case parse_release (drop (length classifier_prefix) c) of
                                 Some v \<Rightarrow> if 2 \<le> length v then [v] else []
                               | None \<Rightarrow> [])
                         else [])]"

section \<open>Lemmas\<close>

lemma ver_le_refl: "ver_le v v"
  by (induction v) simp_all

lemma ver_le_Nil_iff: "ver_le v [] = (\<forall>x \<in> set v. x = 0)"
  by (induction v) simp_all

lemma ver_le_trans: "ver_le a b \<Longrightarrow> ver_le b c \<Longrightarrow> ver_le a c"
proof (induction a b arbitrary: c rule: ver_le.induct)
  case (2 x xs)
  then show ?case by (cases c) (auto simp: ver_le_Nil_iff)
next
  case (3 x xs y ys)
  then show ?case by (cases c) (use "3.IH" [of "[]"] in \<open>auto simp: ver_le_Nil_iff\<close>)
qed simp

lemma ver_le_total: "ver_le a b \<or> ver_le b a"
  by (induction a b rule: ver_le.induct) (auto simp: ver_le_Nil_iff)

lemma parse_python_requires:
  "parse_specifiers (python_requires (setup_kwargs r)) = Some [Clause OpGe [2, 7] False, Clause OpNe [3, 0] True]"
  by (simp add: setup_kwargs_def parse_specifiers_def parse_clause_def spec_ops_def str_strip_def
                parse_release_def parse_component_def is_digit_def digits_value_def digit_val_def)

lemma classifier_versions_setup:
  "classifier_versions (classifiers (setup_kwargs r)) = [[2, 7], [3, 3], [3, 5], [3, 6], [3, 7]]"
  by (simp add: setup_kwargs_def classifier_versions_def classifier_prefix_def
                parse_release_def parse_component_def is_digit_def digits_value_def digit_val_def)

lemma setup_py_py3: "ver_le [3] pyv \<Longrightarrow> setup_py pyv r = Inr (setup_kwargs r)"
  by (simp add: setup_py_def open_has_encoding_def)

text \<open>
  The script itself fails on a version it declares: under Python 2.7, admitted by
  \<open>python_requires\<close> and named by a classifier, \<open>open(..., encoding='utf-8')\<close> raises
  TypeError.
\<close>

lemma setup_py_fails_on_admitted:
  "\<exists>cs. parse_specifiers (python_requires (setup_kwargs r)) = Some cs \<and> spec_admits cs [2, 7] \<and>
        [2, 7] \<in> set (classifier_versions (classifiers (setup_kwargs r))) \<and>
        setup_py [2, 7] r = Inl TypeError"
  by (simp add: parse_python_requires classifier_versions_setup spec_admits_def prefix_match_def
                setup_py_def open_has_encoding_def)

text \<open>
  The metadata is consistent: the version is the release 0.1.0 of
  \<open>jsonobj.__version__\<close>, \<open>python_requires='>=2.7, !=3.0.*'\<close> admits exactly the Python
  versions from 2.7 on outside 3.0.x, and every \<open>Python :: X.Y\<close> classifier names an
  admitted version; but the script runs only from Python 3 on, and under the admitted
  2.7 it raises TypeError.
\<close>

lemma setup_python_requires:
  "parse_release (version (setup_kwargs r)) = Some [0, 1, 0] \<and>
   (\<exists>cs. parse_specifiers (python_requires (setup_kwargs r)) = Some cs \<and>
         (\<forall>v. spec_admits cs v = (ver_le [2, 7] v \<and> \<not> prefix_match [3, 0] v)) \<and>
         list_all (spec_admits cs) (classifier_versions (classifiers (setup_kwargs r)))) \<and>
   (\<forall>pyv. setup_py pyv r = (if ver_le [3] pyv then Inr (setup_kwargs r) else Inl TypeError)) \<and>
   setup_py [2, 7] r = Inl TypeError"
proof -
  have "parse_release (version (setup_kwargs r)) = Some [0, 1, 0]"
    by (simp add: setup_kwargs_def jsonobj_version_def parse_release_def parse_component_def
                  is_digit_def digits_value_def digit_val_def)
  moreover have "list_all (spec_admits [Clause OpGe [2, 7] False, Clause OpNe [3, 0] True])
                   [[2, 7], [3, 3], [3, 5], [3, 6], [3, 7]]"
    by (simp add: spec_admits_def prefix_match_def ver_eq_def)
  ultimately show ?thesis
    by (simp add: parse_python_requires classifier_versions_setup spec_admits_def setup_py_def
                  open_has_encoding_def)
qed

end
