(* ===== verification/DictSpec.thy ===== *)
theory DictSpec
  imports JSONObj
begin

text \<open>
  \<open>JSONobj\<close> against its abstract specification, a Python dict of values: read out
  as a tree, the instance's dict is an association list \<open>d\<close> of keys and trees, and
  the methods act on \<open>d\<close> as the map operations do (\<open>map_of\<close> of the result is
  \<open>(map_of d)(k \<mapsto> t)\<close>, \<open>(map_of d)(k := None)\<close>, lookup wrapped).  The heap makes this a
  statement about aliasing: a write to the dict changes the tree of everything that
  reaches it, and the other values of the dict do not, since a dict that reads out is
  not reachable from its own items; the written value must not reach the dict either,
  or the result is the cycle that \<open>obj.me = obj\<close> creates.
\<close>

lemma dict_readout:
  "deref_n (Suc n) h (VRef a) = Some (PDict d) \<Longrightarrow>
   \<exists>kvs vs. objs h a = Some (ODict kvs) \<and> those (map (deref_n n h) (map snd kvs)) = Some vs \<and>
            d = zip (map fst kvs) vs"
  by (auto split: option.splits obj.splits)

text \<open>Writing the dict back, with values that do not reach it, reads out item by item.\<close>

lemma deref_n_set_dict:
  assumes "\<forall>x \<in> set (map snd kvs'). a \<notin> reach_n n h x"
  shows "deref_n (Suc n) (set_obj a (ODict kvs') h) (VRef a) =
           map_option (\<lambda>vs. PDict (zip (map fst kvs') vs)) (those (map (deref_n n h) (map snd kvs')))"
proof -
  have "map (deref_n n (set_obj a (ODict kvs') h)) (map snd kvs') = map (deref_n n h) (map snd kvs')"
    using assms deref_n_set_obj_unreached by (simp del: map_map)
  then show ?thesis by (simp add: objs_set_obj del: map_map map_eq_conv)
qed

lemma dict_items_unreached:
  "deref_n (Suc n) h (VRef a) = Some t \<Longrightarrow> objs h a = Some (ODict kvs) \<Longrightarrow>
   \<forall>x \<in> set (map snd kvs). a \<notin> reach_n n h x"
  using deref_n_not_self_reach [of n h a t "ODict kvs"] by simp

lemma obj_setattr_readout:
  assumes o: "objs h self = Some (OJSONobj (VRef a))" and r: "deref_n (Suc n) h (VRef a) = Some (PDict d)"
    and u: "deref_n n h (unwrap h v) = Some tv" and na: "a \<notin> reach_n n h (unwrap h v)"
  shows "\<exists>h'. obj_setattr h self k v = Inr h' \<and> deref_n (Suc n) h' (VRef a) = Some (PDict (alist_set k tv d))"
proof -
  from dict_readout [OF r] obtain kvs vs where oa: "objs h a = Some (ODict kvs)"
    and th: "those (map (deref_n n h) (map snd kvs)) = Some vs" and d: "d = zip (map fst kvs) vs" by blast
  let ?kvs = "alist_set k (unwrap h v) kvs"
  have "set (map snd ?kvs) \<subseteq> insert (unwrap h v) (set (map snd kvs))"
    using set_alist_set_subset [of k "unwrap h v" kvs] by auto
  then have un: "\<forall>x \<in> set (map snd ?kvs). a \<notin> reach_n n h x"
    using dict_items_unreached [OF r oa] na by blast
  from those_alist_set [OF th u, of k] obtain ws where
    tw: "those (map (deref_n n h) (map snd ?kvs)) = Some ws" and z: "zip (map fst ?kvs) ws = alist_set k tv d"
    using d by blast
  have "obj_setattr h self k v = Inr (set_obj a (ODict ?kvs) h)"
    using o oa by (simp add: obj_setattr_def obj_items_dict)
  moreover have "deref_n (Suc n) (set_obj a (ODict ?kvs) h) (VRef a) = Some (PDict (alist_set k tv d))"
    using deref_n_set_dict [OF un] tw z by simp
  ultimately show ?thesis by blast
qed

lemma obj_delattr_readout:
  assumes o: "objs h self = Some (OJSONobj (VRef a))" and r: "deref_n (Suc n) h (VRef a) = Some (PDict d)"
    and k: "k \<in> set (map fst d)"
  shows "\<exists>h'. obj_delattr h self k = Inr h' \<and> deref_n (Suc n) h' (VRef a) = Some (PDict (alist_del k d))"
proof -
  from dict_readout [OF r] obtain kvs vs where oa: "objs h a = Some (ODict kvs)"
    and th: "those (map (deref_n n h) (map snd kvs)) = Some vs" and d: "d = zip (map fst kvs) vs" by blast
  have len: "length vs = length kvs" using those_map_nth [OF th] by simp
  have "map fst d = map fst kvs" using d len by simp
  with k have kk: "k \<in> set (map fst kvs)" by simp
  let ?kvs = "alist_del k kvs"
  have "set (map snd ?kvs) \<subseteq> set (map snd kvs)" using set_alist_del_subset [of k kvs] by auto
  then have un: "\<forall>x \<in> set (map snd ?kvs). a \<notin> reach_n n h x"
    using dict_items_unreached [OF r oa] by blast
  from those_alist_del [OF th, of k] obtain ws where
    tw: "those (map (deref_n n h) (map snd ?kvs)) = Some ws" and z: "zip (map fst ?kvs) ws = alist_del k d"
    using d by blast
  have "obj_delattr h self k = Inr (set_obj a (ODict ?kvs) h)"
    using o oa kk by (simp add: obj_delattr_def obj_items_dict)
  moreover have "deref_n (Suc n) (set_obj a (ODict ?kvs) h) (VRef a) = Some (PDict (alist_del k d))"
    using deref_n_set_dict [OF un] tw z by simp
  ultimately show ?thesis by blast
qed

lemma obj_getattr_readout:
  assumes ok: "heap_ok h" and o: "objs h self = Some (OJSONobj (VRef a))"
    and r: "deref_n (Suc n) h (VRef a) = Some (PDict d)"
  shows "(map_of d k = None \<longrightarrow> obj_getattr h self k = Inl KeyError) \<and>
         (\<forall>t. map_of d k = Some t \<longrightarrow>
              (\<exists>w h'. obj_getattr h self k = Inr (w, h') \<and> deref_n (Suc n) h' w = Some (pv_wrap t)))"
proof -
  from dict_readout [OF r] obtain kvs vs where oa: "objs h a = Some (ODict kvs)"
    and th: "those (map (deref_n n h) (map snd kvs)) = Some vs" and d: "d = zip (map fst kvs) vs" by blast
  have m: "map_of d k = Option.bind (map_of kvs k) (deref_n n h)" using those_map_of [OF th] d by simp
  have it: "obj_items h self = Inr (a, kvs)" using o oa by (rule obj_items_dict)
  show ?thesis
  proof (cases "map_of kvs k")
    case None
    with m it show ?thesis by (simp add: obj_getattr_def)
  next
    case (Some x)
    then have "x \<in> set (map snd kvs)" by (force dest: map_of_SomeD)
    with those_mem_Some [OF th] obtain tx where dx: "deref_n n h x = Some tx" by blast
    with Some m it deref_n_wrap [OF ok dx] show ?thesis
      by (simp add: obj_getattr_def) (metis surjective_pairing)
  qed
qed

lemma obj_len_readout:
  "objs h self = Some (OJSONobj (VRef a)) \<Longrightarrow> deref_n (Suc n) h (VRef a) = Some (PDict d) \<Longrightarrow>
   obj_len h self = Inr (length d)"
  using those_map_nth by (fastforce simp: obj_len_def obj_items_dict dest!: dict_readout)

text \<open>
  C28: \<open>JSONobj\<close> refines a dict of trees.  For an instance whose dict reads out as
  \<open>d\<close>: \<open>len(obj)\<close> is the number of keys; \<open>obj.k\<close> raises KeyError for an absent key
  and otherwise returns the value at \<open>k\<close>, wrapped; \<open>del obj.k\<close> raises KeyError for
  an absent key and otherwise leaves the dict reading out as \<open>d\<close> without \<open>k\<close>; and
  \<open>obj.k = v\<close>, for a \<open>v\<close> that does not reach the dict, leaves it reading out as
  \<open>d\<close> with \<open>k\<close> bound to the tree of \<open>unwrap(v)\<close>, in place or appended, while the
  other values keep their trees.
\<close>

theorem obj_refines_dict:
  assumes ok: "heap_ok h" and o: "objs h self = Some (OJSONobj (VRef a))"
    and r: "deref_n (Suc n) h (VRef a) = Some (PDict d)"
  shows "obj_len h self = Inr (length d) \<and>
         (map_of d k = None \<longrightarrow> obj_getattr h self k = Inl KeyError \<and> obj_delattr h self k = Inl KeyError) \<and>
         (\<forall>t. map_of d k = Some t \<longrightarrow>
              (\<exists>w h'. obj_getattr h self k = Inr (w, h') \<and> deref_n (Suc n) h' w = Some (pv_wrap t))) \<and>
         (map_of d k \<noteq> None \<longrightarrow>
              (\<exists>h'. obj_delattr h self k = Inr h' \<and> deref_n (Suc n) h' (VRef a) = Some (PDict (alist_del k d)))) \<and>
         (\<forall>v tv. deref_n n h (unwrap h v) = Some tv \<longrightarrow> a \<notin> reach_n n h (unwrap h v) \<longrightarrow>
              (\<exists>h'. obj_setattr h self k v = Inr h' \<and>
                    deref_n (Suc n) h' (VRef a) = Some (PDict (alist_set k tv d))))"
proof -
  from dict_readout [OF r] obtain kvs vs where oa: "objs h a = Some (ODict kvs)"
    and th: "those (map (deref_n n h) (map snd kvs)) = Some vs" and d: "d = zip (map fst kvs) vs" by blast
  have keys: "map fst d = map fst kvs" using d those_map_nth [OF th] by simp
  then have keyset: "fst ` set d = fst ` set kvs" by (metis list.set_map)
  have del_err: "map_of d k = None \<Longrightarrow> obj_delattr h self k = Inl KeyError"
    using o oa keyset by (simp add: obj_delattr_def obj_items_dict map_of_eq_None_iff)
  have "map_of d k \<noteq> None \<Longrightarrow> k \<in> set (map fst d)" by (auto simp: map_of_eq_None_iff)
  then show ?thesis
    using obj_len_readout [OF o r] obj_getattr_readout [OF ok o r, of k] del_err
          obj_delattr_readout [OF o r] obj_setattr_readout [OF o r]
    by blast
qed

theorem obj_refines_dict_witness:
  "obj_len test_heap 5 = Inr 2 \<and>
   obj_getattr test_heap 5 ''key3'' = Inl KeyError \<and> obj_delattr test_heap 5 ''key3'' = Inl KeyError \<and>
   (\<exists>w h'. obj_getattr test_heap 5 ''key2'' = Inr (w, h') \<and>
           deref_n 2 h' w = Some (PJSONobj (PDict [(''foo'', PStr ''bar'')]))) \<and>
   (\<exists>h'. obj_delattr test_heap 5 ''key1'' = Inr h' \<and>
         deref_n 2 h' (VRef 4) = Some (PDict [(''key2'', PDict [(''foo'', PStr ''bar'')])])) \<and>
   (\<exists>h'. obj_setattr test_heap 5 ''key1'' (VRef 9) = Inr h' \<and>
         deref_n 2 h' (VRef 4) = Some (PDict [(''key1'', PDict [(''foo'', PStr ''bar'')]),
                                             (''key2'', PDict [(''foo'', PStr ''bar'')])]))"
proof -
  let ?d = "[(''key1'', PStr ''value1''), (''key2'', PDict [(''foo'', PStr ''bar'')])]"
  have o: "objs test_heap 5 = Some (OJSONobj (VRef 4))" by (simp add: test_heap_def)
  have r: "deref_n (Suc 1) test_heap (VRef 4) = Some (PDict ?d)" by (simp add: test_heap_def)
  have u: "deref_n 1 test_heap (unwrap test_heap (VRef 9)) = Some (PDict [(''foo'', PStr ''bar'')])"
    and na: "4 \<notin> reach_n 1 test_heap (unwrap test_heap (VRef 9))"
    by (simp_all add: test_heap_def unwrap_def)
  have k3: "map_of ?d ''key3'' = None" and k2: "map_of ?d ''key2'' = Some (PDict [(''foo'', PStr ''bar'')])"
    and k1: "map_of ?d ''key1'' \<noteq> None" by simp_all
  show ?thesis
    using obj_refines_dict [OF test_heap_ok o r, of "''key3''"] obj_refines_dict [OF test_heap_ok o r, of "''key2''"]
          obj_refines_dict [OF test_heap_ok o r, of "''key1''"] k1 k2 k3 u na
    by (simp add: numeral_2_eq_2 pv_wrap_def)
qed

end
