(* ===== verification/ListSpec.thy ===== *)
theory ListSpec
  imports Boundary
begin

text \<open>
  \<open>JSONarray\<close> over a list against its abstract specification, a Python list of
  values: read out as a tree, the wrapped list is \<open>PList ts\<close>, and the methods act on
  \<open>ts\<close> as the list operations do (\<open>ts[j := t]\<close>, \<open>remove_nth\<close>, \<open>ts @ [t]\<close>,
  \<open>insert_nth\<close>, \<open>rev\<close>, \<open>[]\<close>), reads returning the item wrapped.  As for \<open>JSONobj\<close>
  (\<open>DictSpec\<close>), the written value must not reach the list, and the items already
  there keep their trees because a list that reads out is not reachable from them.
  \<open>insert\<close> stores its value as given, so the tree stored is that of the value itself:
  for a wrapper, the wrapper's tree.
\<close>

lemma list_readout:
  "deref_n (Suc n) h (VRef a) = Some (PList ts) \<Longrightarrow>
   \<exists>xs. objs h a = Some (OList xs) \<and> list_all2 (\<lambda>x t. deref_n n h x = Some t) xs ts"
  by (auto split: option.splits obj.splits simp: those_eq_Some_iff)

text \<open>
  Writing the list back with items that are old items or values that do not reach it:
  the list reads out item by item, each item with its tree in the old heap.
\<close>

lemma list_store_readout:
  assumes r: "deref_n (Suc n) h (VRef a) = Some (PList ts)" and oa: "objs h a = Some (OList xs)"
    and ys: "\<forall>y \<in> set ys. y \<in> set xs \<or> a \<notin> reach_n n h y"
    and us: "list_all2 (\<lambda>x t. deref_n n h x = Some t) ys us"
  shows "deref_n (Suc n) (set_obj a (OList ys) h) (VRef a) = Some (PList us)"
proof -
  have "\<forall>y \<in> set ys. a \<notin> reach_n n h y"
    using ys deref_n_not_self_reach [OF r oa] by auto
  then have "map (deref_n n (set_obj a (OList ys) h)) ys = map (deref_n n h) ys"
    using deref_n_set_obj_unreached by (simp del: map_map)
  then show ?thesis using us by (simp add: objs_set_obj those_eq_Some_iff del: map_eq_conv)
qed

lemma arr_getitem_readout:
  assumes ok: "heap_ok h" and o: "objs h self = Some (OJSONarray (VRef a))"
    and r: "deref_n (Suc n) h (VRef a) = Some (PList ts)"
  shows "(py_norm_index i (length ts) = None \<longrightarrow> arr_getitem h self i = Inl IndexError) \<and>
         (\<forall>j. py_norm_index i (length ts) = Some j \<longrightarrow>
              (\<exists>w h'. arr_getitem h self i = Inr (w, h') \<and> deref_n (Suc n) h' w = Some (pv_wrap (ts ! j))))"
proof (intro conjI allI impI)
  from list_readout [OF r] obtain xs where oa: "objs h a = Some (OList xs)"
    and la: "list_all2 (\<lambda>x t. deref_n n h x = Some t) xs ts" by blast
  have len: "length xs = length ts" using la by (rule list_all2_lengthD)
  show "arr_getitem h self i = Inl IndexError" if "py_norm_index i (length ts) = None"
    using that o oa len by (simp add: arr_getitem_def arr_items_list)
  fix j assume j: "py_norm_index i (length ts) = Some j"
  have "j < length xs" using py_norm_index_lt [OF j] len by simp
  then have d: "deref_n n h (xs ! j) = Some (ts ! j)" by (rule list_all2_nthD [OF la])
  have "arr_getitem h self i = Inr (wrap h (xs ! j))"
    using o oa len j by (simp add: arr_getitem_def arr_items_list)
  with deref_n_wrap [OF ok d] show "\<exists>w h'. arr_getitem h self i = Inr (w, h') \<and> deref_n (Suc n) h' w = Some (pv_wrap (ts ! j))"
    by (metis surjective_pairing)
qed

lemma arr_pop_readout:
  assumes ok: "heap_ok h" and o: "objs h self = Some (OJSONarray (VRef a))"
    and r: "deref_n (Suc n) h (VRef a) = Some (PList ts)"
  shows "(py_norm_index i (length ts) = None \<longrightarrow> arr_pop h self i = Inl IndexError) \<and>
         (\<forall>j. py_norm_index i (length ts) = Some j \<longrightarrow>
              (\<exists>w h'. arr_pop h self i = Inr (w, h') \<and> deref_n (Suc n) h' w = Some (pv_wrap (ts ! j)) \<and>
                      deref_n (Suc n) h' (VRef a) = Some (PList (remove_nth j ts))))"
proof (intro conjI allI impI)
  from list_readout [OF r] obtain xs where oa: "objs h a = Some (OList xs)"
    and la: "list_all2 (\<lambda>x t. deref_n n h x = Some t) xs ts" by blast
  have len: "length xs = length ts" using la by (rule list_all2_lengthD)
  show "arr_pop h self i = Inl IndexError" if "py_norm_index i (length ts) = None"
    using that o oa len by (simp add: arr_pop_def arr_list_list)
  fix j assume j: "py_norm_index i (length ts) = Some j"
  let ?h1 = "set_obj a (OList (remove_nth j xs)) h"
  have jl: "j < length xs" using py_norm_index_lt [OF j] len by simp
  have r1: "deref_n (Suc n) ?h1 (VRef a) = Some (PList (remove_nth j ts))"
    using list_store_readout [OF r oa] set_remove_nth_subset [of j xs] list_all2_remove_nth [OF la] by blast
  have "a \<notin> reach_n n h (xs ! j)" using deref_n_not_self_reach [OF r oa] jl by simp
  then have d: "deref_n n ?h1 (xs ! j) = Some (ts ! j)"
    using deref_n_set_obj_unreached list_all2_nthD [OF la jl] by simp
  have ok1: "heap_ok ?h1" using heap_ok_set_obj [OF ok] oa by simp
  obtain w h2 where wr: "wrap ?h1 (xs ! j) = (w, h2)" by fastforce
  have p: "arr_pop h self i = Inr (w, h2)"
    using o oa len j wr by (simp add: arr_pop_def arr_list_list)
  have "deref_n (Suc n) h2 w = Some (pv_wrap (ts ! j))" using deref_n_wrap [OF ok1 d] wr by simp
  moreover have "deref_n (Suc n) h2 (VRef a) = Some (PList (remove_nth j ts))"
    using deref_n_hext [OF hext_wrap [OF ok1, of "xs ! j"] r1] wr by simp
  ultimately show "\<exists>w h'. arr_pop h self i = Inr (w, h') \<and> deref_n (Suc n) h' w = Some (pv_wrap (ts ! j)) \<and>
                      deref_n (Suc n) h' (VRef a) = Some (PList (remove_nth j ts))"
    using p by blast
qed

lemma arr_store_readout:
  assumes o: "objs h self = Some (OJSONarray (VRef a))" and r: "deref_n (Suc n) h (VRef a) = Some (PList ts)"
  shows "(py_norm_index i (length ts) = None \<longrightarrow>
            arr_setitem h self i v = Inl IndexError \<and> arr_delitem h self i = Inl IndexError) \<and>
         (\<forall>j. py_norm_index i (length ts) = Some j \<longrightarrow>
              (\<exists>h'. arr_delitem h self i = Inr h' \<and> deref_n (Suc n) h' (VRef a) = Some (PList (remove_nth j ts))) \<and>
              (\<forall>tv. deref_n n h (unwrap h v) = Some tv \<longrightarrow> a \<notin> reach_n n h (unwrap h v) \<longrightarrow>
                   (\<exists>h'. arr_setitem h self i v = Inr h' \<and> deref_n (Suc n) h' (VRef a) = Some (PList (ts[j := tv]))))) \<and>
         (\<forall>tv. deref_n n h (unwrap h v) = Some tv \<longrightarrow> a \<notin> reach_n n h (unwrap h v) \<longrightarrow>
              (\<exists>h'. arr_append h self v = Inr h' \<and> deref_n (Suc n) h' (VRef a) = Some (PList (ts @ [tv])))) \<and>
         (\<forall>tv. deref_n n h v = Some tv \<longrightarrow> a \<notin> reach_n n h v \<longrightarrow>
              (\<exists>h'. arr_insert h self i v = Inr h' \<and>
                    deref_n (Suc n) h' (VRef a) = Some (PList (insert_nth (py_clamp_index i (length ts)) tv ts)))) \<and>
         (\<exists>h'. arr_reverse h self = Inr h' \<and> deref_n (Suc n) h' (VRef a) = Some (PList (rev ts))) \<and>
         (\<exists>h'. arr_clear h self = Inr h' \<and> deref_n (Suc n) h' (VRef a) = Some (PList []))"
proof -
  from list_readout [OF r] obtain xs where oa: "objs h a = Some (OList xs)"
    and la: "list_all2 (\<lambda>x t. deref_n n h x = Some t) xs ts" by blast
  have len: "length xs = length ts" using la by (rule list_all2_lengthD)
  have l: "arr_list h self = Inr (a, xs)" using o oa by (rule arr_list_list)
  note st = list_store_readout [OF r oa]
  have err: "arr_setitem h self i v = Inl IndexError \<and> arr_delitem h self i = Inl IndexError"
    if "py_norm_index i (length ts) = None"
    using that l len by (simp add: arr_setitem_def arr_delitem_def)
  have del: "\<exists>h'. arr_delitem h self i = Inr h' \<and> deref_n (Suc n) h' (VRef a) = Some (PList (remove_nth j ts))"
    if j: "py_norm_index i (length ts) = Some j" for j
    using st [OF _ list_all2_remove_nth [OF la]] set_remove_nth_subset [of j xs] j l len
    by (auto simp: arr_delitem_def)
  have set: "\<exists>h'. arr_setitem h self i v = Inr h' \<and> deref_n (Suc n) h' (VRef a) = Some (PList (ts[j := tv]))"
    if j: "py_norm_index i (length ts) = Some j" and u: "deref_n n h (unwrap h v) = Some tv"
      and na: "a \<notin> reach_n n h (unwrap h v)" for j tv
  proof -
    have "\<forall>y \<in> set (xs[j := unwrap h v]). y \<in> set xs \<or> a \<notin> reach_n n h y"
      using na set_update_subset_insert [of xs j "unwrap h v"] by blast
    with st [OF _ list_all2_update_cong [OF la u]] j l len show ?thesis
      by (simp add: arr_setitem_def)
  qed
  have app: "\<exists>h'. arr_append h self v = Inr h' \<and> deref_n (Suc n) h' (VRef a) = Some (PList (ts @ [tv]))"
    if u: "deref_n n h (unwrap h v) = Some tv" and na: "a \<notin> reach_n n h (unwrap h v)" for tv
  proof -
    have "list_all2 (\<lambda>x t. deref_n n h x = Some t) (xs @ [unwrap h v]) (ts @ [tv])"
      using la u by (simp add: list_all2_appendI)
    with st [of "xs @ [unwrap h v]"] na l show ?thesis by (simp add: arr_append_def)
  qed
  have ins: "\<exists>h'. arr_insert h self i v = Inr h' \<and>
                 deref_n (Suc n) h' (VRef a) = Some (PList (insert_nth (py_clamp_index i (length ts)) tv ts))"
    if u: "deref_n n h v = Some tv" and na: "a \<notin> reach_n n h v" for tv
  proof -
    let ?k = "py_clamp_index i (length ts)"
    have "\<forall>y \<in> set (insert_nth ?k v xs). y \<in> set xs \<or> a \<notin> reach_n n h y"
      using na set_insert_nth_subset [of ?k v xs] by blast
    with st [OF _ list_all2_insert_nth [OF la, of v tv ?k]] u l len show ?thesis
      by (simp add: arr_insert_def)
  qed
  have rv: "\<exists>h'. arr_reverse h self = Inr h' \<and> deref_n (Suc n) h' (VRef a) = Some (PList (rev ts))"
    using st [of "rev xs" "rev ts"] la l by (simp add: arr_reverse_def)
  have cl: "\<exists>h'. arr_clear h self = Inr h' \<and> deref_n (Suc n) h' (VRef a) = Some (PList [])"
    using st [of "[]" "[]"] l by (simp add: arr_clear_def)
  show ?thesis using err del set app ins rv cl by blast
qed

text \<open>
  \<open>extend\<close> with another array: the loop reads the other list through its wrapping
  iterator, so each item is wrapped, then unwrapped by \<open>extend\<close> before it is appended;
  an item that is not a wrapper comes back as itself.  Each step allocates at most the
  wrapper, so the final heap extends the one where the list was written in one go.
\<close>

lemma unwrap_wrap_nonwrapper:
  assumes nw: "\<not> is_wrapper_ref h v"
  shows "unwrap (snd (wrap h v)) (fst (wrap h v)) = v"
proof (cases "wrap h v = (v, h)")
  case True
  then show ?thesis using unwrap_nonwrapper [OF nw] by simp
next
  case False
  then obtain ob where "wrap h v = (VRef (next_addr h), snd (alloc ob h))" and "ob = OJSONobj v \<or> ob = OJSONarray v"
    using wrap_cases [of h v] by blast
  then show ?thesis by (auto simp: unwrap_def alloc_def)
qed

lemma is_wrapper_ref_wrap:
  assumes ok: "heap_ok h" and b: "objs h b \<noteq> None"
  shows "is_wrapper_ref (snd (wrap h v)) (VRef b) = is_wrapper_ref h (VRef b)"
proof -
  have "b \<noteq> next_addr h" using ok b by (auto simp: heap_ok_def)
  then show ?thesis using wrap_cases [of h v] by (auto simp: is_wrapper_ref_def alloc_def)
qed

lemma is_wrapper_ref_wrap_val:
  assumes ok: "heap_ok h" and x: "val_ok h x"
  shows "is_wrapper_ref (snd (wrap h v)) x = is_wrapper_ref h x"
proof (cases x)
  case (VRef b)
  with x have "objs h b \<noteq> None" by (simp add: val_ok_def)
  with VRef show ?thesis by (simp add: is_wrapper_ref_wrap [OF ok])
qed (simp_all add: is_wrapper_ref_def)

lemma hext_set_obj_mono: "hext h h' \<Longrightarrow> hext (set_obj a ob h) (set_obj a ob h')"
  by (simp add: hext_def objs_set_obj)

lemma objs_wrap_old: "heap_ok h \<Longrightarrow> objs h b = Some ob \<Longrightarrow> objs (snd (wrap h v)) b = Some ob"
  using hext_wrap [of h v] by (simp add: hext_def)

lemma extend_loop_wrapped:
  assumes "heap_ok h" and "objs h self = Some (OJSONarray (VRef l))" and "objs h l = Some (OList zs)"
    and "objs h c = Some (OList ys)" and "c \<noteq> l"
    and "\<forall>x \<in> set ys. \<not> is_wrapper_ref h x \<and> val_ok h x" and "length ys - i = k" and "i \<le> length ys"
  shows "\<exists>h'. extend_loop (Suc k) h self (WrapIter (SeqIter c i)) = Some (Inr h') \<and>
              hext (set_obj l (OList (zs @ drop i ys)) h) h'"
  using assms
proof (induction k arbitrary: i h zs)
  case 0
  then show ?case by (simp add: set_obj_same)
next
  case (Suc k)
  then have i: "i < length ys" by simp
  have sl: "self \<noteq> l" using Suc.prems(2,3) by auto
  let ?x = "ys ! i"
  obtain w h1 where wr: "wrap h ?x = (w, h1)" by fastforce
  have nw: "\<not> is_wrapper_ref h ?x" and vx: "val_ok h ?x" using Suc.prems(6) i by simp_all
  have ok1: "heap_ok h1" and hx1: "hext h h1" using heap_ok_wrap [OF Suc.prems(1)] hext_wrap [OF Suc.prems(1)] wr
    by (metis snd_conv)+
  have uw: "unwrap h1 w = ?x" using unwrap_wrap_nonwrapper [OF nw] wr by simp
  have o1: "objs h1 self = Some (OJSONarray (VRef l))" and l1: "objs h1 l = Some (OList zs)"
    and c1: "objs h1 c = Some (OList ys)"
    using hx1 Suc.prems(2-4) by (auto simp: hext_def)
  have nw1: "\<not> is_wrapper_ref h1 ?x"
    using is_wrapper_ref_wrap_val [OF Suc.prems(1) vx, of ?x] nw wr by simp
  define h2 where "h2 = set_obj l (OList (zs @ [?x])) h1"
  have step: "extend_loop (Suc (Suc k)) h self (WrapIter (SeqIter c i)) =
              extend_loop (Suc k) h2 self (WrapIter (SeqIter c (Suc i)))"
    using Suc.prems(4) i wr uw o1 l1 unwrap_nonwrapper [OF nw1]
    by (subst extend_loop.simps) (simp add: h2_def arr_append_def arr_list_list del: extend_loop.simps)
  have items: "\<forall>x \<in> set ys. \<not> is_wrapper_ref h2 x \<and> val_ok h2 x"
  proof
    fix x assume x: "x \<in> set ys"
    then have "\<not> is_wrapper_ref h x" and v: "val_ok h x" using Suc.prems(6) by auto
    moreover have "val_ok h1 x" using v hx1 by (auto simp: val_ok_def hext_def split: val.splits)
    moreover have "is_wrapper_ref h1 x = is_wrapper_ref h x"
      using is_wrapper_ref_wrap_val [OF Suc.prems(1) v, of ?x] wr by simp
    ultimately show "\<not> is_wrapper_ref h2 x \<and> val_ok h2 x"
      using l1 by (simp add: h2_def is_wrapper_ref_set_list val_ok_def objs_set_obj split: val.splits)
  qed
  have ok2: "heap_ok h2" using heap_ok_set_obj [OF ok1] l1 by (simp add: h2_def)
  have "\<exists>h'. extend_loop (Suc k) h2 self (WrapIter (SeqIter c (Suc i))) = Some (Inr h') \<and>
          hext (set_obj l (OList ((zs @ [?x]) @ drop (Suc i) ys)) h2) h'"
    using Suc.IH [OF ok2 _ _ _ Suc.prems(5) items, of "zs @ [?x]" "Suc i"] Suc.prems(7) i sl o1 l1 c1
      Suc.prems(5)
    by (simp add: h2_def objs_set_obj del: extend_loop.simps)
  then obtain h' where e: "extend_loop (Suc k) h2 self (WrapIter (SeqIter c (Suc i))) = Some (Inr h')"
    and hx: "hext (set_obj l (OList ((zs @ [?x]) @ drop (Suc i) ys)) h2) h'"
    by blast
  have "(zs @ [?x]) @ drop (Suc i) ys = zs @ drop i ys" using i by (simp add: Cons_nth_drop_Suc)
  then have "hext (set_obj l (OList (zs @ drop i ys)) h) h'"
    using hx hext_set_obj_mono [OF hx1, of l "OList (zs @ drop i ys)"] hext_trans by (auto simp: h2_def)
  with step e show ?case by simp
qed

text \<open>
  C37: \<open>JSONarray\<close> over a list refines a list of trees.  For an instance whose list
  reads out as \<open>ts\<close>: \<open>len\<close> is \<open>length ts\<close>; an index outside \<open>[-len, len)\<close> raises
  IndexError on \<open>arr[i]\<close>, \<open>arr[i] = v\<close>, \<open>del arr[i]\<close> and \<open>pop(i)\<close>; inside, at the
  normalised position \<open>j\<close>, \<open>arr[i]\<close> returns \<open>ts ! j\<close> wrapped, \<open>pop(i)\<close> returns it
  wrapped and removes it, \<open>del arr[i]\<close> removes it, and \<open>arr[i] = v\<close> puts the tree of
  \<open>unwrap(v)\<close> there; \<open>append(v)\<close> adds the tree of \<open>unwrap(v)\<close> at the end,
  \<open>insert(i, v)\<close> the tree of \<open>v\<close> itself at the clamped position, \<open>reverse()\<close> and
  \<open>clear()\<close> act as \<open>rev\<close> and \<open>[]\<close>; a stored value must not reach the list.
\<close>

theorem arr_refines_list:
  assumes ok: "heap_ok h" and o: "objs h self = Some (OJSONarray (VRef a))"
    and r: "deref_n (Suc n) h (VRef a) = Some (PList ts)"
  shows "arr_len h self = Inr (length ts) \<and>
         (py_norm_index i (length ts) = None \<longrightarrow>
            arr_getitem h self i = Inl IndexError \<and> arr_setitem h self i v = Inl IndexError \<and>
            arr_delitem h self i = Inl IndexError \<and> arr_pop h self i = Inl IndexError) \<and>
         (\<forall>j. py_norm_index i (length ts) = Some j \<longrightarrow>
              (\<exists>w h'. arr_getitem h self i = Inr (w, h') \<and> deref_n (Suc n) h' w = Some (pv_wrap (ts ! j))) \<and>
              (\<exists>w h'. arr_pop h self i = Inr (w, h') \<and> deref_n (Suc n) h' w = Some (pv_wrap (ts ! j)) \<and>
                      deref_n (Suc n) h' (VRef a) = Some (PList (remove_nth j ts))) \<and>
              (\<exists>h'. arr_delitem h self i = Inr h' \<and> deref_n (Suc n) h' (VRef a) = Some (PList (remove_nth j ts))) \<and>
              (\<forall>tv. deref_n n h (unwrap h v) = Some tv \<longrightarrow> a \<notin> reach_n n h (unwrap h v) \<longrightarrow>
                   (\<exists>h'. arr_setitem h self i v = Inr h' \<and> deref_n (Suc n) h' (VRef a) = Some (PList (ts[j := tv]))))) \<and>
         (\<forall>tv. deref_n n h (unwrap h v) = Some tv \<longrightarrow> a \<notin> reach_n n h (unwrap h v) \<longrightarrow>
              (\<exists>h'. arr_append h self v = Inr h' \<and> deref_n (Suc n) h' (VRef a) = Some (PList (ts @ [tv])))) \<and>
         (\<forall>tv. deref_n n h v = Some tv \<longrightarrow> a \<notin> reach_n n h v \<longrightarrow>
              (\<exists>h'. arr_insert h self i v = Inr h' \<and>
                    deref_n (Suc n) h' (VRef a) = Some (PList (insert_nth (py_clamp_index i (length ts)) tv ts)))) \<and>
         (\<exists>h'. arr_reverse h self = Inr h' \<and> deref_n (Suc n) h' (VRef a) = Some (PList (rev ts))) \<and>
         (\<exists>h'. arr_clear h self = Inr h' \<and> deref_n (Suc n) h' (VRef a) = Some (PList []))"
proof -
  from list_readout [OF r] obtain xs where oa: "objs h a = Some (OList xs)"
    and la: "list_all2 (\<lambda>x t. deref_n n h x = Some t) xs ts" by blast
  have "arr_len h self = Inr (length ts)"
    using o oa list_all2_lengthD [OF la] by (simp add: arr_len_def arr_items_list)
  then show ?thesis
    using arr_getitem_readout [OF ok o r, of i] arr_pop_readout [OF ok o r, of i]
          arr_store_readout [OF o r, of i v]
    by blast
qed

theorem arr_refines_list_witness:
  "arr_len test_heap 2 = Inr 2 \<and> arr_getitem test_heap 2 2 = Inl IndexError \<and>
   (\<exists>w h'. arr_getitem test_heap 2 (-1) = Inr (w, h') \<and>
           deref_n 3 h' w = Some (PJSONobj (PDict [(''foo'', PStr ''bar'')]))) \<and>
   (\<exists>h'. arr_append test_heap 2 (VRef 9) = Inr h' \<and>
         deref_n 3 h' (VRef 1) = Some (PList [PStr ''value1'', PDict [(''foo'', PStr ''bar'')],
                                            PDict [(''foo'', PStr ''bar'')]])) \<and>
   (\<exists>h'. arr_insert test_heap 2 0 (VRef 9) = Inr h' \<and>
         deref_n 3 h' (VRef 1) = Some (PList [PJSONobj (PDict [(''foo'', PStr ''bar'')]), PStr ''value1'',
                                            PDict [(''foo'', PStr ''bar'')]]))"
proof -
  let ?ts = "[PStr ''value1'', PDict [(''foo'', PStr ''bar'')]]"
  have o: "objs test_heap 2 = Some (OJSONarray (VRef 1))" by (simp add: test_heap_def)
  have r: "deref_n (Suc 2) test_heap (VRef 1) = Some (PList ?ts)" by (simp add: test_heap_def numeral_2_eq_2)
  have u: "deref_n 2 test_heap (unwrap test_heap (VRef 9)) = Some (PDict [(''foo'', PStr ''bar'')])"
    and na: "1 \<notin> reach_n 2 test_heap (unwrap test_heap (VRef 9))"
    and u': "deref_n 2 test_heap (VRef 9) = Some (PJSONobj (PDict [(''foo'', PStr ''bar'')]))"
    and na': "1 \<notin> reach_n 2 test_heap (VRef 9)"
    by (simp_all add: test_heap_def unwrap_def numeral_2_eq_2)
  have i2: "py_norm_index 2 (length ?ts) = None" and im: "py_norm_index (-1) (length ?ts) = Some 1"
    and c0: "py_clamp_index 0 (length ?ts) = 0"
    by (simp_all add: py_norm_index_def py_clamp_index_def)
  show ?thesis
    using arr_refines_list [OF test_heap_ok o r, where i = 2 and v = "VRef 9"]
          arr_refines_list [OF test_heap_ok o r, where i = "-1" and v = "VRef 9"]
          arr_refines_list [OF test_heap_ok o r, where i = 0 and v = "VRef 9"] i2 im c0 u na u' na'
    by (simp add: numeral_3_eq_3 pv_wrap_def insert_nth_def)
qed

text \<open>
  C38: \<open>extend(values)\<close> with another \<open>JSONarray\<close> over a list refines list
  concatenation.  When the invariant holds, \<open>self\<close>'s list reads out as \<open>ts\<close>, and the
  list under \<open>values\<close> reads out as \<open>us\<close> and does not reach \<open>self\<close>'s list, the loop
  that appends \<open>unwrap\<close> of each wrapped item returns within one step per item plus one,
  and \<open>self\<close>'s list then reads out as \<open>ts @ us\<close>.
\<close>

theorem arr_extend_refines:
  assumes b: "boundary_ok h" and o: "objs h self = Some (OJSONarray (VRef a))"
    and ov: "objs h v = Some (OJSONarray (VRef c))"
    and r: "deref_n (Suc n) h (VRef a) = Some (PList ts)"
    and rc: "deref_n (Suc n) h (VRef c) = Some (PList us)"
    and na: "a \<notin> reach_n (Suc n) h (VRef c)"
  shows "\<exists>h'. arr_extend (Suc (length us)) h self (VRef v) = Some (Inr h') \<and>
              deref_n (Suc n) h' (VRef a) = Some (PList (ts @ us))"
proof -
  have ok: "heap_ok h" using b by (simp add: boundary_ok_def)
  from list_readout [OF r] obtain xs where oa: "objs h a = Some (OList xs)"
    and la: "list_all2 (\<lambda>x t. deref_n n h x = Some t) xs ts" by blast
  from list_readout [OF rc] obtain ys where oc: "objs h c = Some (OList ys)"
    and lc: "list_all2 (\<lambda>x t. deref_n n h x = Some t) ys us" by blast
  have ca: "c \<noteq> a" using na by auto
  have nr: "\<forall>y \<in> set ys. a \<notin> reach_n n h y" using na oc by auto
  have vs: "v \<noteq> self" using o ov ca by auto
  have items: "\<forall>x \<in> set ys. \<not> is_wrapper_ref h x \<and> val_ok h x"
    using boundary_ok_obj [OF b oc] by simp
  have len: "length ys = length us" using lc by (rule list_all2_lengthD)
  have e: "arr_extend (Suc (length us)) h self (VRef v) = extend_loop (Suc (length us)) h self (WrapIter (SeqIter c 0))"
    using vs ov oc by (simp add: arr_extend_def py_iter_of_def arr_iter_def arr_seq_def builtin_iter_def)
  from extend_loop_wrapped [OF ok o oa oc ca items, of 0 "length us"] len
  obtain h' where l: "extend_loop (Suc (length us)) h self (WrapIter (SeqIter c 0)) = Some (Inr h')"
    and hx: "hext (set_obj a (OList (xs @ ys)) h) h'" by auto
  have "\<forall>y \<in> set (xs @ ys). y \<in> set xs \<or> a \<notin> reach_n n h y" using nr by auto
  with list_store_readout [OF r oa _ list_all2_appendI [OF la lc]]
  have "deref_n (Suc n) (set_obj a (OList (xs @ ys)) h) (VRef a) = Some (PList (ts @ us))" by blast
  then have "deref_n (Suc n) h' (VRef a) = Some (PList (ts @ us))" by (rule deref_n_hext [OF hx])
  with e l show ?thesis by (simp del: extend_loop.simps deref_n.simps)
qed

theorem arr_extend_refines_witness:
  "\<exists>h'. arr_extend 2
          \<lparr>objs = [0 \<mapsto> OList [VStr ''a''], 1 \<mapsto> OJSONarray (VRef 0),
                   2 \<mapsto> OList [VStr ''b''], 3 \<mapsto> OJSONarray (VRef 2)], next_addr = 4\<rparr>
          1 (VRef 3) = Some (Inr h') \<and>
        deref_n 2 h' (VRef 0) = Some (PList [PStr ''a'', PStr ''b''])"
proof -
  let ?h = "\<lparr>objs = [0 \<mapsto> OList [VStr ''a''], 1 \<mapsto> OJSONarray (VRef 0),
                   2 \<mapsto> OList [VStr ''b''], 3 \<mapsto> OJSONarray (VRef 2)], next_addr = 4\<rparr>"
  have b: "boundary_ok ?h"
    unfolding boundary_ok_def
    by (simp add: heap_ok_def All_less_Suc numeral_eq_Suc obj_ok_def val_ok_def wf_wrapper_def
                  is_wrapper_ref_def)
  have o: "objs ?h 1 = Some (OJSONarray (VRef 0))" and ov: "objs ?h 3 = Some (OJSONarray (VRef 2))"
    by simp_all
  have r: "deref_n (Suc 1) ?h (VRef 0) = Some (PList [PStr ''a''])"
    and rc: "deref_n (Suc 1) ?h (VRef 2) = Some (PList [PStr ''b''])"
    and na: "0 \<notin> reach_n (Suc 1) ?h (VRef 2)" by simp_all
  have eq: "Suc (length [PStr ''b'']) = 2" "Suc 1 = (2::nat)"
    "[PStr ''a''] @ [PStr ''b''] = [PStr ''a'', PStr ''b'']" by simp_all
  have "\<exists>h'. arr_extend (Suc (length [PStr ''b''])) ?h 1 (VRef 3) = Some (Inr h') \<and>
             deref_n (Suc 1) h' (VRef 0) = Some (PList ([PStr ''a''] @ [PStr ''b'']))"
    by (rule arr_extend_refines [OF b o ov r rc na])
  then show ?thesis by (simp only: eq)
qed

end
