(* ===== verification/Spec2Isabelle.thy ===== *)
theory Spec2Isabelle
  imports TestsArray Doctests Setup DictSpec ListSpec
begin

text \<open>
  \<^bold>\<open>A verification library for jsonobj.\<close>

  src/jsonobj.py is a thin layer over Python's dicts and lists: \<open>JSONobj\<close> (lines
  71-127) gives property-style access to a dict, \<open>JSONarray\<close> (lines 130-239) gives
  list methods over a list or tuple, and \<open>wrap\<close>/\<open>unwrap\<close> (lines 33-68) convert
  between the two worlds at every boundary: values read out of a wrapper are wrapped,
  values written into it are unwrapped.  The serialization adapters (lines 9-30) call
  \<open>unwrap\<close>/\<open>wrap\<close> around the json codec, and the wrappers' \<open>__repr__\<close>/\<open>__str__\<close>
  print their slot with \<open>repr\<close> and the encoder.  Wrappers hold their container by
  reference, so the development models Python's object store explicitly.  src/setup.py
  packages the module with metadata taken from its attributes (lines 1-4).

  \<^bold>\<open>Theories.\<close>
  \<^item> \<open>Prelude\<close>: the exceptions (\<open>py_error\<close>), the result type \<open>py_error + 'a\<close> with
    \<open>rbind\<close> (a raise propagates) and \<open>res_list\<close> (a list of steps, left to right),
    CPython's index normalisation \<open>py_norm_index\<close> (\<open>l[i]\<close>, \<open>del\<close>, \<open>pop\<close>) and
    clamping \<open>py_clamp_index\<close> (\<open>insert\<close>, the bounds of \<open>index\<close>), list surgery,
    insertion-ordered dicts as association lists (\<open>alist_set\<close>, \<open>alist_del\<close>) with
    their \<open>map_of\<close> lemmas, and decimal digits (\<open>dec_digits\<close>, \<open>parse_nat\<close>,
    \<open>int_repr\<close>, \<open>parse_int\<close>) with their read-after-show lemma; the read-out of a
    dict's values commutes with \<open>map_of\<close>, \<open>alist_set\<close> and \<open>alist_del\<close>
    (\<open>those_map_of\<close>, \<open>those_alist_set\<close>, \<open>those_alist_del\<close>).
  \<^item> \<open>PyValue\<close>: Python values as trees \<open>pyval\<close>, with the two wrapper classes as
    constructors; \<open>pv_wrap\<close>/\<open>pv_unwrap\<close> are \<open>wrap\<close>/\<open>unwrap\<close> on trees; Python's
    \<open>==\<close> as the protocol it is: \<open>eq_method\<close> is one \<open>__eq__\<close> (None for
    NotImplemented), including the wrappers' \<open>__eq__\<close> (lines 120-121, 232-233), and
    \<open>py_eq\<close> is the operator with its reflected call.  Lemmas: \<open>==\<close> is symmetric and
    blind to wrappers on well-formed values (\<open>py_eq_sym\<close>,
    \<open>py_eq_wrap_unwrap_invariant\<close>), via \<open>strip\<close>, the value beneath all wrappers,
    and reflexive (\<open>py_eq_refl\<close>).
  \<^item> \<open>Heap\<close>: the store: \<open>val\<close> (immediates or references), \<open>obj\<close> (dict, list,
    tuple, the two wrapper instances with their one slot), the record \<open>heap\<close> with
    \<open>alloc\<close> and \<open>set_obj\<close>; \<open>val_type\<close> is \<open>type(v)\<close> (\<open>py_type\<close>);
    \<open>deref\<close> reads a reference out as a \<open>pyval\<close>, and
    \<open>heap_eq\<close> is \<open>==\<close> on the heap.  Lemmas: freshness (\<open>heap_ok\<close>) is preserved,
    reads are stable under heap extension (\<open>deref_n_hext\<close>) and under more depth
    (\<open>deref_n_le\<close>); \<open>reach_n\<close> is the set of addresses a read-out visits, a write to
    an address it does not visit leaves the read-out unchanged
    (\<open>deref_n_set_obj_unreached\<close>), and a container that reads out is not reachable
    from its own items (\<open>deref_n_not_self_reach\<close>).  \<open>test_heap\<close> holds the
    fixtures of src/test_jsonobj.py used by the witnesses.
  \<^item> \<open>Convert\<close>: \<open>wrap\<close> and \<open>unwrap\<close> on the heap (one \<open>definition\<close> each, the
    \<open>isinstance\<close> chain as a case split on the referenced object).  Lemmas: the two
    round trips of the spec with reference identity, \<open>wrap\<close> idempotent on its results,
    the type of \<open>wrap\<close>'s result (\<open>wrap_result_type\<close>, against \<open>wrap_type\<close>), and the
    functional refinement \<open>deref (wrap v) = pv_wrap (deref v)\<close> (\<open>deref_n_wrap\<close>,
    \<open>deref_n_unwrap\<close>).
  \<^item> \<open>Iter\<close>: iterators as states (\<open>py_iter\<close>) with one \<open>__next__\<close> step
    \<open>iter_next\<close>; list iterators read the live list at each step, the \<open>Iterator\<close>
    class of \<open>JSONarray.__iter__\<close> is \<open>WrapIter\<close>, which wraps each item.
    A dict's key iterator remembers the dict's size and raises RuntimeError once it
    changes.  \<open>iter_all\<close> is \<open>list(it)\<close> with fuel; lemmas: a dict's keys come out in
    insertion order, the wrapping iterator yields \<open>wrap\<close> of each item.
  \<^item> \<open>JSONObj\<close>: one definition per method of \<open>JSONobj\<close>, taking the heap and the
    instance's address and returning a result; \<open>obj_attr_read\<close> is Python's attribute
    lookup (the slot and class attributes first, \<open>__getattr__\<close> only after).
    Lemmas: property write then read, read of an absent name, delete (with write then
    delete restoring the heap), iteration over the keys and its RuntimeError when a
    property is added or deleted meanwhile (\<open>obj_iter_keys\<close>), \<open>in\<close> (TypeError on a
    wrapper), the shadowing of a key named \<open>dict\<close>, the shared default dict.
  \<^item> \<open>JSONArray\<close>: one definition per method of \<open>JSONarray\<close>, with the list
    builtins they call; \<open>extend\<close> is the loop \<open>extend_loop\<close> run with fuel.  Lemmas:
    \<open>arr[i]\<close>, \<open>arr[i] = v\<close>, \<open>del arr[i]\<close> and their IndexError, \<open>append\<close> and
    \<open>pop\<close> (also as a round trip), \<open>index\<close> and \<open>remove\<close> as first-occurrence search
    under \<open>==\<close> on trees, the bounds of \<open>index\<close>'s result (\<open>arr_index_bounds\<close>),
    \<open>index\<close> with its default bound, \<open>insert\<close> storing
    wrappers, \<open>remove\<close> seeing through wrappers, \<open>==\<close> seeing through wrappers,
    the shared default list, \<open>in\<close> and \<open>count\<close> as membership
    and counting under \<open>==\<close> on trees, iteration, AttributeError on a tuple-backed
    array, \<open>reversed()\<close>, \<open>extend\<close> on itself (terminates, doubles) and on an alias of itself (never
    terminates).
  \<^item> \<open>Boundary\<close>: the invariant of the spec's data model, \<open>boundary_ok\<close>: no container
    holds a wrapper, every wrapper holds a container of its kind, every reference is
    live.  One lemma per method shows it kept (\<open>obj_setattr_boundary\<close>,
    \<open>arr_append_boundary\<close>, \<open>extend_loop_boundary\<close>, ...); the calls of the library
    are the datatype \<open>op\<close> with \<open>step\<close>, and \<open>reach\<close> the heaps a program reaches by
    calls that return.  The invariant holds on every reachable heap when \<open>insert\<close>
    is left out (\<open>reach_boundary_ok\<close>, by rule induction), and \<open>insert\<close> breaks it
    on every heap where it holds, for any wrapper, array and index
    (\<open>insert_breaks_boundary\<close>); under it \<open>unwrap\<close> is idempotent.  A call that raises ends a path of \<open>reach\<close>: the
    methods raise before they mutate, except \<open>extend\<close>, whose loop may raise after
    some appends, and those heaps are not followed.
  \<^item> \<open>Serialize\<close>: \<open>dump\<close>, \<open>dumps\<close>, \<open>load\<close>, \<open>loads\<close> with the json encoder and
    decoder as parameters; \<open>alloc_tree\<close> puts a tree on the heap, fresh, and reads
    back as that tree (\<open>alloc_tree_ok\<close>).  Lemmas:
    \<open>dumps(loads(s))\<close> encodes back the decoded tree (\<open>dumps_loads_roundtrip\<close>),
    \<open>dumps\<close> never raises TypeError under the boundary invariant (\<open>dumps_boundary\<close>),
    and raises it after \<open>insert\<close> stored a wrapper (\<open>dumps_after_insert_TypeError\<close>).
  \<^item> \<open>Repr\<close>: \<open>__repr__\<close> and \<open>__str__\<close> of both classes (\<open>obj_repr\<close>, \<open>arr_repr\<close>,
    \<open>obj_str\<close>, \<open>arr_str\<close>).  Python's \<open>repr\<close> is \<open>pv_repr\<close> on trees (CPython's
    string escapes and quote choice, decimal ints, displays, a one-item tuple's comma)
    and \<open>val_repr\<close> on the heap, where a container met again inside itself prints as
    \<open>[...]\<close>, \<open>(...)\<close> or \<open>{...}\<close>.  \<open>eval\<close> of the literal syntax \<open>repr\<close> writes is the
    parser \<open>parse_val\<close> (\<open>py_eval\<close>), and \<open>eval_heap\<close> allocates what it reads.  Lemmas:
    the parser reads back every printed well-formed tree (\<open>py_eval_repr_tree\<close>, by
    \<open>parse_val_repr\<close> over \<open>parse_str_body_repr\<close> and \<open>parse_int_repr\<close>), the heap
    printer refines the tree printer whenever the read-out succeeds (\<open>val_repr_deref\<close>),
    \<open>eval(repr(obj)) == obj\<close> (\<open>obj_repr_eval_roundtrip\<close>, \<open>arr_repr_eval_roundtrip\<close>),
    a wrapper that reads out prints as \<open>pv_repr\<close> of its tree (\<open>wrapper_repr_deref\<close>),
    \<open>str\<close> is \<open>jsonobj.dumps\<close> (\<open>str_is_dumps\<close>), and the texts on the fixtures,
    a cyclic dict included (\<open>repr_fixture_texts\<close>).
  \<^item> \<open>Setup\<close>: src/setup.py and the module attributes it reads: the \<open>setup()\<close>
    keywords as the record \<open>setup_args\<close> (\<open>setup_kwargs\<close>), the script's run under a
    Python version (\<open>setup_py\<close>), PEP 440 release versions (\<open>ver_le\<close>,
    \<open>prefix_match\<close>) and specifiers (\<open>parse_specifiers\<close>, \<open>clause_ok\<close>,
    \<open>spec_admits\<close>), and the classifier versions.  Lemmas: \<open>ver_le\<close> is a total
    preorder; \<open>python_requires\<close> admits exactly the versions from 2.7 outside 3.0.x,
    every classifier version among them, while the script needs Python 3
    (\<open>setup_python_requires\<close>).
  \<^item> \<open>DictSpec\<close>: the abstract contract of \<open>JSONobj\<close>, a dict of trees: the
    instance whose dict reads out as \<open>PDict d\<close> answers \<open>len\<close>, \<open>getattr\<close>,
    \<open>delattr\<close> and \<open>setattr\<close> as \<open>length d\<close>, \<open>map_of d\<close>, \<open>alist_del\<close> and
    \<open>alist_set\<close> (\<open>obj_refines_dict\<close>, a functional refinement through the read-out).
    The \<open>setattr\<close> case assumes the stored value does not reach the dict: a value
    that contains the dict makes it cyclic, and its read-out fails.
  \<^item> \<open>ListSpec\<close>: the same contract for \<open>JSONarray\<close> over a list, a list of trees:
    for an instance whose list reads out as \<open>PList ts\<close>, \<open>len\<close>, \<open>arr[i]\<close>,
    \<open>arr[i] = v\<close>, \<open>del arr[i]\<close>, \<open>pop\<close>, \<open>append\<close>, \<open>insert\<close>, \<open>reverse\<close> and
    \<open>clear\<close> act on \<open>ts\<close> as \<open>length\<close>, \<open>nth\<close> (wrapped), list update,
    \<open>remove_nth\<close>, append, \<open>insert_nth\<close>, \<open>rev\<close> and \<open>[]\<close>, with IndexError outside
    \<open>[-len, len)\<close> (\<open>arr_refines_list\<close>).  \<open>insert\<close> stores the tree of its
    argument as given, a wrapper's tree for a wrapper, where the others store the
    tree of \<open>unwrap(v)\<close>.  \<open>extend\<close> with another \<open>JSONarray\<close> over a list
    that reads out as \<open>us\<close> and does not reach \<open>self\<close>'s list leaves \<open>ts @ us\<close>,
    with fuel \<open>length us + 1\<close>, one step per item and one for the exhausted
    iterator (\<open>arr_extend_refines\<close>); the proof follows the loop on the invariant of
    \<open>Boundary\<close>, which makes every item a non-wrapper that \<open>unwrap\<close> returns as is.
  \<^item> \<open>Tests\<close>, \<open>TestsArray\<close>: the 32 test methods of src/test_jsonobj.py, one
    definition each (\<open>test_loads\<close>, \<open>obj_test_len\<close>, \<open>arr_test_extend\<close>, ...), whose
    value is the \<open>unittest\<close> outcome (\<open>Pass\<close>, \<open>Failure\<close>, \<open>Error e\<close>,
    \<open>OutOfFuel\<close>).  The statements run left to right on the heap after
    \<open>import jsonobj\<close> (\<open>module_heap\<close>, holding the two default arguments), with
    \<open>assertEqual\<close> as \<open>heap_eq\<close>, \<open>v.name\<close> and \<open>v[i]\<close> dispatched on the type of
    \<open>v\<close> (\<open>attr_val\<close>, \<open>subscript\<close>), and comprehensions as \<open>iter_all\<close>.  Lemmas: each
    test passes (\<open>obj_test_eq_passes\<close>, ...); the repr tests go through
    \<open>eval_repr_eq\<close>, the others evaluate.  \<open>test_suite_passes\<close> collects them: with a
    codec that reads and writes the tests' JSON texts, the whole suite passes.
  \<^item> \<open>Doctests\<close>: the examples of the two class docstrings as \<open>doctest\<close> runs them
    (\<open>obj_doctest\<close>, \<open>arr_doctest\<close>): each expression statement prints its
    \<open>repr\<close> (\<open>shown\<close>, and \<open>print_loop\<close> inside a \<open>for\<close> loop), and the outcome
    \<open>doc_outcome\<close> records the expected and the printed lines of the first mismatch.
    \<open>docstring_examples\<close>: the \<open>JSONobj\<close> examples pass, the \<open>JSONarray\<close> loop
    prints the module-qualified repr its docstring leaves out.

  \<^bold>\<open>Correspondence.\<close>  A method \<open>C.m(self, args)\<close> is \<open>obj_m h self args\<close> or
  \<open>arr_m h self args\<close>; its value is \<open>Inr\<close> of the return value (wrapped where the code
  wraps) and the new heap, or \<open>Inl\<close> of the exception the code or the builtin it calls
  raises.  A tuple-backed \<open>JSONarray\<close> has no mutating list methods and no
  \<open>__reversed__\<close>: those are AttributeError (\<open>arr_list\<close>, \<open>arr_reversed\<close>).  A default
  argument (\<open>jsondict={}\<close>, \<open>jsonseq=[]\<close>) is an address passed to \<open>obj_init\<close>/\<open>arr_init\<close>:
  Python evaluates it once, so every call without an argument gets the same object.

  \<^bold>\<open>Bounds and fuel.\<close>  \<open>deref\<close> reads to depth \<open>recursion_limit\<close> = 1000, CPython's
  default; deeper or cyclic structures read as RecursionError, the exception \<open>==\<close>
  raises there.  \<open>extend_loop\<close> takes one unit of fuel per item and one for the final
  StopIteration: \<open>Suc (length xs)\<close> is enough for \<open>arr.extend(arr)\<close>
  (\<open>arr_extend_self_doubles\<close>), and no fuel is enough when the iterated list is the one
  being extended through another wrapper (\<open>arr_extend_alias_diverges\<close>): the loop
  really does not stop.  \<open>iter_all\<close> likewise takes \<open>Suc (length xs)\<close> steps for a
  sequence of \<open>length xs\<close> items, which the iteration lemmas supply.  The tests run
  their comprehensions and \<open>extend\<close> calls with any fuel of 5 or more: the longest
  loop of the suite iterates a two-item array (three steps) or appends two items to it,
  and a run that ends within the fuel does not look at the rest (\<open>fuel5\<close>).  The
  \<open>JSONarray\<close> doctest's loop prints two items and stops: any fuel of 3 or more.  \<open>val_repr\<close>
  takes one unit of the same \<open>recursion_limit\<close> per reference it follows; the parser
  takes one unit per value and per item, and \<open>py_eval\<close> gives it one more than the
  length of the text, which is enough for every printed tree (\<open>size_lt_repr\<close>).  The
  repr round trip assumes the tree's depth below \<open>recursion_limit\<close>, so that the
  evaluated copy reads back within it.

  \<^bold>\<open>Not modelled.\<close>  The json codec itself (text formatting and parsing) is a parameter
  of \<open>Serialize\<close> and of \<open>__str__\<close>, not a definition.  \<open>dumps\<close> reports every
  read-out that runs out of depth as RecursionError, where the encoder raises
  ValueError for a cycle it detects.  \<open>dumps_loads_roundtrip\<close> assumes depth below 999,
  so that the read-out of the wrapped result stays within \<open>recursion_limit\<close>.
  \<open>eval\<close> is modelled on the literal syntax only: other expressions, other spacing and
  trailing commas read as SyntaxError, so the set display \<open>{...}\<close> of a cyclic repr
  is not evaluated; CPython's tokenizer also refuses more than 200 nested brackets,
  which the model does not.  Characters are code points below 256 (HOL's \<open>char\<close>).
  The model follows Python 3: under Python 2.7, which \<open>python_requires\<close> admits,
  the classes are old-style and the iterator protocol is \<open>next\<close>; only the script's
  \<open>open\<close> is modelled per version.  PEP 440 pre-, post- and dev-releases, epochs and
  \<open>===\<close> are not modelled, nor setuptools itself.  Floats, slices as indices, \<open>==\<close>'s
  identity shortcut for containers are not modelled; of CPython's checks on a dict
  mutated during iteration only the size check is, not the one that detects keys
  replaced at equal size.  Of \<open>unittest\<close> only the assertions the tests call are
  modelled, not the runner's discovery, reporting and failure messages.
\<close>

end
